(* ===== verification/Prelude.thy ===== *)
theory Prelude
  imports Main "HOL-Library.Multiset" "HOL-Library.Sublist"
begin

text \<open>
  Shared vocabulary of the development: lemma collections, reachability of a
  transition system, the interfaces that several components share (a codec, a
  comparison, an invariant of a transition system), Rust's \<open>Ordering\<close> and
  the stable \<open>sort_by\<close> of slices.
\<close>

named_theorems sql_defs \<open>meaning of the SQL statements\<close>
named_theorems store_defs \<open>the operations of the job store\<close>

section \<open>Results\<close>

text \<open>
  \<open>Result<T, E>\<close> is \<open>'e + 'a\<close> with the error on the left. The combinators
  are \<open>map_err\<close> and the \<open>?\<close> operator (early return on an error).
\<close>

fun map_err :: "('e \<Rightarrow> 'f) \<Rightarrow> 'e + 'a \<Rightarrow> 'f + 'a" where
  "map_err f (Inl e) = Inl (f e)"
| "map_err f (Inr x) = Inr x"

fun bind_result :: "'e + 'a \<Rightarrow> ('a \<Rightarrow> 'e + 'b) \<Rightarrow> 'e + 'b" where
  "bind_result (Inl e) f = Inl e"
| "bind_result (Inr x) f = f x"

definition ok_or :: "'a option \<Rightarrow> 'e \<Rightarrow> 'e + 'a" where
  "ok_or x e = (case x of None \<Rightarrow> Inl e | Some y \<Rightarrow> Inr y)"

lemma ok_or_simps [simp]:
  "ok_or None e = Inl e"
  "ok_or (Some y) e = Inr y"
  by (simp_all add: ok_or_def)

lemma map_err_iff [simp]:
  "map_err f r = Inr x \<longleftrightarrow> r = Inr x"
  "map_err f r = Inl e \<longleftrightarrow> (\<exists>e'. r = Inl e' \<and> e = f e')"
  by (cases r; auto)+

lemma bind_result_Inr_iff:
  "bind_result r f = Inr y \<longleftrightarrow> (\<exists>x. r = Inr x \<and> f x = Inr y)"
  by (cases r) auto

lemma bind_result_Inl_iff:
  "bind_result r f = Inl e \<longleftrightarrow> r = Inl e \<or> (\<exists>x. r = Inr x \<and> f x = Inl e)"
  by (cases r) auto

section \<open>Codecs\<close>

text \<open>
  Several components write a value as text and read it back (a job status in its
  column, a mode on a command line, an id in a path). The law is that reading what
  was written gives the value; its clients need injectivity and the fact that the
  reader determines the value.
\<close>

locale codec =
  fixes enc :: "'a \<Rightarrow> 'b"
    and dec :: "'b \<Rightarrow> 'e + 'a"
  assumes dec_enc: "dec (enc x) = Inr x"
begin

lemma enc_inj: "inj enc"
proof (rule injI)
  fix x y
  assume "enc x = enc y"
  then have "dec (enc x) = dec (enc y)" by simp
  then show "x = y" by (simp add: dec_enc)
qed

lemma enc_eq_iff: "enc x = enc y \<longleftrightarrow> x = y"
  using enc_inj by (auto dest: injD)

lemma dec_unique: "dec (enc x) = Inr y \<Longrightarrow> y = x"
  by (simp add: dec_enc)

end

text \<open>A codec whose reader accepts nothing but what the writer produces.\<close>

locale strict_codec = codec +
  assumes dec_sound: "dec t = Inr x \<Longrightarrow> t = enc x"
begin

lemma dec_iff: "dec t = Inr x \<longleftrightarrow> t = enc x"
  using dec_enc dec_sound by blast

lemma dec_error_iff: "(\<exists>e. dec t = Inl e) \<longleftrightarrow> t \<notin> range enc"
proof (cases "dec t")
  case (Inl e)
  then have "t \<noteq> enc x" for x
    using dec_enc [of x] by auto
  with Inl show ?thesis by auto
next
  case (Inr x)
  then show ?thesis using dec_sound by auto
qed

end

section \<open>Reachable states\<close>

inductive reachable :: "('s \<Rightarrow> bool) \<Rightarrow> ('s \<Rightarrow> 's \<Rightarrow> bool) \<Rightarrow> 's \<Rightarrow> bool"
  for start :: "'s \<Rightarrow> bool" and step :: "'s \<Rightarrow> 's \<Rightarrow> bool" where
  reachable_start: "start s \<Longrightarrow> reachable start step s"
| reachable_step: "reachable start step s \<Longrightarrow> step s t \<Longrightarrow> reachable start step t"

text \<open>
  A safety argument: a state predicate that holds initially and is kept by every step
  holds in every reachable state.
\<close>

locale safe_system =
  fixes start :: "'s \<Rightarrow> bool"
    and step :: "'s \<Rightarrow> 's \<Rightarrow> bool"
    and inv :: "'s \<Rightarrow> bool"
  assumes inv_start: "start s \<Longrightarrow> inv s"
    and inv_step: "step s t \<Longrightarrow> inv s \<Longrightarrow> inv t"
begin

lemma reachable_inv: "reachable start step s \<Longrightarrow> inv s"
  by (induction rule: reachable.induct) (auto intro: inv_start inv_step)

end

section \<open>Orderings and stable sorting\<close>

datatype ordering = Less | Equal | Greater

fun reverse_ordering :: "ordering \<Rightarrow> ordering" where
  "reverse_ordering Less = Greater"
| "reverse_ordering Equal = Equal"
| "reverse_ordering Greater = Less"

fun then_with :: "ordering \<Rightarrow> ordering \<Rightarrow> ordering" where
  "then_with Equal o2 = o2"
| "then_with o1 o2 = o1"

text \<open>\<open>Ord::cmp\<close> of a linear order.\<close>

definition cmp_of :: "'a::linorder \<Rightarrow> 'a \<Rightarrow> ordering" where
  "cmp_of x y = (if x < y then Less else if x = y then Equal else Greater)"

text \<open>
  \<open>slice::sort_by\<close> is a stable sort. For a total preorder the stable sorted
  permutation is unique, so an insertion sort that puts an element before the equal
  ones already sorted computes it.
\<close>

fun insert_by :: "('a \<Rightarrow> 'a \<Rightarrow> ordering) \<Rightarrow> 'a \<Rightarrow> 'a list \<Rightarrow> 'a list" where
  "insert_by cmp x [] = [x]"
| "insert_by cmp x (y # ys) =
     (if cmp x y = Greater then y # insert_by cmp x ys else x # y # ys)"

definition sort_by :: "('a \<Rightarrow> 'a \<Rightarrow> ordering) \<Rightarrow> 'a list \<Rightarrow> 'a list" where
  "sort_by cmp xs = foldr (insert_by cmp) xs []"

lemma mset_insert_by [simp]: "mset (insert_by cmp x ys) = add_mset x (mset ys)"
  by (induction ys) auto

lemma mset_sort_by [simp]: "mset (sort_by cmp xs) = mset xs"
  by (induction xs) (auto simp: sort_by_def)

lemma set_sort_by [simp]: "set (sort_by cmp xs) = set xs"
  by (metis mset_sort_by set_mset_mset)

lemma length_sort_by [simp]: "length (sort_by cmp xs) = length xs"
  by (metis mset_sort_by size_mset)

lemma set_insert_by [simp]: "set (insert_by cmp x ys) = insert x (set ys)"
  by (induction ys) auto

text \<open>What a comparison closure must satisfy for \<open>sort_by\<close> to sort.\<close>

locale comparison =
  fixes cmp :: "'a \<Rightarrow> 'a \<Rightarrow> ordering"
  assumes cmp_refl: "cmp x x = Equal"
    and cmp_swap: "cmp y x = reverse_ordering (cmp x y)"
    and cmp_trans: "cmp x y \<noteq> Greater \<Longrightarrow> cmp y z \<noteq> Greater \<Longrightarrow> cmp x z \<noteq> Greater"
begin

lemma not_greater_swap: "cmp x y = Greater \<Longrightarrow> cmp y x \<noteq> Greater"
  by (simp add: cmp_swap [of y x])

lemma sorted_insert_by:
  "sorted_wrt (\<lambda>a b. cmp a b \<noteq> Greater) ys \<Longrightarrow>
   sorted_wrt (\<lambda>a b. cmp a b \<noteq> Greater) (insert_by cmp x ys)"
proof (induction ys)
  case Nil
  then show ?case by simp
next
  case (Cons y ys)
  show ?case
  proof (cases "cmp x y = Greater")
    case True
    with Cons show ?thesis by (auto dest: not_greater_swap)
  next
    case False
    with Cons.prems have "\<forall>z \<in> set ys. cmp x z \<noteq> Greater"
      using cmp_trans by fastforce
    with False Cons.prems show ?thesis by simp
  qed
qed

lemma sorted_sort_by: "sorted_wrt (\<lambda>a b. cmp a b \<noteq> Greater) (sort_by cmp xs)"
  by (induction xs) (auto simp: sort_by_def sorted_insert_by)

lemma equal_trans: "cmp z x = Equal \<Longrightarrow> cmp z y = Equal \<Longrightarrow> cmp x y \<noteq> Greater"
  using cmp_trans [of x z y] cmp_swap [where x = z and y = x] by simp

lemma filter_insert_by:
  "filter (\<lambda>y. cmp z y = Equal) (insert_by cmp x ys) =
   (if cmp z x = Equal then [x] else []) @ filter (\<lambda>y. cmp z y = Equal) ys"
  by (induction ys) (auto dest: equal_trans)

lemma stable_sort_by:
  "filter (\<lambda>y. cmp z y = Equal) (sort_by cmp xs) = filter (\<lambda>y. cmp z y = Equal) xs"
  by (induction xs) (auto simp: sort_by_def filter_insert_by)

end

interpretation linorder_cmp: comparison "cmp_of :: 'a::linorder \<Rightarrow> 'a \<Rightarrow> ordering"
  by unfold_locales (auto simp: cmp_of_def split: if_splits)

end
