(* ===== verification/Strings.thy ===== *)
theory Strings
  imports Prelude "HOL-Library.List_Lexorder" "HOL-Library.Char_ord" "HOL-Library.Word"
begin

text \<open>
  Rust strings. A \<open>String\<close> is its UTF-8 bytes, so \<open>string\<close> (a list of 8-bit
  \<open>char\<close>s) models it with \<open>len()\<close> as \<open>length\<close>, byte offsets as list positions
  and \<open>Ord\<close> as the lexicographic order of \<open>List_Lexorder\<close>. Operations that Rust
  defines on characters (\<open>char_indices\<close>, \<open>trim\<close>, \<open>chars().take\<close>) are defined
  through the UTF-8 encoding. Also here: decimal numbers as \<open>Display\<close> prints and
  \<open>FromStr\<close> reads them, with the range of the integer type.
\<close>

type_synonym bytes = "char list"

definition byte :: "char \<Rightarrow> nat" where
  "byte c = of_char c"

lemma byte_less [simp]: "byte c < 256"
  by (simp add: byte_def)

section \<open>Characters of a UTF-8 string\<close>

text \<open>A byte of the form \<open>10xxxxxx\<close> continues a character.\<close>

definition is_continuation :: "char \<Rightarrow> bool" where
  "is_continuation c \<longleftrightarrow> 128 \<le> byte c \<and> byte c < 192"

text \<open>\<open>char_indices()\<close>: the byte offsets where characters start.\<close>

definition char_offsets :: "string \<Rightarrow> nat list" where
  "char_offsets s = filter (\<lambda>i. \<not> is_continuation (s ! i)) [0..<length s]"

definition char_count :: "string \<Rightarrow> nat" where
  "char_count s = length (filter (\<lambda>c. \<not> is_continuation c) s)"

text \<open>\<open>char_indices().nth(n)\<close>: the offset of the character number \<open>n\<close>, if there is one.\<close>

definition nth_char_offset :: "string \<Rightarrow> nat \<Rightarrow> nat option" where
  "nth_char_offset s n =
     (let os = char_offsets s in if n < length os then Some (os ! n) else None)"

text \<open>\<open>chars().take(n).collect()\<close>.\<close>

definition take_chars :: "nat \<Rightarrow> string \<Rightarrow> string" where
  "take_chars n s = (case nth_char_offset s n of None \<Rightarrow> s | Some i \<Rightarrow> take i s)"

lemma length_char_offsets: "length (char_offsets s) = char_count s"
proof -
  have "length (char_offsets s) = card {i. i < length s \<and> \<not> is_continuation (s ! i)}"
    by (simp add: char_offsets_def distinct_length_filter Collect_conj_eq
        lessThan_def [symmetric] lessThan_atLeast0 Int_commute)
  also have "\<dots> = char_count s"
    by (simp add: char_count_def length_filter_conv_card)
  finally show ?thesis .
qed

lemma char_offsets_take_drop:
  "char_offsets s = char_offsets (take i s) @ map ((+) (length (take i s))) (char_offsets (drop i s))"
proof -
  have *: "char_offsets (a @ b) = char_offsets a @ map ((+) (length a)) (char_offsets b)" for a b
  proof -
    have "[0..<length (a @ b)] = [0..<length a] @ map ((+) (length a)) [0..<length b]"
      by (intro nth_equalityI) (auto simp: nth_append)
    moreover have "filter (\<lambda>i. \<not> is_continuation ((a @ b) ! i)) [0..<length a]
        = filter (\<lambda>i. \<not> is_continuation (a ! i)) [0..<length a]"
      by (rule filter_cong) (auto simp: nth_append)
    ultimately show ?thesis
      by (simp add: char_offsets_def filter_map o_def nth_append)
  qed
  show ?thesis using * [of "take i s" "drop i s"] by simp
qed

lemma char_count_append [simp]: "char_count (a @ b) = char_count a + char_count b"
  by (simp add: char_count_def)

text \<open>Cutting at the offset of character \<open>n\<close> leaves exactly \<open>n\<close> characters.\<close>

lemma nth_char_offset_Some:
  assumes "nth_char_offset s n = Some i"
  shows "i < length s" "\<not> is_continuation (s ! i)" "char_count (take i s) = n"
proof -
  from assms have n: "n < length (char_offsets s)" and i: "i = char_offsets s ! n"
    by (auto simp: nth_char_offset_def Let_def split: if_splits)
  then have mem: "i \<in> set (char_offsets s)" by simp
  then show i_less: "i < length s" and start: "\<not> is_continuation (s ! i)"
    by (auto simp: char_offsets_def)
  let ?k = "char_count (take i s)"
  have len: "length (char_offsets (take i s)) = ?k" by (rule length_char_offsets)
  have "drop i s = s ! i # drop (Suc i) s" using i_less by (simp add: Cons_nth_drop_Suc)
  then have "0 < char_count (drop i s)" using start by (simp add: char_count_def)
  then obtain x xs where tail: "char_offsets (drop i s) = x # xs"
    by (metis length_char_offsets length_greater_0_conv neq_Nil_conv)
  have "[0..<length (drop i s)] = 0 # [Suc 0..<length (drop i s)]"
    using i_less by (simp add: upt_rec)
  then have "x = 0"
    using tail start i_less by (simp add: char_offsets_def)
  then have "char_offsets s ! ?k = i"
    using char_offsets_take_drop [of s i] tail i_less len by (simp add: nth_append)
  moreover have "?k < length (char_offsets s)"
    using char_offsets_take_drop [of s i] tail len by simp
  moreover have "distinct (char_offsets s)"
    by (simp add: char_offsets_def)
  ultimately show "?k = n"
    using n i by (simp add: nth_eq_iff_index_eq)
qed

lemma nth_char_offset_None: "nth_char_offset s n = None \<longleftrightarrow> char_count s \<le> n"
  by (auto simp: nth_char_offset_def Let_def length_char_offsets)

section \<open>Slicing and joining\<close>

definition strip_prefix :: "string \<Rightarrow> string \<Rightarrow> string option" where
  "strip_prefix p s = (if prefix p s then Some (drop (length p) s) else None)"

lemma strip_prefix_Some_iff: "strip_prefix p s = Some t \<longleftrightarrow> s = p @ t"
  by (auto simp: strip_prefix_def prefix_def)

lemma strip_prefix_append [simp]: "strip_prefix p (p @ t) = Some t"
  by (simp add: strip_prefix_Some_iff)

fun split_once :: "char \<Rightarrow> string \<Rightarrow> (string \<times> string) option" where
  "split_once d [] = None"
| "split_once d (c # cs) =
     (if c = d then Some ([], cs) else map_option (\<lambda>(a, b). (c # a, b)) (split_once d cs))"

text \<open>\<open>split(d)\<close>: always at least one piece.\<close>

fun split_on :: "char \<Rightarrow> string \<Rightarrow> string list" where
  "split_on d [] = [[]]"
| "split_on d (c # cs) =
     (if c = d then [] # split_on d cs
      else (case split_on d cs of [] \<Rightarrow> [[c]] | p # ps \<Rightarrow> (c # p) # ps))"

fun join :: "string \<Rightarrow> string list \<Rightarrow> string" where
  "join sep [] = []"
| "join sep [x] = x"
| "join sep (x # y # ys) = x @ sep @ join sep (y # ys)"

text \<open>\<open>str::replace\<close> of a one-byte pattern.\<close>

definition replace_char :: "char \<Rightarrow> string \<Rightarrow> string \<Rightarrow> string" where
  "replace_char c r s = concat (map (\<lambda>x. if x = c then r else [x]) s)"

lemma replace_char_simps [simp]:
  "replace_char c r [] = []"
  "replace_char c r (x # xs) = (if x = c then r else [x]) @ replace_char c r xs"
  by (simp_all add: replace_char_def)

lemma split_once_Some_iff:
  "split_once d s = Some (a, b) \<longleftrightarrow> s = a @ d # b \<and> d \<notin> set a"
proof (induction s arbitrary: a)
  case Nil
  then show ?case by simp
next
  case (Cons c s)
  then show ?case by (cases a) auto
qed

lemma split_on_nonempty [simp]: "split_on d s \<noteq> []"
  by (induction s) (auto split: list.splits)

lemma split_on_no_sep: "d \<notin> set s \<Longrightarrow> split_on d s = [s]"
  by (induction s) auto

lemma split_on_Cons_sep: "d \<notin> set p \<Longrightarrow> split_on d (p @ d # s) = p # split_on d s"
  by (induction p) auto

lemma split_on_pieces: "p \<in> set (split_on d s) \<Longrightarrow> d \<notin> set p"
  by (induction s arbitrary: p) (auto split: list.splits if_splits)

lemma split_on_join:
  assumes "xs \<noteq> []" and "\<forall>x \<in> set xs. d \<notin> set x"
  shows "split_on d (join [d] xs) = xs"
  using assms by (induction xs rule: induct_list012) (auto simp: split_on_no_sep split_on_Cons_sep)

lemma join_split_on: "join [d] (split_on d s) = s"
proof (induction s)
  case Nil
  then show ?case by simp
next
  case (Cons c s)
  then show ?case by (cases "split_on d s" rule: remdups_adj.cases) auto
qed

section \<open>White space\<close>

text \<open>
  \<open>str::trim\<close> removes characters with the Unicode property \<open>White_Space\<close>; these
  are their UTF-8 encodings (U+0009 to U+000D, U+0020, U+0085, U+00A0, U+1680, U+2000
  to U+200A, U+2028, U+2029, U+202F, U+205F and U+3000).
\<close>

definition white_space :: "string list" where
  "white_space = map (map char_of)
     ([[9], [10], [11], [12], [13], [32], [194, 133], [194, 160], [225, 154, 128],
       [226, 128, 168], [226, 128, 169], [226, 128, 175], [226, 129, 159],
       [227, 128, 128 :: nat]]
      @ map (\<lambda>i. [226, 128, 128 + i]) [0, 1, 2, 3, 4, 5, 6, 7, 8, 9, 10])"

function strip_front :: "string list \<Rightarrow> string \<Rightarrow> string" where
  "strip_front ws s =
     (case find (\<lambda>w. w \<noteq> [] \<and> prefix w s) ws of
        None \<Rightarrow> s
      | Some w \<Rightarrow> strip_front ws (drop (length w) s))"
  by pat_completeness auto
termination
proof (relation "measure (\<lambda>(ws, s). length s)", goal_cases)
  case 1
  show ?case by simp
next
  case (2 ws s w)
  then have "w \<noteq> []" and "prefix w s"
    by (auto simp: find_Some_iff)
  then show ?case by (auto simp: prefix_def)
qed

declare strip_front.simps [simp del]

definition trim_start :: "string \<Rightarrow> string" where
  "trim_start s = strip_front white_space s"

text \<open>UTF-8 is self-synchronising: a trailing encoding is the last character.\<close>

definition trim_end :: "string \<Rightarrow> string" where
  "trim_end s = rev (strip_front (map rev white_space) (rev s))"

definition trim :: "string \<Rightarrow> string" where
  "trim s = trim_end (trim_start s)"

definition is_blank :: "string \<Rightarrow> bool" where
  "is_blank s \<longleftrightarrow> trim s = []"

lemma strip_front_suffix: "suffix (strip_front ws s) s"
proof (induction ws s rule: strip_front.induct)
  case (1 ws s)
  show ?case
  proof (cases "find (\<lambda>w. w \<noteq> [] \<and> prefix w s) ws")
    case None
    then show ?thesis by (simp add: strip_front.simps [of ws s])
  next
    case (Some w)
    with 1 have "suffix (strip_front ws (drop (length w) s)) (drop (length w) s)" by simp
    then have "suffix (strip_front ws (drop (length w) s)) s"
      using suffix_drop suffix_order.trans by blast
    with Some show ?thesis by (simp add: strip_front.simps [of ws s])
  qed
qed

lemma strip_front_clean: "find (\<lambda>w. w \<noteq> [] \<and> prefix w (strip_front ws s)) ws = None"
proof (induction ws s rule: strip_front.induct)
  case (1 ws s)
  then show ?case
    by (cases "find (\<lambda>w. w \<noteq> [] \<and> prefix w s) ws") (simp_all add: strip_front.simps [of ws s])
qed

lemma strip_front_idem: "strip_front ws (strip_front ws s) = strip_front ws s"
  using strip_front_clean [of ws s] by (simp add: strip_front.simps [of ws "strip_front ws s"])

text \<open>Trimming leaves a text alone that starts and ends with visible ASCII.\<close>

definition is_graph :: "char \<Rightarrow> bool" where
  "is_graph c \<longleftrightarrow> 33 \<le> byte c \<and> byte c \<le> 126"

lemma white_space_ends: "list_all (\<lambda>w. \<not> is_graph (hd w) \<and> \<not> is_graph (last w)) white_space"
  by (simp add: white_space_def is_graph_def byte_def)

lemma strip_front_graph:
  assumes "is_graph (hd s)" and "\<forall>w \<in> set ws. \<not> is_graph (hd w)"
  shows "strip_front ws s = s"
proof -
  have "\<not> (w \<noteq> [] \<and> prefix w s)" if "w \<in> set ws" for w
    using assms that by (cases w; cases s) auto
  then have "find (\<lambda>w. w \<noteq> [] \<and> prefix w s) ws = None" by (simp add: find_None_iff)
  then show ?thesis by (simp add: strip_front.simps [of ws s])
qed

lemma trim_graph:
  assumes "is_graph (hd s)" and "is_graph (last s)"
  shows "trim s = s"
proof -
  have ends: "\<forall>w \<in> set white_space. \<not> is_graph (hd w)"
    "\<forall>w \<in> set (map rev white_space). \<not> is_graph (hd w)"
    using white_space_ends by (auto simp: list_all_iff hd_rev)
  have "strip_front (map rev white_space) (rev s) = rev s"
    using assms(2) by (intro strip_front_graph ends) (simp add: hd_rev)
  then show ?thesis
    using strip_front_graph [OF assms(1) ends(1)] by (simp add: trim_def trim_start_def trim_end_def)
qed

section \<open>ASCII\<close>

definition is_ascii_digit :: "char \<Rightarrow> bool" where
  "is_ascii_digit c \<longleftrightarrow> 48 \<le> byte c \<and> byte c \<le> 57"

definition is_ascii_upper :: "char \<Rightarrow> bool" where
  "is_ascii_upper c \<longleftrightarrow> 65 \<le> byte c \<and> byte c \<le> 90"

definition is_ascii_lower :: "char \<Rightarrow> bool" where
  "is_ascii_lower c \<longleftrightarrow> 97 \<le> byte c \<and> byte c \<le> 122"

definition is_ascii_alphabetic :: "char \<Rightarrow> bool" where
  "is_ascii_alphabetic c \<longleftrightarrow> is_ascii_upper c \<or> is_ascii_lower c"

definition is_ascii_alphanumeric :: "char \<Rightarrow> bool" where
  "is_ascii_alphanumeric c \<longleftrightarrow> is_ascii_alphabetic c \<or> is_ascii_digit c"

definition ascii_lower :: "char \<Rightarrow> char" where
  "ascii_lower c = (if is_ascii_upper c then char_of (byte c + 32) else c)"

definition eq_ignore_ascii_case :: "string \<Rightarrow> string \<Rightarrow> bool" where
  "eq_ignore_ascii_case s t \<longleftrightarrow> map ascii_lower s = map ascii_lower t"

lemmas ascii_defs = is_ascii_digit_def is_ascii_upper_def is_ascii_lower_def
  is_ascii_alphabetic_def is_ascii_alphanumeric_def

lemma eq_ignore_ascii_case_equiv:
  "eq_ignore_ascii_case s s"
  "eq_ignore_ascii_case s t \<Longrightarrow> eq_ignore_ascii_case t s"
  "eq_ignore_ascii_case s t \<Longrightarrow> eq_ignore_ascii_case t u \<Longrightarrow> eq_ignore_ascii_case s u"
  by (simp_all add: eq_ignore_ascii_case_def)

section \<open>Decimal numbers\<close>

fun show_nat :: "nat \<Rightarrow> string" where
  "show_nat n = (if n < 10 then [char_of (48 + n)]
                 else show_nat (n div 10) @ [char_of (48 + n mod 10)])"

declare show_nat.simps [simp del]

definition show_int :: "int \<Rightarrow> string" where
  "show_int i = (if i < 0 then ''-'' @ show_nat (nat (- i)) else show_nat (nat i))"

fun digits_value :: "nat \<Rightarrow> string \<Rightarrow> nat option" where
  "digits_value acc [] = Some acc"
| "digits_value acc (c # cs) =
     (if is_ascii_digit c then digits_value (10 * acc + (byte c - 48)) cs else None)"

text \<open>
  \<open>FromStr\<close> of the unsigned types (an optional \<open>+\<close>) and of \<open>i64\<close> (an optional
  sign); empty digits, other characters and values out of range are errors.
\<close>

definition parse_unsigned :: "nat \<Rightarrow> string \<Rightarrow> nat option" where
  "parse_unsigned bound s =
     (let ds = (if prefix ''+'' s then drop 1 s else s)
      in if ds = [] then None
         else (case digits_value 0 ds of
                 None \<Rightarrow> None
               | Some n \<Rightarrow> if n \<le> bound then Some n else None))"

definition i64_min :: int where "i64_min = - (2 ^ 63)"
definition i64_max :: int where "i64_max = 2 ^ 63 - 1"
definition u64_max :: nat where "u64_max = 2 ^ 64 - 1"

definition in_i64 :: "int \<Rightarrow> bool" where
  "in_i64 i \<longleftrightarrow> i64_min \<le> i \<and> i \<le> i64_max"

definition parse_i64 :: "string \<Rightarrow> int option" where
  "parse_i64 s =
     (let neg = prefix ''-'' s; ds = (if neg \<or> prefix ''+'' s then drop 1 s else s)
      in if ds = [] then None
         else (case digits_value 0 ds of
                 None \<Rightarrow> None
               | Some n \<Rightarrow>
                   (let i = (if neg then - int n else int n)
                    in if in_i64 i then Some i else None)))"

lemmas i64_defs = in_i64_def i64_min_def i64_max_def

lemma byte_char_of [simp]: "n < 256 \<Longrightarrow> byte (char_of n) = n"
  by (simp add: byte_def)

lemma digits_value_append:
  "digits_value a (s @ t) = Option.bind (digits_value a s) (\<lambda>b. digits_value b t)"
  by (induction s arbitrary: a) auto

lemma digits_value_show_nat [simp]: "digits_value 0 (show_nat n) = Some n"
proof (induction n rule: show_nat.induct)
  case (1 n)
  show ?case
  proof (cases "n < 10")
    case True
    then show ?thesis by (simp add: show_nat.simps [of n] is_ascii_digit_def)
  next
    case False
    moreover have "n mod 10 < 10" by simp
    then have "is_ascii_digit (char_of (48 + n mod 10))"
      by (simp add: is_ascii_digit_def)
    moreover have "48 + n mod 10 < 256" using \<open>n mod 10 < 10\<close> by linarith
    ultimately show ?thesis
      using 1 by (simp add: show_nat.simps [of n] digits_value_append)
  qed
qed

lemma show_nat_digits: "\<forall>c \<in> set (show_nat n). is_ascii_digit c"
proof (induction n rule: show_nat.induct)
  case (1 n)
  have "n mod 10 < 10" by simp
  then have "is_ascii_digit (char_of (48 + n mod 10))" by (simp add: is_ascii_digit_def)
  with 1 show ?case
    by (auto simp: show_nat.simps [of n] is_ascii_digit_def)
qed

lemma show_nat_nonempty [simp]: "show_nat n \<noteq> []"
  by (simp add: show_nat.simps [of n])

lemma digit_not_sign: "is_ascii_digit c \<Longrightarrow> c \<noteq> CHR ''-'' \<and> c \<noteq> CHR ''+'' \<and> c \<noteq> CHR ''/''"
  by (auto simp: is_ascii_digit_def byte_def)

lemma show_nat_no_sign: "\<not> prefix ''-'' (show_nat n)" "\<not> prefix ''+'' (show_nat n)"
proof -
  obtain c cs where c: "show_nat n = c # cs" by (cases "show_nat n") auto
  with show_nat_digits [of n] have "is_ascii_digit c" by simp
  with c show "\<not> prefix ''-'' (show_nat n)" "\<not> prefix ''+'' (show_nat n)"
    using digit_not_sign by auto
qed

lemma parse_i64_show_int: "in_i64 i \<Longrightarrow> parse_i64 (show_int i) = Some i"
  by (simp add: parse_i64_def show_int_def show_nat_no_sign Let_def)

lemma parse_unsigned_show_nat: "n \<le> b \<Longrightarrow> parse_unsigned b (show_nat n) = Some n"
  by (simp add: parse_unsigned_def show_nat_no_sign Let_def)

lemma parse_i64_range: "parse_i64 s = Some i \<Longrightarrow> in_i64 i"
  by (auto simp: parse_i64_def Let_def split: if_splits option.splits)

lemma parse_unsigned_bound: "parse_unsigned b s = Some n \<Longrightarrow> n \<le> b"
  by (auto simp: parse_unsigned_def Let_def split: if_splits option.splits)

lemma show_nat_inj: "show_nat m = show_nat n \<longleftrightarrow> m = n"
  by (metis digits_value_show_nat option.inject)

lemma show_int_inj: "show_int i = show_int j \<longleftrightarrow> i = j"
proof
  assume eq: "show_int i = show_int j"
  have "prefix ''-'' (show_int k) \<longleftrightarrow> k < 0" for k
    by (auto simp: show_int_def show_nat_no_sign)
  with eq have "i < 0 \<longleftrightarrow> j < 0" by metis
  with eq show "i = j"
    by (auto simp: show_int_def show_nat_inj split: if_splits)
qed simp

end
