(* ===== verification/Json.thy ===== *)
theory Json
  imports Strings
begin

text \<open>
  \<open>serde_json::Value\<close> and the accessors the repository calls on it. An object is
  \<open>serde_json\<close>'s default map, a \<open>BTreeMap\<close>: an association list kept sorted by key,
  each key once. A number is \<open>serde_json::Number\<close>: an unsigned integer, a negative
  integer or a 64-bit float (its bits). Parsing and printing of JSON text is
  \<open>serde_json\<close>'s own and a parameter where it is used.
\<close>

type_synonym f64 = "64 word"

datatype number = PosInt nat | NegInt int | Float f64

datatype json =
    JNull
  | JBool bool
  | JNumber number
  | JString string
  | JArray "json list"
  | JObject "(string \<times> json) list"

section \<open>Key-sorted maps\<close>

fun map_put :: "'k::linorder \<Rightarrow> 'v \<Rightarrow> ('k \<times> 'v) list \<Rightarrow> ('k \<times> 'v) list" where
  "map_put k v [] = [(k, v)]"
| "map_put k v ((k', v') # kvs) =
     (if k < k' then (k, v) # (k', v') # kvs
      else if k = k' then (k, v) # kvs
      else (k', v') # map_put k v kvs)"

definition map_wf :: "('k::linorder \<times> 'v) list \<Rightarrow> bool" where
  "map_wf kvs \<longleftrightarrow> sorted_wrt (<) (map fst kvs)"

text \<open>\<open>collect()\<close> into a \<open>BTreeMap\<close>: a later entry replaces an earlier one.\<close>

definition map_collect :: "('k::linorder \<times> 'v) list \<Rightarrow> ('k \<times> 'v) list" where
  "map_collect kvs = foldl (\<lambda>m (k, v). map_put k v m) [] kvs"

text \<open>What the clients of a map rely on.\<close>

locale dictionary =
  fixes empty :: 'm
    and put :: "'k \<Rightarrow> 'v \<Rightarrow> 'm \<Rightarrow> 'm"
    and lookup :: "'m \<Rightarrow> 'k \<Rightarrow> 'v option"
    and wf :: "'m \<Rightarrow> bool"
  assumes wf_empty: "wf empty"
    and wf_put: "wf m \<Longrightarrow> wf (put k v m)"
    and lookup_empty: "lookup empty k = None"
    and lookup_put: "wf m \<Longrightarrow> lookup (put k v m) k' = (if k' = k then Some v else lookup m k')"
begin

lemma wf_fold: "wf m \<Longrightarrow> wf (foldl (\<lambda>m (k, v). put k v m) m kvs)"
  by (induction kvs arbitrary: m) (auto simp: wf_put)

lemma lookup_fold:
  "wf m \<Longrightarrow> lookup (foldl (\<lambda>m (k, v). put k v m) m kvs) k =
     (case map_of (rev kvs) k of None \<Rightarrow> lookup m k | Some v \<Rightarrow> Some v)"
proof (induction kvs arbitrary: m)
  case Nil
  then show ?case by simp
next
  case (Cons kv kvs)
  then show ?case
    by (cases kv) (auto simp: wf_put lookup_put map_add_def split: option.splits)
qed

text \<open>The last entry of a key wins.\<close>

lemma lookup_collect:
  "lookup (foldl (\<lambda>m (k, v). put k v m) empty kvs) k = map_of (rev kvs) k"
  by (simp add: lookup_fold wf_empty lookup_empty split: option.split)

lemma lookup_put_other: "wf m \<Longrightarrow> k' \<noteq> k \<Longrightarrow> lookup (put k v m) k' = lookup m k'"
  by (simp add: lookup_put)

end

lemma fst_map_put: "fst ` set (map_put k v m) = insert k (fst ` set m)"
proof (induction m)
  case Nil
  then show ?case by simp
next
  case (Cons kv m)
  then show ?case by (cases kv) (simp add: insert_commute)
qed

lemma map_wf_put: "map_wf m \<Longrightarrow> map_wf (map_put k v m)"
proof (induction m)
  case Nil
  then show ?case by (simp add: map_wf_def)
next
  case (Cons kv m)
  obtain k' v' where kv: "kv = (k', v')" by (cases kv) auto
  from Cons have IH: "sorted_wrt (<) (map fst (map_put k v m))" by (simp add: map_wf_def)
  have keys: "set (map fst (map_put k v m)) = insert k (set (map fst m))"
    using fst_map_put [of k v m] by simp
  show ?case
    using Cons.prems IH keys by (auto simp: kv map_wf_def)
qed

lemma map_of_map_put: "map_wf m \<Longrightarrow> map_of (map_put k v m) k' = (if k' = k then Some v else map_of m k')"
proof (induction m)
  case Nil
  then show ?case by simp
next
  case (Cons kv m)
  obtain l w where kv: "kv = (l, w)" by (cases kv) auto
  from Cons have "map_of (map_put k v m) k' = (if k' = k then Some v else map_of m k')"
    by (simp add: map_wf_def)
  moreover have "k < l \<Longrightarrow> k \<notin> fst ` set m"
    using Cons.prems by (auto simp: kv map_wf_def)
  ultimately show ?case by (auto simp: kv)
qed

interpretation btree: dictionary "[]" map_put map_of map_wf
  by unfold_locales (auto simp: map_wf_put map_of_map_put map_wf_def [of "[]"])

section \<open>Building and reading values\<close>

text \<open>The \<open>json!\<close> macro on an object literal.\<close>

definition json_object :: "(string \<times> json) list \<Rightarrow> json" where
  "json_object kvs = JObject (map_collect kvs)"

definition json_int :: "int \<Rightarrow> json" where
  "json_int i = JNumber (if 0 \<le> i then PosInt (nat i) else NegInt i)"

fun json_opt :: "('a \<Rightarrow> json) \<Rightarrow> 'a option \<Rightarrow> json" where
  "json_opt f None = JNull"
| "json_opt f (Some x) = f x"

text \<open>\<open>Value::get\<close> with a string key, and indexing, which gives \<open>Null\<close> for what is absent.\<close>

fun json_get :: "json \<Rightarrow> string \<Rightarrow> json option" where
  "json_get (JObject kvs) k = map_of kvs k"
| "json_get _ k = None"

definition json_index :: "json \<Rightarrow> string \<Rightarrow> json" where
  "json_index v k = (case json_get v k of None \<Rightarrow> JNull | Some x \<Rightarrow> x)"

fun as_str :: "json \<Rightarrow> string option" where
  "as_str (JString s) = Some s"
| "as_str _ = None"

fun as_bool :: "json \<Rightarrow> bool option" where
  "as_bool (JBool b) = Some b"
| "as_bool _ = None"

fun as_i64 :: "json \<Rightarrow> int option" where
  "as_i64 (JNumber (PosInt n)) = (if int n \<le> i64_max then Some (int n) else None)"
| "as_i64 (JNumber (NegInt i)) = Some i"
| "as_i64 _ = None"

fun is_object :: "json \<Rightarrow> bool" where
  "is_object (JObject kvs) = True"
| "is_object _ = False"

text \<open>A field that \<open>Deserialize\<close> requires: once among the members, and readable.\<close>

fun required_field :: "(string \<times> json) list \<Rightarrow> string \<Rightarrow> (json \<Rightarrow> 'a option) \<Rightarrow> 'a option" where
  "required_field kvs k d =
     (case filter (\<lambda>kv. fst kv = k) kvs of
        [kv] \<Rightarrow> d (snd kv)
      | _ \<Rightarrow> None)"

lemma json_get_object [simp]: "json_get (json_object kvs) k = map_of (rev kvs) k"
  by (simp add: json_object_def map_collect_def btree.lookup_collect)

lemma json_index_object [simp]:
  "json_index (json_object kvs) k = (case map_of (rev kvs) k of None \<Rightarrow> JNull | Some v \<Rightarrow> v)"
  by (simp add: json_index_def)

lemma is_object_json_object [simp]: "is_object (json_object kvs)"
  by (simp add: json_object_def)

lemma as_i64_json_int [simp]: "in_i64 i \<Longrightarrow> as_i64 (json_int i) = Some i"
  by (auto simp: json_int_def i64_defs)

text \<open>Every value inside an object or array of a well-formed value is well formed.\<close>

fun json_wf :: "json \<Rightarrow> bool" where
  "json_wf (JNumber (PosInt n)) \<longleftrightarrow> n \<le> u64_max"
| "json_wf (JNumber (NegInt i)) \<longleftrightarrow> i < 0 \<and> i64_min \<le> i"
| "json_wf (JArray xs) \<longleftrightarrow> (\<forall>x \<in> set xs. json_wf x)"
| "json_wf (JObject kvs) \<longleftrightarrow> map_wf kvs \<and> (\<forall>kv \<in> set kvs. json_wf (snd kv))"
| "json_wf _ \<longleftrightarrow> True"

lemma map_wf_json_object: "json_object kvs = JObject m \<Longrightarrow> map_wf m"
  using btree.wf_fold [of "[]" kvs]
  by (auto simp: json_object_def map_collect_def btree.wf_empty)

end
