(* ===== verification/Job.thy ===== *)
theory Job
  imports Json
begin

text \<open>
  \<open>src/job.rs\<close>: the domain types shared by the store, the worker and the HTTP API.
  \<open>MessageId\<close> and \<open>ChatId\<close> are transparent wrappers of an \<open>i64\<close>; \<open>JobStatus\<close> is
  the \<open>status\<close> column with \<open>NULL\<close> read as \<open>New\<close>.
\<close>

datatype message_id = MessageId (message_raw: int)
datatype chat_id = ChatId (chat_raw: int)

instantiation message_id :: linorder
begin
definition less_eq_message_id :: "message_id \<Rightarrow> message_id \<Rightarrow> bool" where
  "less_eq_message_id a b \<longleftrightarrow> message_raw a \<le> message_raw b"
definition less_message_id :: "message_id \<Rightarrow> message_id \<Rightarrow> bool" where
  "less_message_id a b \<longleftrightarrow> message_raw a < message_raw b"
instance
  by standard (auto simp: less_eq_message_id_def less_message_id_def message_id.expand)
end

definition show_message_id :: "message_id \<Rightarrow> string" where
  "show_message_id i = show_int (message_raw i)"

definition show_chat_id :: "chat_id \<Rightarrow> string" where
  "show_chat_id i = show_int (chat_raw i)"

datatype job_status = New | Pending | Done | Failed

datatype unknown_status = UnknownStatus string

definition from_db :: "string option \<Rightarrow> unknown_status + job_status" where
  "from_db raw =
     (case raw of
        None \<Rightarrow> Inr New
      | Some other \<Rightarrow>
          if other = ''pending'' then Inr Pending
          else if other = ''done'' then Inr Done
          else if other = ''failed'' then Inr Failed
          else Inl (UnknownStatus other))"

fun to_db :: "job_status \<Rightarrow> string option" where
  "to_db New = None"
| "to_db Pending = Some ''pending''"
| "to_db Done = Some ''done''"
| "to_db Failed = Some ''failed''"

fun is_terminal :: "job_status \<Rightarrow> bool" where
  "is_terminal Done = True"
| "is_terminal Failed = True"
| "is_terminal _ = False"

definition show_job_status :: "job_status \<Rightarrow> string" where
  "show_job_status s = (case to_db s of None \<Rightarrow> ''new'' | Some t \<Rightarrow> t)"

record requester =
  user_id :: int
  company_id :: int
  is_admin :: bool

record job =
  job_id :: message_id
  job_chat :: chat_id
  job_content :: string
  job_state :: job_status
  job_reply_id :: "message_id option"
  job_error :: "string option"
  job_requester :: "requester option"

datatype job_outcome =
    Success (success_result: string)
  | FailedOutcome (failure_error: string) (failure_result: "string option")

fun outcome_status :: "job_outcome \<Rightarrow> job_status" where
  "outcome_status (Success r) = Done"
| "outcome_status (FailedOutcome e r) = Failed"

definition failed :: "string \<Rightarrow> job_outcome" where
  "failed e = FailedOutcome e None"

text \<open>
  \<open>#[derive(Serialize)]\<close> of \<open>Job\<close>: ids are transparent, the status is its lower-case
  name and \<open>requester\<close> is skipped.
\<close>

definition serialize_status :: "job_status \<Rightarrow> json" where
  "serialize_status s = JString (case s of New \<Rightarrow> ''new'' | Pending \<Rightarrow> ''pending''
                                   | Done \<Rightarrow> ''done'' | Failed \<Rightarrow> ''failed'')"

definition job_fields :: "job \<Rightarrow> (string \<times> json) list" where
  "job_fields j =
     [(''id'', json_int (message_raw (job_id j))),
      (''chat_id'', json_int (chat_raw (job_chat j))),
      (''content'', JString (job_content j)),
      (''status'', serialize_status (job_state j)),
      (''reply_id'', json_opt (\<lambda>i. json_int (message_raw i)) (job_reply_id j)),
      (''error'', json_opt JString (job_error j))]"

section \<open>The status column is a strict codec\<close>

lemma from_db_to_db: "from_db (to_db s) = Inr s"
  by (cases s) (auto simp: from_db_def)

lemma to_db_from_db: "from_db raw = Inr s \<Longrightarrow> raw = to_db s"
  by (auto simp: from_db_def split: option.splits if_splits)

interpretation status_column: strict_codec to_db from_db
  by unfold_locales (fact from_db_to_db to_db_from_db)+

lemma from_db_New_iff: "from_db raw = Inr New \<longleftrightarrow> raw = None"
  by (simp add: status_column.dec_iff)

lemma serialize_status_show: "serialize_status s = JString (show_job_status s)"
  by (cases s) (auto simp: serialize_status_def show_job_status_def)

lemma outcome_status_terminal: "is_terminal (outcome_status o')"
  by (cases o') auto

section \<open>The lifecycle of a job\<close>

text \<open>
  The specification of what may happen to a status: claimed, finished, or put back by
  the start-up requeue. Final states are never left.
\<close>

inductive lifecycle :: "job_status \<Rightarrow> job_status \<Rightarrow> bool" where
  claim: "lifecycle New Pending"
| succeed: "lifecycle Pending Done"
| fail: "lifecycle Pending Failed"
| requeue: "lifecycle Pending New"

inductive_cases lifecycle_from_new: "lifecycle New s"
inductive_cases lifecycle_to_pending: "lifecycle s Pending"
inductive_simps lifecycle_simps:
  "lifecycle New s" "lifecycle Pending s" "lifecycle Done s" "lifecycle Failed s"

lemma terminal_is_final: "is_terminal s \<Longrightarrow> \<not> lifecycle s t"
  by (cases s) (auto simp: lifecycle_simps)

lemma lifecycle_outcome: "lifecycle Pending (outcome_status o')"
  by (cases o') (auto intro: lifecycle.intros)

end
