(* ===== verification/Tables.thy ===== *)
theory Tables
  imports Job
begin

text \<open>
  The database of the runner: the two tables of \<open>schema/mysql.sql\<close> as lists of rows
  and the meaning of the SQL statements that \<open>src/store.rs\<close> sends. MySQL's answer to a
  statement may be lost: a schedule of \<open>fault\<close>s says, statement by statement, whether
  the driver reports the answer, an error before the statement ran, or an error after
  it took effect.
\<close>

section \<open>The tables\<close>

datatype sender = User | Ai

record chat_row =
  chat_pk :: int
  chat_user :: int
  chat_company :: int
  chat_title :: string

record message_row =
  msg_id :: int
  msg_chat :: int
  msg_sender :: sender
  msg_content :: string
  msg_agentic :: "int option"
  msg_payload :: "json option"
  msg_status :: "string option"

text \<open>\<open>sqlx::Error\<close>, with the text its \<open>Display\<close> prints.\<close>

datatype sqlx_error =
    SqlxIo string
  | SqlxProtocol string
  | SqlxTls string
  | SqlxDatabase string
  | SqlxOther string

datatype fault = Answered | Refused sqlx_error | AckLost sqlx_error

record database =
  chats :: "chat_row list"
  messages :: "message_row list"
  next_message_id :: nat
  faults :: "fault list"

text \<open>\<open>content TEXT\<close> and \<open>id INT AUTO_INCREMENT\<close>.\<close>

definition text_max :: nat where "text_max = 65535"
definition int_max :: nat where "int_max = 2147483647"

section \<open>Statements\<close>

text \<open>One statement under the fault schedule. No fault left means the answer arrives.\<close>

definition pop_fault :: "database \<Rightarrow> fault \<times> database" where
  "pop_fault db = (case faults db of [] \<Rightarrow> (Answered, db) | f # fs \<Rightarrow> (f, db\<lparr>faults := fs\<rparr>))"

definition execute ::
  "(database \<Rightarrow> (sqlx_error + 'a) \<times> database) \<Rightarrow> database \<Rightarrow> (sqlx_error + 'a) \<times> database" where
  "execute stmt db =
     (case pop_fault db of
        (Answered, db1) \<Rightarrow> stmt db1
      | (Refused e, db1) \<Rightarrow> (Inl e, db1)
      | (AckLost e, db1) \<Rightarrow> (Inl e, snd (stmt db1)))"

text \<open>
  \<open>INSERT INTO chat_messages\<close>: the foreign key and the length of \<open>content\<close> are checked
  (strict mode), the new id is the \<open>AUTO_INCREMENT\<close> counter, \<open>status\<close> is \<open>NULL\<close>.
\<close>

definition insert_message ::
  "int \<Rightarrow> sender \<Rightarrow> string \<Rightarrow> int option \<Rightarrow> json option \<Rightarrow>
   database \<Rightarrow> (sqlx_error + nat) \<times> database" where
  [sql_defs]: "insert_message chat s content agentic payload db =
     (if chat \<notin> set (map chat_pk (chats db))
      then (Inl (SqlxDatabase ''Cannot add or update a child row: a foreign key constraint fails''), db)
      else if text_max < length content
      then (Inl (SqlxDatabase ''Data too long for column content''), db)
      else if int_max < next_message_id db
      then (Inl (SqlxDatabase ''Failed to read auto-increment value from storage engine''), db)
      else (Inr (next_message_id db),
            db\<lparr>messages := messages db @
                 [\<lparr>msg_id = int (next_message_id db), msg_chat = chat, msg_sender = s,
                   msg_content = content, msg_agentic = agentic, msg_payload = payload,
                   msg_status = None\<rparr>],
               next_message_id := Suc (next_message_id db)\<rparr>))"

text \<open>\<open>UPDATE ... WHERE\<close>: the rows matched are counted (the driver asks for found rows).\<close>

definition update_messages ::
  "(message_row \<Rightarrow> bool) \<Rightarrow> (message_row \<Rightarrow> message_row) \<Rightarrow>
   database \<Rightarrow> (sqlx_error + nat) \<times> database" where
  [sql_defs]: "update_messages p f db =
     (Inr (length (filter p (messages db))),
      db\<lparr>messages := map (\<lambda>r. if p r then f r else r) (messages db)\<rparr>)"

text \<open>A lookup by primary key.\<close>

definition message_at :: "database \<Rightarrow> int \<Rightarrow> message_row option" where
  "message_at db i = find (\<lambda>r. msg_id r = i) (messages db)"

definition chat_at :: "database \<Rightarrow> int \<Rightarrow> chat_row option" where
  "chat_at db i = find (\<lambda>c. chat_pk c = i) (chats db)"

text \<open>
  \<open>JSON_SET(doc, '$.k', v)\<close> sets a member of an object and leaves any other document
  alone; \<open>COALESCE(payload, JSON_OBJECT())\<close> makes SQL \<open>NULL\<close> an empty object.
\<close>

fun json_set :: "string \<Rightarrow> json \<Rightarrow> json \<Rightarrow> json" where
  "json_set k v (JObject kvs) = JObject (map_put k v kvs)"
| "json_set k v doc = doc"

definition coalesce_object :: "json option \<Rightarrow> json" where
  "coalesce_object p = (case p of None \<Rightarrow> JObject [] | Some d \<Rightarrow> d)"

section \<open>Well-formed databases\<close>

text \<open>
  What the schema's keys guarantee: ids are positive, increasing in storage order, below
  the counter; chat ids are unique and every message's chat exists.
\<close>

definition db_wf :: "database \<Rightarrow> bool" where
  "db_wf db \<longleftrightarrow>
     sorted_wrt (<) (map msg_id (messages db)) \<and>
     (\<forall>r \<in> set (messages db). 0 < msg_id r \<and> msg_id r < int (next_message_id db)
        \<and> msg_chat r \<in> set (map chat_pk (chats db))) \<and>
     distinct (map chat_pk (chats db)) \<and> 0 < next_message_id db
     \<and> next_message_id db \<le> Suc int_max"

definition is_job_row :: "message_row \<Rightarrow> bool" where
  "is_job_row r \<longleftrightarrow> msg_sender r = User \<and> msg_agentic r = Some 1"

definition status_at :: "database \<Rightarrow> int \<Rightarrow> string option option" where
  "status_at db i = map_option msg_status (message_at db i)"

text \<open>What the statements change; the schedule of faults is bookkeeping.\<close>

definition same_tables :: "database \<Rightarrow> database \<Rightarrow> bool" where
  "same_tables a b \<longleftrightarrow> chats a = chats b \<and> messages a = messages b"

lemma same_tables_refl [simp]: "same_tables db db"
  by (simp add: same_tables_def)

lemma same_tables_trans: "same_tables a b \<Longrightarrow> same_tables b c \<Longrightarrow> same_tables a c"
  by (simp add: same_tables_def)

lemma same_tables_message_at: "same_tables a b \<Longrightarrow> message_at a = message_at b"
  by (simp add: same_tables_def message_at_def fun_eq_iff)

section \<open>Lemmas about lookups and updates\<close>

lemma pop_fault_frame [simp]:
  "pop_fault db = (f, db1) \<Longrightarrow> chats db1 = chats db"
  "pop_fault db = (f, db1) \<Longrightarrow> messages db1 = messages db"
  "pop_fault db = (f, db1) \<Longrightarrow> next_message_id db1 = next_message_id db"
  by (auto simp: pop_fault_def split: list.splits)

lemma pop_fault_no_faults [simp]: "faults db = [] \<Longrightarrow> pop_fault db = (Answered, db)"
  by (simp add: pop_fault_def)

lemma execute_no_faults [simp]: "faults db = [] \<Longrightarrow> execute stmt db = stmt db"
  by (simp add: execute_def)

text \<open>Whatever the schedule, a statement's effect is nothing or its own.\<close>

lemma execute_cases:
  assumes "execute stmt db = (r, db')"
  obtains (refused) e db1 f where "pop_fault db = (f, db1)" "r = Inl e" "db' = db1"
    | (lost) e db1 f where "pop_fault db = (f, db1)" "r = Inl e" "db' = snd (stmt db1)"
    | (answered) db1 where "pop_fault db = (Answered, db1)" "stmt db1 = (r, db')"
  using assms
  by (cases "pop_fault db"; cases "fst (pop_fault db)") (auto simp: execute_def)

lemma db_wf_cong:
  "chats a = chats b \<Longrightarrow> messages a = messages b \<Longrightarrow> next_message_id a = next_message_id b \<Longrightarrow>
   db_wf a = db_wf b"
  by (simp add: db_wf_def)

lemma db_wf_row:
  assumes "db_wf db" and "r \<in> set (messages db)"
  shows "0 < msg_id r" "msg_id r < int (next_message_id db)"
    "msg_chat r \<in> set (map chat_pk (chats db))"
  using assms unfolding db_wf_def by blast+

lemma message_at_Some: "message_at db i = Some r \<Longrightarrow> r \<in> set (messages db) \<and> msg_id r = i"
  by (auto simp: message_at_def find_Some_iff)

lemma sorted_ids_distinct:
  "sorted_wrt (<) (map msg_id rs) \<Longrightarrow> distinct (map msg_id rs)"
  by (simp add: strict_sorted_iff)

lemma find_by_id:
  "distinct (map msg_id rs) \<Longrightarrow> r \<in> set rs \<Longrightarrow> find (\<lambda>x. msg_id x = msg_id r) rs = Some r"
  by (induction rs) auto

lemma message_at_mem:
  "db_wf db \<Longrightarrow> r \<in> set (messages db) \<Longrightarrow> message_at db (msg_id r) = Some r"
  by (simp add: message_at_def db_wf_def find_by_id sorted_ids_distinct)

lemma message_at_None: "message_at db i = None \<longleftrightarrow> i \<notin> msg_id ` set (messages db)"
  by (auto simp: message_at_def find_None_iff)

lemma update_none:
  assumes "\<And>r. r \<in> set (messages db) \<Longrightarrow> \<not> p r"
  shows "update_messages p f db = (Inr 0, db)"
proof -
  have "map (\<lambda>r. if p r then f r else r) (messages db) = messages db"
    by (rule map_idI) (simp add: assms)
  moreover have "filter p (messages db) = []"
    by (simp add: assms filter_empty_conv)
  ultimately show ?thesis by (simp add: update_messages_def)
qed

lemma find_map_id:
  "(\<And>r. msg_id (g r) = msg_id r) \<Longrightarrow>
   find (\<lambda>r. msg_id r = i) (map g rs) = map_option g (find (\<lambda>r. msg_id r = i) rs)"
  by (induction rs) auto

lemma message_at_update:
  assumes "\<And>r. msg_id (f r) = msg_id r"
  shows "message_at (snd (update_messages p f db)) i =
     map_option (\<lambda>r. if p r then f r else r) (message_at db i)"
  using assms by (simp add: message_at_def update_messages_def find_map_id)

lemma find_append:
  "find P (xs @ ys) = (case find P xs of None \<Rightarrow> find P ys | Some x \<Rightarrow> Some x)"
  by (induction xs) auto

lemma count_by_id:
  "distinct (map msg_id rs) \<Longrightarrow>
   length (filter (\<lambda>r. msg_id r = i \<and> q r) rs) =
     (case find (\<lambda>r. msg_id r = i) rs of None \<Rightarrow> 0 | Some r \<Rightarrow> if q r then 1 else 0)"
proof (induction rs)
  case Nil
  then show ?case by simp
next
  case (Cons r rs)
  then have "msg_id r = i \<Longrightarrow> filter (\<lambda>r. msg_id r = i \<and> q r) rs = []"
    by (auto simp: filter_empty_conv image_iff)
  with Cons show ?case by auto
qed

lemma update_count_by_id:
  assumes "db_wf db"
  shows "fst (update_messages (\<lambda>r. msg_id r = i \<and> q r) f db) =
     Inr (case message_at db i of None \<Rightarrow> 0 | Some r \<Rightarrow> if q r then 1 else 0)"
  using assms
  by (simp add: update_messages_def message_at_def count_by_id db_wf_def sorted_ids_distinct)

lemma db_wf_update:
  assumes "db_wf db" and "\<And>r. msg_id (f r) = msg_id r" and "\<And>r. msg_chat (f r) = msg_chat r"
  shows "db_wf (snd (update_messages p f db))"
proof -
  have "msg_id \<circ> (\<lambda>r. if p r then f r else r) = msg_id"
    using assms(2) by (auto simp: fun_eq_iff)
  with assms show ?thesis
    by (auto simp: db_wf_def update_messages_def simp del: o_apply)
qed

lemma db_wf_insert:
  assumes "db_wf db"
  shows "db_wf (snd (insert_message chat s content a p db))"
proof -
  let ?n = "next_message_id db"
  have wf: "sorted_wrt (<) (map msg_id (messages db))" "\<forall>r \<in> set (messages db). msg_id r < int ?n"
    using assms by (auto simp: db_wf_def)
  then have "sorted_wrt (<) (map msg_id (messages db) @ [int ?n])"
    by (auto simp: sorted_wrt_append)
  moreover have "\<forall>r \<in> set (messages db). msg_id r < int (Suc ?n)"
    using wf by fastforce
  ultimately show ?thesis
    using assms by (simp add: db_wf_def insert_message_def)
qed

text \<open>A fresh row does not disturb the others.\<close>

lemma message_at_insert:
  assumes "db_wf db" and "insert_message chat s content a p db = (Inr n, db')"
  shows "n = next_message_id db"
    and "message_at db' i =
      (if i = int n then Some \<lparr>msg_id = i, msg_chat = chat, msg_sender = s, msg_content = content,
         msg_agentic = a, msg_payload = p, msg_status = None\<rparr> else message_at db i)"
proof -
  from assms(2) show n: "n = next_message_id db"
    by (auto simp: insert_message_def split: if_splits)
  have none: "find (\<lambda>r. msg_id r = int n) (messages db) = None"
  proof -
    have "msg_id r \<noteq> int n" if "r \<in> set (messages db)" for r
      using db_wf_row [OF assms(1) that] by (simp add: n)
    then show ?thesis by (simp add: find_None_iff)
  qed
  let ?x = "\<lparr>msg_id = int n, msg_chat = chat, msg_sender = s, msg_content = content,
         msg_agentic = a, msg_payload = p, msg_status = None\<rparr>"
  have "messages db' = messages db @ [?x]"
    using assms(2) n by (auto simp: insert_message_def split: if_splits)
  then have "message_at db' i = (case message_at db i of None \<Rightarrow> find (\<lambda>r. msg_id r = i) [?x] | Some r \<Rightarrow> Some r)"
    by (simp add: message_at_def find_append)
  then show "message_at db' i =
      (if i = int n then Some \<lparr>msg_id = i, msg_chat = chat, msg_sender = s, msg_content = content,
         msg_agentic = a, msg_payload = p, msg_status = None\<rparr> else message_at db i)"
    using none by (cases "i = int n") (auto simp: message_at_def split: option.split)
qed

lemma insert_message_error_frame:
  "insert_message chat s content a p db = (Inl e, db') \<Longrightarrow> db' = db"
  by (auto simp: insert_message_def split: if_splits)

lemma json_get_json_set:
  "json_wf doc \<Longrightarrow> is_object doc \<Longrightarrow>
   json_get (json_set k v doc) k' = (if k' = k then Some v else json_get doc k')"
  by (cases doc) (auto simp: map_of_map_put)

end
