(* ===== verification/Store.thy ===== *)
theory Store
  imports Tables
begin

text \<open>
  \<open>src/store.rs\<close>: \<open>JobStore\<close>, the persistence layer over \<open>chat_messages\<close>. Every
  operation takes the database and returns its result with the new database; errors
  are \<open>store_error\<close>. Statements outside a transaction are autocommitted; \<open>finish_done\<close>
  runs two statements in a transaction.
\<close>

datatype store_error =
    Database sqlx_error
  | InvalidStatus message_id unknown_status
  | NotPending message_id
  | InsertIdOutOfRange "64 word"

type_synonym 'a store_op = "database \<Rightarrow> (store_error + 'a) \<times> database"

definition claim_attempts :: nat where "claim_attempts = 5"

definition insert_id :: "64 word \<Rightarrow> store_error + message_id" where
  "insert_id raw =
     (if int (unat raw) \<le> i64_max then Inr (MessageId (int (unat raw)))
      else Inl (InsertIdOutOfRange raw))"

text \<open>An autocommitted statement of the pool.\<close>

definition on_pool :: "(database \<Rightarrow> (sqlx_error + 'a) \<times> database) \<Rightarrow> 'a store_op" where
  [store_defs]: "on_pool stmt db = (case execute stmt db of (r, db') \<Rightarrow> (map_err Database r, db'))"

section \<open>Rows and jobs\<close>

record job_row =
  row_id :: int
  row_chat_id :: int
  row_content :: string
  row_status :: "string option"
  row_payload :: "json option"
  row_user_id :: "int option"
  row_company_id :: "int option"

definition payload_get :: "json option \<Rightarrow> string \<Rightarrow> json option" where
  "payload_get p k = Option.bind p (\<lambda>d. json_get d k)"

definition payload_is_admin :: "json option \<Rightarrow> bool" where
  "payload_is_admin p =
     (case payload_get p ''requester_is_admin'' of
        None \<Rightarrow> False
      | Some v \<Rightarrow> as_bool v = Some True \<or> as_i64 v = Some 1)"

definition job_with_status :: "job_row \<Rightarrow> job_status \<Rightarrow> job" where
  "job_with_status row status =
     \<lparr>job_id = MessageId (row_id row),
      job_chat = ChatId (row_chat_id row),
      job_content = row_content row,
      job_state = status,
      job_reply_id = map_option MessageId
        (Option.bind (payload_get (row_payload row) ''reply_id'') as_i64),
      job_error = Option.bind (payload_get (row_payload row) ''error'') as_str,
      job_requester =
        (case (row_user_id row, row_company_id row) of
           (Some u, Some c) \<Rightarrow>
             Some \<lparr>user_id = u, company_id = c, is_admin = payload_is_admin (row_payload row)\<rparr>
         | _ \<Rightarrow> None)\<rparr>"

definition job_of_row :: "job_row \<Rightarrow> store_error + job" where
  "job_of_row row =
     (case map_err (InvalidStatus (MessageId (row_id row))) (from_db (row_status row)) of
        Inl e \<Rightarrow> Inl e
      | Inr status \<Rightarrow> Inr (job_with_status row status))"

section \<open>Inserting and reading\<close>

definition store_insert :: "chat_id \<Rightarrow> string \<Rightarrow> message_id store_op" where
  [store_defs]: "store_insert chat content db =
     (case on_pool (insert_message (chat_raw chat) User content (Some 1) None) db of
        (Inl e, db') \<Rightarrow> (Inl e, db')
      | (Inr last_id, db') \<Rightarrow> (insert_id (word_of_nat last_id), db'))"

text \<open>A message row left-joined with its chat.\<close>

definition joined_row :: "database \<Rightarrow> message_row \<Rightarrow> job_row" where
  "joined_row db m =
     \<lparr>row_id = msg_id m, row_chat_id = msg_chat m, row_content = msg_content m,
      row_status = msg_status m, row_payload = msg_payload m,
      row_user_id = map_option chat_user (chat_at db (msg_chat m)),
      row_company_id = map_option chat_company (chat_at db (msg_chat m))\<rparr>"

definition select_job :: "int \<Rightarrow> database \<Rightarrow> (sqlx_error + job_row option) \<times> database" where
  [sql_defs]: "select_job i db =
     (Inr (case message_at db i of
             None \<Rightarrow> None
           | Some m \<Rightarrow> if is_job_row m then Some (joined_row db m) else None), db)"

fun transpose_job :: "job_row option \<Rightarrow> store_error + job option" where
  "transpose_job None = Inr None"
| "transpose_job (Some row) = (case job_of_row row of Inl e \<Rightarrow> Inl e | Inr j \<Rightarrow> Inr (Some j))"

definition store_get :: "message_id \<Rightarrow> job option store_op" where
  [store_defs]: "store_get i db =
     (case on_pool (select_job (message_raw i)) db of
        (Inl e, db') \<Rightarrow> (Inl e, db')
      | (Inr row, db') \<Rightarrow> (transpose_job row, db'))"

definition select_reply :: "int \<Rightarrow> database \<Rightarrow> (sqlx_error + string option) \<times> database" where
  [sql_defs]: "select_reply i db =
     (Inr (case message_at db i of
             None \<Rightarrow> None
           | Some m \<Rightarrow> if msg_sender m = Ai then Some (msg_content m) else None), db)"

definition store_reply :: "message_id \<Rightarrow> string option store_op" where
  [store_defs]: "store_reply i = on_pool (select_reply (message_raw i))"

section \<open>Claiming\<close>

definition is_unclaimed :: "message_row \<Rightarrow> bool" where
  "is_unclaimed r \<longleftrightarrow> is_job_row r \<and> msg_status r = None"

text \<open>\<open>ORDER BY id LIMIT 1\<close>.\<close>

definition select_oldest :: "database \<Rightarrow> (sqlx_error + int option) \<times> database" where
  [sql_defs]: "select_oldest db =
     (Inr (case sort_key msg_id (filter is_unclaimed (messages db)) of
             [] \<Rightarrow> None
           | r # _ \<Rightarrow> Some (msg_id r)), db)"

definition oldest_unclaimed_id :: "message_id option store_op" where
  [store_defs]: "oldest_unclaimed_id db =
     (case on_pool select_oldest db of
        (Inl e, db') \<Rightarrow> (Inl e, db')
      | (Inr row, db') \<Rightarrow> (Inr (map_option MessageId row), db'))"

definition claim_row :: "int \<Rightarrow> database \<Rightarrow> (sqlx_error + nat) \<times> database" where
  [sql_defs]: "claim_row i =
     update_messages (\<lambda>r. msg_id r = i \<and> is_unclaimed r) (\<lambda>r. r\<lparr>msg_status := to_db Pending\<rparr>)"

definition try_claim :: "message_id \<Rightarrow> bool store_op" where
  [store_defs]: "try_claim i db =
     (case on_pool (claim_row (message_raw i)) db of
        (Inl e, db') \<Rightarrow> (Inl e, db')
      | (Inr affected, db') \<Rightarrow> (Inr (affected = 1), db'))"

text \<open>
  \<open>claim_next\<close>: other sessions may change the table between the \<open>SELECT\<close> and the
  \<open>UPDATE\<close> of an attempt; \<open>rivals n\<close> is what they do while \<open>n\<close> attempts are left.
\<close>

fun claim_loop :: "(nat \<Rightarrow> database \<Rightarrow> database) \<Rightarrow> nat \<Rightarrow> job option store_op" where
  "claim_loop rivals 0 db = (Inr None, db)"
| "claim_loop rivals (Suc n) db =
     (case oldest_unclaimed_id db of
        (Inl e, db1) \<Rightarrow> (Inl e, db1)
      | (Inr None, db1) \<Rightarrow> (Inr None, db1)
      | (Inr (Some i), db1) \<Rightarrow>
          (case try_claim i (rivals (Suc n) db1) of
             (Inl e, db2) \<Rightarrow> (Inl e, db2)
           | (Inr True, db2) \<Rightarrow> store_get i db2
           | (Inr False, db2) \<Rightarrow> claim_loop rivals n db2))"

definition claim_next :: "(nat \<Rightarrow> database \<Rightarrow> database) \<Rightarrow> job option store_op" where
  [store_defs]: "claim_next rivals = claim_loop rivals claim_attempts"

definition no_rivals :: "nat \<Rightarrow> database \<Rightarrow> database" where
  "no_rivals n db = db"

section \<open>Finishing\<close>

definition insert_reply :: "string \<Rightarrow> int \<Rightarrow> database \<Rightarrow> (sqlx_error + nat \<times> nat) \<times> database" where
  [sql_defs]: "insert_reply result i db =
     (case message_at db i of
        Some m \<Rightarrow>
          if msg_status m = to_db Pending
          then (case insert_message (msg_chat m) Ai result (Some 1)
                       (Some (json_object [(''in_reply_to'', json_int (msg_id m))])) db of
                  (Inl e, db') \<Rightarrow> (Inl e, db')
                | (Inr last_id, db') \<Rightarrow> (Inr (1, last_id), db'))
          else (Inr (0, 0), db)
      | None \<Rightarrow> (Inr (0, 0), db))"

definition mark_done :: "message_id \<Rightarrow> int \<Rightarrow> database \<Rightarrow> (sqlx_error + nat) \<times> database" where
  [sql_defs]: "mark_done reply i =
     update_messages (\<lambda>r. msg_id r = i)
       (\<lambda>r. r\<lparr>msg_status := to_db Done,
              msg_payload := Some (json_set ''reply_id'' (json_int (message_raw reply))
                                     (coalesce_object (msg_payload r)))\<rparr>)"

text \<open>
  A transaction that ends without a commit restores the tables; the \<open>AUTO_INCREMENT\<close>
  counter is not rolled back.
\<close>

definition rolled_back :: "database \<Rightarrow> database \<Rightarrow> database" where
  "rolled_back before after = after\<lparr>chats := chats before, messages := messages before\<rparr>"

text \<open>A statement that only the session executes (\<open>BEGIN\<close>, \<open>ROLLBACK\<close>, \<open>COMMIT\<close>).\<close>

definition session_stmt :: "database \<Rightarrow> (sqlx_error + unit) \<times> database" where
  "session_stmt = execute (\<lambda>db. (Inr (), db))"

text \<open>
  \<open>COMMIT\<close> itself: refused means the tables before the transaction, a lost answer means
  the committed ones.
\<close>

definition commit :: "database \<Rightarrow> unit store_op" where
  "commit before after =
     (case pop_fault after of
        (Answered, db) \<Rightarrow> (Inr (), db)
      | (Refused e, db) \<Rightarrow> (Inl (Database e), rolled_back before db)
      | (AckLost e, db) \<Rightarrow> (Inl (Database e), db))"

definition finish_done :: "message_id \<Rightarrow> string \<Rightarrow> unit store_op" where
  [store_defs]: "finish_done i result db =
     (case session_stmt db of
        (Inl e, db1) \<Rightarrow> (Inl (Database e), db1)
      | (Inr _, db1) \<Rightarrow>
          (case execute (insert_reply result (message_raw i)) db1 of
             (Inl e, db2) \<Rightarrow> (Inl (Database e), rolled_back db1 db2)
           | (Inr (affected, last_id), db2) \<Rightarrow>
               if affected \<noteq> 1
               then (case session_stmt db2 of
                       (Inl e, db3) \<Rightarrow> (Inl (Database e), rolled_back db1 db3)
                     | (Inr _, db3) \<Rightarrow> (Inl (NotPending i), rolled_back db1 db3))
               else (case insert_id (word_of_nat last_id) of
                       Inl e \<Rightarrow> (Inl e, rolled_back db1 db2)
                     | Inr reply \<Rightarrow>
                         (case execute (mark_done reply (message_raw i)) db2 of
                            (Inl e, db3) \<Rightarrow> (Inl (Database e), rolled_back db1 db3)
                          | (Inr _, db3) \<Rightarrow> commit db1 db3))))"

definition set_failure :: "string \<Rightarrow> string option \<Rightarrow> json \<Rightarrow> json" where
  "set_failure err result doc =
     (case result of
        None \<Rightarrow> json_set ''error'' (JString err) doc
      | Some r \<Rightarrow> json_set ''result'' (JString r) (json_set ''error'' (JString err) doc))"

definition mark_failed ::
  "string \<Rightarrow> string option \<Rightarrow> int \<Rightarrow> database \<Rightarrow> (sqlx_error + nat) \<times> database" where
  [sql_defs]: "mark_failed err result i =
     update_messages (\<lambda>r. msg_id r = i \<and> msg_status r = to_db Pending)
       (\<lambda>r. r\<lparr>msg_status := to_db Failed,
              msg_payload := Some (set_failure err result (coalesce_object (msg_payload r)))\<rparr>)"

definition finish_failed :: "message_id \<Rightarrow> string \<Rightarrow> string option \<Rightarrow> unit store_op" where
  [store_defs]: "finish_failed i err result db =
     (case on_pool (mark_failed err result (message_raw i)) db of
        (Inl e, db') \<Rightarrow> (Inl e, db')
      | (Inr affected, db') \<Rightarrow> (if affected = 1 then Inr () else Inl (NotPending i), db'))"

fun finish :: "message_id \<Rightarrow> job_outcome \<Rightarrow> unit store_op" where
  "finish i (Success result) db = finish_done i result db"
| "finish i (FailedOutcome err result) db = finish_failed i err result db"

section \<open>Start-up\<close>

definition requeue_rows :: "database \<Rightarrow> (sqlx_error + nat) \<times> database" where
  [sql_defs]: "requeue_rows =
     update_messages (\<lambda>r. msg_status r = to_db Pending) (\<lambda>r. r\<lparr>msg_status := None\<rparr>)"

definition requeue_pending :: "nat store_op" where
  [store_defs]: "requeue_pending = on_pool requeue_rows"

end
