(* ===== verification/StoreLaws.thy ===== *)
theory StoreLaws
  imports Store
begin

text \<open>
  Laws of the job store: every operation keeps the database well formed and moves each
  row along the lifecycle at most once, whatever the driver reports; the effect of each
  operation when the answers arrive; atomicity of \<open>finish\<close>.
\<close>

section \<open>How rows may change\<close>

text \<open>
  A row stays as it is, or takes one step of the lifecycle and keeps its identity, chat,
  sender, text and agentic flag.
\<close>

definition row_step :: "message_row \<Rightarrow> message_row \<Rightarrow> bool" where
  "row_step r r' \<longleftrightarrow>
     r' = r \<or>
     (msg_id r' = msg_id r \<and> msg_chat r' = msg_chat r \<and> msg_sender r' = msg_sender r
      \<and> msg_content r' = msg_content r \<and> msg_agentic r' = msg_agentic r
      \<and> (\<exists>s t. lifecycle s t \<and> msg_status r = to_db s \<and> msg_status r' = to_db t))"

definition evolves :: "database \<Rightarrow> database \<Rightarrow> bool" where
  "evolves db db' \<longleftrightarrow>
     chats db' = chats db \<and>
     (\<forall>i r. message_at db i = Some r \<longrightarrow> (\<exists>r'. message_at db' i = Some r' \<and> row_step r r'))"

definition keeps :: "database \<Rightarrow> database \<Rightarrow> bool" where
  "keeps db db' \<longleftrightarrow> (db_wf db \<longrightarrow> db_wf db') \<and> (db_wf db \<longrightarrow> evolves db db')"

lemma row_step_refl [simp]: "row_step r r"
  by (simp add: row_step_def)

lemma evolves_same_tables: "same_tables db db' \<Longrightarrow> evolves db db'"
  by (auto simp: evolves_def same_tables_message_at) (simp add: same_tables_def)

lemma keepsI: "(db_wf db \<Longrightarrow> db_wf db' \<and> evolves db db') \<Longrightarrow> keeps db db'"
  by (simp add: keeps_def)

lemma keeps_same:
  "chats db' = chats db \<Longrightarrow> messages db' = messages db \<Longrightarrow>
   next_message_id db' = next_message_id db \<Longrightarrow> keeps db db'"
  using db_wf_cong [of db db'] by (simp add: keeps_def evolves_same_tables same_tables_def)

lemma keeps_snd: "keeps db (snd x) \<Longrightarrow> x = (r, db') \<Longrightarrow> db_wf db \<Longrightarrow> db_wf db'"
  by (simp add: keeps_def)

lemma keeps_refl [simp]: "keeps db db"
  by (simp add: keeps_same)

lemma keeps_cong_left:
  "keeps db1 db' \<Longrightarrow> chats db1 = chats db \<Longrightarrow> messages db1 = messages db \<Longrightarrow>
   next_message_id db1 = next_message_id db \<Longrightarrow> keeps db db'"
  using db_wf_cong [of db db1] by (simp add: keeps_def evolves_def message_at_def)

lemma keeps_update:
  assumes id: "\<And>r. msg_id (f r) = msg_id r" and step: "\<And>r. p r \<Longrightarrow> row_step r (f r)"
    and chat: "\<And>r. msg_chat (f r) = msg_chat r"
  shows "keeps db (snd (update_messages p f db))"
proof (rule keepsI, rule conjI)
  assume "db_wf db"
  then show "db_wf (snd (update_messages p f db))" using id chat by (rule db_wf_update)
next
  have "chats (snd (update_messages p f db)) = chats db" by (simp add: update_messages_def)
  then show "evolves db (snd (update_messages p f db))"
    using step by (auto simp: evolves_def message_at_update [OF id])
qed

lemma keeps_insert: "keeps db (snd (insert_message chat s content a p db))"
proof (rule keepsI, rule conjI)
  assume wf: "db_wf db"
  then show "db_wf (snd (insert_message chat s content a p db))" by (rule db_wf_insert)
  obtain r db' where ins: "insert_message chat s content a p db = (r, db')" by (cases "insert_message chat s content a p db")
  show "evolves db (snd (insert_message chat s content a p db))"
  proof (cases r)
    case (Inl e)
    with ins have "db' = db" using insert_message_error_frame by blast
    with ins show ?thesis by (simp add: evolves_same_tables)
  next
    case (Inr n)
    with ins have ins': "insert_message chat s content a p db = (Inr n, db')" by simp
    have "message_at db (int n) = None"
      using db_wf_row(2) [OF wf] message_at_insert(1) [OF wf ins']
      by (force simp: message_at_None)
    moreover have "chats db' = chats db"
      using ins' by (auto simp: insert_message_def split: if_splits)
    ultimately show ?thesis
      using ins' message_at_insert(2) [OF wf ins'] by (auto simp: evolves_def)
  qed
qed

text \<open>A statement under the fault schedule keeps what the statement itself keeps.\<close>

lemma keeps_execute:
  assumes "\<And>db. keeps db (snd (stmt db))"
  shows "keeps db (snd (execute stmt db))"
proof -
  obtain r db' where ex: "execute stmt db = (r, db')" by (cases "execute stmt db")
  then show ?thesis
  proof (cases rule: execute_cases)
    case (refused e db1 f)
    then have "keeps db db1" by (intro keeps_same) auto
    with ex refused show ?thesis by simp
  next
    case (lost e db1 f)
    have "keeps db (snd (stmt db1))"
      by (rule keeps_cong_left [OF assms]) (simp_all add: lost(1))
    with ex lost show ?thesis by simp
  next
    case (answered db1)
    have "keeps db (snd (stmt db1))"
      by (rule keeps_cong_left [OF assms]) (simp_all add: answered(1))
    with ex answered show ?thesis by simp
  qed
qed

lemma snd_on_pool [simp]: "snd (on_pool stmt db) = snd (execute stmt db)"
  by (simp add: on_pool_def split: prod.split)

section \<open>Each operation keeps the invariant and follows the lifecycle\<close>

lemma keeps_select [simp]:
  "keeps db (snd (select_job i db))"
  "keeps db (snd (select_reply i db))"
  "keeps db (snd (select_oldest db))"
  by (simp_all add: sql_defs)

lemma keeps_claim_row: "keeps db (snd (claim_row i db))"
proof -
  have "is_unclaimed r \<Longrightarrow> row_step r (r\<lparr>msg_status := to_db Pending\<rparr>)" for r
    using lifecycle.claim by (fastforce simp: row_step_def is_unclaimed_def)
  then show ?thesis unfolding claim_row_def by (intro keeps_update) auto
qed

lemma keeps_mark_failed: "keeps db (snd (mark_failed err result i db))"
proof -
  have "msg_status r = to_db Pending \<Longrightarrow> row_step r (r\<lparr>msg_status := to_db Failed, msg_payload := p\<rparr>)" for r p
    using lifecycle.fail by (fastforce simp: row_step_def)
  then show ?thesis unfolding mark_failed_def by (intro keeps_update) auto
qed

lemma keeps_requeue_rows: "keeps db (snd (requeue_rows db))"
proof -
  have "msg_status r = to_db Pending \<Longrightarrow> row_step r (r\<lparr>msg_status := None\<rparr>)" for r
    using lifecycle.requeue by (fastforce simp: row_step_def)
  then show ?thesis unfolding requeue_rows_def by (intro keeps_update) auto
qed

lemma keeps_store_insert: "keeps db (snd (store_insert chat content db))"
proof -
  have "snd (store_insert chat content db)
      = snd (execute (insert_message (chat_raw chat) User content (Some 1) None) db)"
    by (simp add: store_insert_def on_pool_def split: prod.split sum.split)
  then show ?thesis by (simp add: keeps_execute keeps_insert)
qed

lemma snd_store_get: "snd (store_get i db) = snd (execute (select_job (message_raw i)) db)"
  by (simp add: store_get_def on_pool_def split: prod.split sum.split)

lemma keeps_store_get: "keeps db (snd (store_get i db))"
  by (simp add: snd_store_get keeps_execute)

lemma keeps_store_reply: "keeps db (snd (store_reply i db))"
  by (simp add: store_reply_def keeps_execute)

lemma snd_finish_failed:
  "snd (finish_failed i err result db) = snd (execute (mark_failed err result (message_raw i)) db)"
  by (simp add: finish_failed_def on_pool_def split: prod.split sum.split)

lemma snd_try_claim: "snd (try_claim i db) = snd (execute (claim_row (message_raw i)) db)"
  by (simp add: try_claim_def on_pool_def split: prod.split sum.split)

lemma snd_oldest: "snd (oldest_unclaimed_id db) = snd (execute select_oldest db)"
  by (simp add: oldest_unclaimed_id_def on_pool_def split: prod.split sum.split)

lemma keeps_oldest: "keeps db (snd (oldest_unclaimed_id db))"
  by (simp add: snd_oldest keeps_execute)

lemma keeps_finish_failed: "keeps db (snd (finish_failed i err result db))"
  by (simp add: snd_finish_failed keeps_execute keeps_mark_failed)

lemma keeps_try_claim: "keeps db (snd (try_claim i db))"
  by (simp add: snd_try_claim keeps_execute keeps_claim_row)

lemma keeps_requeue_pending: "keeps db (snd (requeue_pending db))"
  by (simp add: requeue_pending_def keeps_execute keeps_requeue_rows)

section \<open>The transaction of \<open>finish_done\<close>\<close>

text \<open>
  What the committed transaction leaves: the pending row \<open>i\<close> is \<open>done\<close> and points at the
  fresh row \<open>n\<close>, which holds the answer in the same chat; every other row is as before.
\<close>

definition reply_row :: "message_row \<Rightarrow> string \<Rightarrow> int \<Rightarrow> message_row" where
  "reply_row m result n =
     \<lparr>msg_id = n, msg_chat = msg_chat m, msg_sender = Ai, msg_content = result,
      msg_agentic = Some 1,
      msg_payload = Some (json_object [(''in_reply_to'', json_int (msg_id m))]),
      msg_status = None\<rparr>"

definition done_row :: "message_row \<Rightarrow> int \<Rightarrow> message_row" where
  "done_row m n =
     m\<lparr>msg_status := to_db Done,
       msg_payload := Some (json_set ''reply_id'' (json_int n) (coalesce_object (msg_payload m)))\<rparr>"

definition reply_recorded :: "database \<Rightarrow> int \<Rightarrow> string \<Rightarrow> int \<Rightarrow> database \<Rightarrow> bool" where
  "reply_recorded db i result n db' \<longleftrightarrow>
     chats db' = chats db \<and>
     (\<exists>m. message_at db i = Some m \<and> msg_status m = to_db Pending \<and> message_at db n = None
        \<and> (\<forall>j. message_at db' j =
              (if j = i then Some (done_row m n)
               else if j = n then Some (reply_row m result n)
               else message_at db j)))"

lemma insert_id_small:
  assumes "n \<le> int_max"
  shows "insert_id (word_of_nat n) = Inr (MessageId (int n))"
proof -
  have "unat (word_of_nat n :: 64 word) = n"
    using assms by (simp add: int_max_def unat_of_nat)
  with assms show ?thesis by (simp add: insert_id_def i64_max_def int_max_def)
qed

lemma insert_message_bound:
  "insert_message chat s content a p db = (Inr n, db') \<Longrightarrow> n \<le> int_max"
  by (auto simp: insert_message_def split: if_splits)

lemma insert_message_frame:
  "insert_message chat s content a p db = (Inr n, db') \<Longrightarrow>
   chats db' = chats db \<and> faults db' = faults db"
  by (auto simp: insert_message_def split: if_splits)

lemma insert_reply_affected:
  assumes "insert_reply result i db = (Inr (k, n), db')" and "k = 1"
  obtains m where "message_at db i = Some m" "msg_status m = to_db Pending"
    "insert_message (msg_chat m) Ai result (Some 1)
       (Some (json_object [(''in_reply_to'', json_int (msg_id m))])) db = (Inr n, db')"
  using assms
  by (auto simp: insert_reply_def split: option.splits if_splits prod.splits sum.splits)

lemma insert_reply_bound: "insert_reply result i db = (Inr (1, n), db') \<Longrightarrow> n \<le> int_max"
  by (auto simp: insert_reply_def intro: insert_message_bound
      split: option.splits if_splits prod.splits sum.splits)

lemma insert_reply_none:
  "insert_reply result i db = (Inr (k, n), db') \<Longrightarrow> k \<noteq> 1 \<Longrightarrow>
   db' = db \<and> (\<forall>m. message_at db i = Some m \<longrightarrow> msg_status m \<noteq> to_db Pending)"
  by (auto simp: insert_reply_def split: option.splits if_splits prod.splits sum.splits)

lemma keeps_insert_reply: "keeps db (snd (insert_reply result i db))"
proof (cases "message_at db i")
  case None
  then show ?thesis by (simp add: insert_reply_def)
next
  case (Some m)
  have "snd (insert_reply result i db) = db \<or> snd (insert_reply result i db) =
      snd (insert_message (msg_chat m) Ai result (Some 1)
        (Some (json_object [(''in_reply_to'', json_int (msg_id m))])) db)"
    using Some by (auto simp: insert_reply_def split: prod.splits sum.splits)
  then show ?thesis using keeps_insert by (metis keeps_refl)
qed

lemma message_at_cong: "messages a = messages b \<Longrightarrow> message_at a i = message_at b i"
  by (simp add: message_at_def)

text \<open>The two statements of the transaction, answered, lead to that state.\<close>

lemma transaction_effect:
  assumes wf: "db_wf db"
    and ins: "insert_reply result i db = (Inr (1, n), db2)"
    and cont: "chats db2' = chats db2" "messages db2' = messages db2"
      "next_message_id db2' = next_message_id db2"
    and upd: "mark_done (MessageId (int n)) i db2' = (x, db3)"
  shows "reply_recorded db i result (int n) db3 \<and> db_wf db3"
proof -
  from ins obtain m where m: "message_at db i = Some m" "msg_status m = to_db Pending"
    and im: "insert_message (msg_chat m) Ai result (Some 1)
       (Some (json_object [(''in_reply_to'', json_int (msg_id m))])) db = (Inr n, db2)"
    by (rule insert_reply_affected) simp
  note fresh = message_at_insert [OF wf im]
  have absent: "message_at db (int n) = None"
    using db_wf_row(2) [OF wf] fresh(1) by (force simp: message_at_None)
  have mid: "msg_id m = i" using m(1) message_at_Some by blast
  have db3: "db3 = snd (mark_done (MessageId (int n)) i db2')" using upd by simp
  have look: "message_at db3 j = map_option
      (\<lambda>r. if msg_id r = i then done_row r (int n) else r) (message_at db2' j)" for j
    unfolding db3 mark_done_def by (simp add: message_at_update done_row_def cong: if_cong)
  have prior: "message_at db2' j = message_at db2 j" for j
    using cont(2) by (rule message_at_cong)
  have "message_at db3 j = (if j = i then Some (done_row m (int n))
      else if j = int n then Some (reply_row m result (int n)) else message_at db j)" for j
  proof -
    have "i \<noteq> int n" using m(1) absent by auto
    moreover have "message_at db j = Some r \<Longrightarrow> msg_id r = j" for r
      using message_at_Some by blast
    ultimately show ?thesis
      using m(1) mid fresh(2) [of j] by (cases "message_at db j") (auto simp: look prior reply_row_def)
  qed
  moreover have "chats db3 = chats db"
    using upd cont insert_message_frame [OF im] by (auto simp: mark_done_def update_messages_def)
  moreover have "db_wf db2'"
    using db_wf_insert [OF wf, of "msg_chat m" Ai result "Some 1"
        "Some (json_object [(''in_reply_to'', json_int (msg_id m))])"]
      im cont db_wf_cong [of db2' db2] by simp
  then have "db_wf db3"
    unfolding db3 mark_done_def by (rule db_wf_update) auto
  ultimately show ?thesis using m absent by (auto simp: reply_recorded_def)
qed

section \<open>Atomicity of \<open>finish\<close>\<close>

lemma session_stmt_frame:
  assumes "session_stmt db = (r, db')"
  shows "chats db' = chats db" "messages db' = messages db" "next_message_id db' = next_message_id db"
  using assms by (auto simp: session_stmt_def elim!: execute_cases)

lemma rolled_back_frame [simp]:
  "chats (rolled_back a b) = chats a" "messages (rolled_back a b) = messages a"
  "next_message_id (rolled_back a b) = next_message_id b"
  by (simp_all add: rolled_back_def)

lemma db_wf_rolled_back:
  assumes "db_wf a" and "next_message_id a \<le> next_message_id b" and "next_message_id b \<le> Suc int_max"
  shows "db_wf (rolled_back a b)"
  using assms unfolding db_wf_def by fastforce

text \<open>The counter only grows, and within its column.\<close>

definition counter_grows :: "database \<Rightarrow> database \<Rightarrow> bool" where
  "counter_grows a b \<longleftrightarrow>
     next_message_id a \<le> next_message_id b \<and>
     (next_message_id a \<le> Suc int_max \<longrightarrow> next_message_id b \<le> Suc int_max)"

lemma counter_grows_refl [simp]: "counter_grows a a"
  by (simp add: counter_grows_def)

lemma counter_grows_insert_reply: "counter_grows db (snd (insert_reply result i db))"
  by (auto simp: counter_grows_def insert_reply_def insert_message_def
      split: option.split)

lemma counter_grows_execute:
  assumes "execute (insert_reply result i) db = (r, db')"
  shows "counter_grows db db'"
  using assms
proof (cases rule: execute_cases)
  case (refused e db1 f)
  then show ?thesis by (simp add: counter_grows_def)
next
  case (lost e db1 f)
  then show ?thesis using counter_grows_insert_reply [of db1 result i] by (simp add: counter_grows_def)
next
  case (answered db1)
  then show ?thesis using counter_grows_insert_reply [of db1 result i] by (simp add: counter_grows_def)
qed

text \<open>The statements of the transaction, executed under the schedule.\<close>

lemma transaction_executed:
  assumes wf: "db_wf db1" and ins: "execute (insert_reply result i) db1 = (Inr (1, n), db2)"
  shows "insert_id (word_of_nat n) = Inr (MessageId (int n))"
    and "execute (mark_done (MessageId (int n)) i) db2 = (Inr v, db3) \<Longrightarrow>
      reply_recorded db1 i result (int n) db3 \<and> db_wf db3"
proof -
  from ins obtain db1' where ans: "pop_fault db1 = (Answered, db1')"
    and ins': "insert_reply result i db1' = (Inr (1, n), db2)"
    by (auto elim!: execute_cases)
  from ins' show "insert_id (word_of_nat n) = Inr (MessageId (int n))"
    by (intro insert_id_small insert_reply_bound)
  have wf1': "db_wf db1'" using wf ans db_wf_cong [of db1' db1] by simp
  assume "execute (mark_done (MessageId (int n)) i) db2 = (Inr v, db3)"
  then obtain db2' where "pop_fault db2 = (Answered, db2')"
    and upd': "mark_done (MessageId (int n)) i db2' = (Inr v, db3)"
    by (auto elim!: execute_cases)
  then have "reply_recorded db1' i result (int n) db3 \<and> db_wf db3"
    using transaction_effect [OF wf1' ins' _ _ _ upd'] by simp
  then show "reply_recorded db1 i result (int n) db3 \<and> db_wf db3"
    using ans by (auto simp: reply_recorded_def message_at_def)
qed

lemma counter_mark_done:
  "execute (mark_done reply i) db = (r, db') \<Longrightarrow> next_message_id db' = next_message_id db"
  by (auto simp: mark_done_def update_messages_def elim!: execute_cases)

lemma undo_transaction:
  assumes "db_wf db1" and "counter_grows db1 c"
  shows "db_wf (rolled_back db1 c) \<and> same_tables db1 (rolled_back db1 c)"
  using assms db_wf_rolled_back [of db1 c]
  by (auto simp: counter_grows_def same_tables_def db_wf_def)

text \<open>
  Whatever the schedule of faults: the tables are as before and the result is an error,
  or the whole answer is recorded (and the result is \<open>Ok\<close>, or an error if only the answer
  to the commit was lost).
\<close>

definition atomic_outcome ::
  "database \<Rightarrow> int \<Rightarrow> string \<Rightarrow> store_error + unit \<Rightarrow> database \<Rightarrow> bool" where
  "atomic_outcome db i result r db' \<longleftrightarrow>
     db_wf db' \<and>
     (same_tables db db' \<and> r \<noteq> Inr () \<or> (\<exists>n. reply_recorded db i result n db'))"

lemma atomic_unchanged:
  "db_wf db' \<Longrightarrow> same_tables db db' \<Longrightarrow> r \<noteq> Inr () \<Longrightarrow> atomic_outcome db i result r db'"
  by (simp add: atomic_outcome_def)

lemma atomic_commit:
  assumes wf1: "db_wf db1" and grow: "counter_grows db1 db3"
    and rec: "reply_recorded db1 i result n db3" "db_wf db3" and fin: "commit db1 db3 = (r, db')"
  shows "atomic_outcome db1 i result r db'"
proof -
  obtain g c where pop: "pop_fault db3 = (g, c)" by (cases "pop_fault db3")
  have c: "db_wf c" "reply_recorded db1 i result n c" "counter_grows db1 c"
    using rec grow pop db_wf_cong [of c db3]
    by (simp_all add: reply_recorded_def message_at_def counter_grows_def)
  show ?thesis
  proof (cases g)
    case (Refused e)
    with fin pop undo_transaction [OF wf1 c(3)] show ?thesis
      by (auto simp: commit_def intro: atomic_unchanged)
  qed (use fin pop c in \<open>auto simp: commit_def atomic_outcome_def\<close>)
qed

lemma finish_done_atomic:
  assumes wf: "db_wf db" and run: "finish_done i result db = (r, db')"
  shows "atomic_outcome db (message_raw i) result r db'"
proof -
  obtain r1 db1 where started: "session_stmt db = (r1, db1)" by (cases "session_stmt db")
  note f1 = session_stmt_frame [OF started]
  have wf1: "db_wf db1" using wf f1 db_wf_cong by metis
  have same1: "atomic_outcome db1 (message_raw i) result r db' \<Longrightarrow> ?thesis"
    using f1 by (auto simp: atomic_outcome_def same_tables_def reply_recorded_def message_at_def)
  obtain r2 db2 where ins: "execute (insert_reply result (message_raw i)) db1 = (r2, db2)"
    by (cases "execute (insert_reply result (message_raw i)) db1")
  have grow: "counter_grows db1 c" if "next_message_id c = next_message_id db2" for c
    using counter_grows_execute [OF ins] that by (simp add: counter_grows_def)
  note undo = undo_transaction [OF wf1 grow]
  consider (no_begin) e where "r1 = Inl e"
    | (no_insert) e where "r1 = Inr ()" "r2 = Inl e"
    | (none) k n where "r1 = Inr ()" "r2 = Inr (k, n)" "k \<noteq> 1"
    | (one) n where "r1 = Inr ()" "r2 = Inr (1, n)"
    by (cases r1; cases r2) auto
  then have "atomic_outcome db1 (message_raw i) result r db'"
  proof cases
    case no_begin
    with run started wf1 show ?thesis by (auto simp: finish_done_def intro: atomic_unchanged)
  next
    case no_insert
    with run started ins undo [of db2] show ?thesis
      by (auto simp: finish_done_def intro: atomic_unchanged)
  next
    case none
    obtain r3 db3 where rb: "session_stmt db2 = (r3, db3)" by (cases "session_stmt db2")
    with run started ins none undo [of db3] session_stmt_frame [OF rb] show ?thesis
      by (auto simp: finish_done_def split: sum.splits intro: atomic_unchanged)
  next
    case one
    note tx = transaction_executed [OF wf1 ins [unfolded one(2)]]
    obtain r3 db3 where upd: "execute (mark_done (MessageId (int n)) (message_raw i)) db2 = (r3, db3)"
      by (cases "execute (mark_done (MessageId (int n)) (message_raw i)) db2")
    note cnt = counter_mark_done [OF upd]
    show ?thesis
    proof (cases r3)
      case (Inl e)
      with run started ins one tx(1) upd undo [OF cnt] show ?thesis
        by (auto simp: finish_done_def intro: atomic_unchanged)
    next
      case (Inr v)
      with run started ins one tx(1) upd have "commit db1 db3 = (r, db')"
        by (simp add: finish_done_def)
      with wf1 grow [OF cnt] tx(2) upd Inr show ?thesis by (blast intro: atomic_commit)
    qed
  qed
  then show ?thesis by (rule same1)
qed

lemma keeps_finish: "keeps db (snd (finish i o' db))"
proof (cases o')
  case (Success result)
  obtain r db' where run: "finish_done i result db = (r, db')" by (cases "finish_done i result db")
  have "evolves db db'" if wf: "db_wf db"
  proof -
    have "row_step m (done_row m n)" if "msg_status m = to_db Pending" for m n
      using that lifecycle.succeed by (fastforce simp: row_step_def done_row_def)
    then have "reply_recorded db (message_raw i) result n db' \<Longrightarrow> evolves db db'" for n
      by (auto simp: reply_recorded_def evolves_def)
    then show ?thesis
      using finish_done_atomic [OF wf run] evolves_same_tables unfolding atomic_outcome_def by blast
  qed
  with run Success finish_done_atomic [OF _ run] show ?thesis
    by (auto simp: keeps_def atomic_outcome_def)
next
  case (FailedOutcome err result)
  then show ?thesis by (simp add: keeps_finish_failed)
qed

section \<open>Effects when every answer arrives\<close>

lemma on_pool_answered: "faults db = [] \<Longrightarrow> on_pool stmt db = (map_err Database (fst (stmt db)), snd (stmt db))"
  by (simp add: on_pool_def split: prod.split)

lemma session_stmt_answered [simp]: "faults db = [] \<Longrightarrow> session_stmt db = (Inr (), db)"
  by (simp add: session_stmt_def)

text \<open>The job that \<open>get\<close> makes of a row, for a status the crate knows.\<close>

lemma job_of_joined_row:
  "msg_status m = to_db s \<Longrightarrow> job_of_row (joined_row db m) = Inr (job_with_status (joined_row db m) s)"
  by (simp add: job_of_row_def joined_row_def from_db_to_db)

lemma store_get_answered:
  assumes "faults db = []" and "message_at db i = Some m" and "is_job_row m" and "msg_status m = to_db s"
  shows "store_get (MessageId i) db = (Inr (Some (job_with_status (joined_row db m) s)), db)"
  using assms by (simp add: store_get_def on_pool_answered select_job_def job_of_joined_row)

lemma store_get_absent:
  assumes "faults db = []" and "\<forall>m. message_at db i = Some m \<longrightarrow> \<not> is_job_row m"
  shows "store_get (MessageId i) db = (Inr None, db)"
  using assms by (simp add: store_get_def on_pool_answered select_job_def split: option.split)

lemma store_reply_answered:
  assumes "faults db = []" and "message_at db n = Some m"
  shows "store_reply (MessageId n) db = (Inr (if msg_sender m = Ai then Some (msg_content m) else None), db)"
  using assms by (simp add: store_reply_def on_pool_answered select_reply_def)

subsection \<open>Claiming\<close>

lemma sort_key_head:
  assumes "sort_key f xs = y # ys"
  shows "y \<in> set xs" "\<And>x. x \<in> set xs \<Longrightarrow> f y \<le> f x"
proof -
  have "set (y # ys) = set xs" using assms set_sort [of f xs] by simp
  then show "y \<in> set xs" by auto
  fix x
  assume "x \<in> set xs"
  then have "x = y \<or> x \<in> set ys" using \<open>set (y # ys) = set xs\<close> by auto
  moreover have "sorted (map f (y # ys))" using assms sorted_sort_key [of f xs] by simp
  ultimately show "f y \<le> f x" by auto
qed

definition oldest_unclaimed :: "database \<Rightarrow> message_row \<Rightarrow> bool" where
  "oldest_unclaimed db m \<longleftrightarrow>
     m \<in> set (messages db) \<and> is_unclaimed m \<and>
     (\<forall>r \<in> set (messages db). is_unclaimed r \<longrightarrow> msg_id m \<le> msg_id r)"

lemma select_oldest_cases:
  obtains (none) "select_oldest db = (Inr None, db)" "\<forall>r \<in> set (messages db). \<not> is_unclaimed r"
    | (some) m where "select_oldest db = (Inr (Some (msg_id m)), db)" "oldest_unclaimed db m"
proof (cases "sort_key msg_id (filter is_unclaimed (messages db))")
  case Nil
  then have "filter is_unclaimed (messages db) = []"
    by (metis set_empty2 set_sort)
  with Nil show ?thesis by (intro none) (auto simp: select_oldest_def filter_empty_conv)
next
  case (Cons m ms)
  then show ?thesis
    using sort_key_head [OF Cons] by (intro some [of m]) (auto simp: select_oldest_def oldest_unclaimed_def)
qed

lemma claim_row_effect:
  assumes wf: "db_wf db" and m: "message_at db i = Some m" "is_unclaimed m"
  obtains db' where "claim_row i db = (Inr 1, db')" "faults db' = faults db" "chats db' = chats db"
    "\<And>j. message_at db' j = (if j = i then Some (m\<lparr>msg_status := to_db Pending\<rparr>) else message_at db j)"
proof -
  let ?db' = "snd (claim_row i db)"
  have "fst (claim_row i db) = Inr 1"
    using update_count_by_id [OF wf, of i is_unclaimed] m by (simp add: claim_row_def)
  then have "claim_row i db = (Inr 1, ?db')" by (metis prod.collapse)
  moreover have "message_at ?db' j = (if j = i then Some (m\<lparr>msg_status := to_db Pending\<rparr>) else message_at db j)" for j
  proof -
    have "message_at db j = Some r \<Longrightarrow> msg_id r = j" for r using message_at_Some by blast
    then show ?thesis
      using m unfolding claim_row_def by (subst message_at_update, simp, cases "message_at db j") auto
  qed
  moreover have "faults ?db' = faults db" "chats ?db' = chats db"
    by (simp_all add: claim_row_def update_messages_def)
  ultimately show ?thesis by (intro that)
qed

lemma is_unclaimed_pending [simp]: "is_job_row (m\<lparr>msg_status := s\<rparr>) = is_job_row m"
  by (simp add: is_job_row_def)

lemma claim_next_answered:
  assumes wf: "db_wf db" and ok: "faults db = []" and old: "oldest_unclaimed db m"
  obtains db' where
    "claim_next no_rivals db =
       (Inr (Some (job_with_status (joined_row db' (m\<lparr>msg_status := to_db Pending\<rparr>)) Pending)), db')"
    "chats db' = chats db"
    "\<And>j. message_at db' j =
       (if j = msg_id m then Some (m\<lparr>msg_status := to_db Pending\<rparr>) else message_at db j)"
proof -
  have m: "message_at db (msg_id m) = Some m" "is_unclaimed m" "is_job_row m"
    using old message_at_mem [OF wf] by (auto simp: oldest_unclaimed_def is_unclaimed_def)
  obtain db' where cl: "claim_row (msg_id m) db = (Inr 1, db')" and f: "faults db' = faults db"
    and ch: "chats db' = chats db" and at: "\<And>j. message_at db' j =
       (if j = msg_id m then Some (m\<lparr>msg_status := to_db Pending\<rparr>) else message_at db j)"
    using claim_row_effect [OF wf m(1,2)] by blast
  have sel: "select_oldest db = (Inr (Some (msg_id m)), db)"
  proof (cases db rule: select_oldest_cases)
    case none
    with old show ?thesis by (auto simp: oldest_unclaimed_def)
  next
    case (some k)
    with old have "msg_id k = msg_id m" by (auto simp: oldest_unclaimed_def intro: antisym)
    with some show ?thesis by simp
  qed
  have "claim_next no_rivals db = store_get (MessageId (msg_id m)) db'"
    using sel cl ok
    by (simp add: claim_next_def claim_attempts_def numeral_eq_Suc oldest_unclaimed_id_def
        try_claim_def no_rivals_def on_pool_answered)
  also have "\<dots> = (Inr (Some (job_with_status (joined_row db' (m\<lparr>msg_status := to_db Pending\<rparr>)) Pending)), db')"
    using m f ok by (intro store_get_answered) (simp_all add: at)
  finally show ?thesis using ch at by (rule that)
qed

lemma claim_next_empty:
  assumes "faults db = []" and "\<forall>r \<in> set (messages db). \<not> is_unclaimed r"
  shows "claim_next no_rivals db = (Inr None, db)"
proof (cases db rule: select_oldest_cases)
  case none
  with assms show ?thesis
    by (simp add: claim_next_def claim_attempts_def numeral_eq_Suc oldest_unclaimed_id_def on_pool_answered)
next
  case (some m)
  with assms show ?thesis by (auto simp: oldest_unclaimed_def)
qed

subsection \<open>Finishing\<close>

text \<open>A row that the answer can be recorded for.\<close>

definition recordable :: "database \<Rightarrow> int \<Rightarrow> string \<Rightarrow> bool" where
  "recordable db i result \<longleftrightarrow>
     (\<exists>m. message_at db i = Some m \<and> msg_status m = to_db Pending) \<and>
     length result \<le> text_max \<and> next_message_id db \<le> int_max"

lemma finish_done_answered:
  assumes wf: "db_wf db" and ok: "faults db = []" and rec: "recordable db i result"
  obtains db' where "finish (MessageId i) (Success result) db = (Inr (), db')"
    "reply_recorded db i result (int (next_message_id db)) db'" "faults db' = []" "db_wf db'"
proof -
  let ?n = "next_message_id db"
  obtain m where m: "message_at db i = Some m" "msg_status m = to_db Pending"
    using rec by (auto simp: recordable_def)
  have chat: "msg_chat m \<in> set (map chat_pk (chats db))"
    using m(1) message_at_Some db_wf_row(3) [OF wf] by blast
  obtain db2 where ins: "insert_reply result i db = (Inr (1, ?n), db2)" and f2: "faults db2 = []"
    using m chat rec ok by (auto simp: insert_reply_def insert_message_def recordable_def)
  obtain v db3 where upd: "mark_done (MessageId (int ?n)) i db2 = (Inr v, db3)" and f3: "faults db3 = []"
    using f2 by (auto simp: mark_done_def update_messages_def)
  have id: "insert_id (word_of_nat ?n) = Inr (MessageId (int ?n))"
    using rec by (intro insert_id_small) (simp add: recordable_def)
  have "finish (MessageId i) (Success result) db = (Inr (), db3)"
    using ok ins f2 id upd f3 by (simp add: finish_done_def commit_def)
  with transaction_effect [OF wf ins refl refl refl upd] f3 show ?thesis
    by (intro that) auto
qed

lemma insert_reply_too_long:
  assumes "text_max < length result"
  shows "insert_reply result i db = (Inr (0, 0), db) \<or> (\<exists>e. insert_reply result i db = (Inl e, db))"
  using assms by (auto simp: insert_reply_def insert_message_def split: option.split)

lemma finish_done_too_long:
  assumes ok: "faults db = []" and long: "text_max < length result"
  shows "\<exists>e db'. finish (MessageId i) (Success result) db = (Inl e, db') \<and> same_tables db db'"
  using insert_reply_too_long [OF long, of i db] ok
  by (auto simp: finish_done_def same_tables_def)

lemma mark_failed_at:
  "message_at (snd (mark_failed err result i db)) j =
     map_option (\<lambda>r. if msg_id r = i \<and> msg_status r = to_db Pending
       then r\<lparr>msg_status := to_db Failed,
              msg_payload := Some (set_failure err result (coalesce_object (msg_payload r)))\<rparr>
       else r) (message_at db j)"
  unfolding mark_failed_def by (subst message_at_update) auto

lemma finish_failed_answered:
  assumes wf: "db_wf db" and ok: "faults db = []"
    and m: "message_at db i = Some m" "msg_status m = to_db Pending"
  obtains db' where "finish (MessageId i) (FailedOutcome err result) db = (Inr (), db')"
    "chats db' = chats db" "faults db' = []"
    "\<And>j. message_at db' j =
       (if j = i then Some (m\<lparr>msg_status := to_db Failed,
          msg_payload := Some (set_failure err result (coalesce_object (msg_payload m)))\<rparr>)
        else message_at db j)"
proof -
  let ?db' = "snd (mark_failed err result i db)"
  have "fst (mark_failed err result i db) = Inr 1"
    using update_count_by_id [OF wf, of i "\<lambda>r. msg_status r = to_db Pending"] m
    by (simp add: mark_failed_def)
  then have "finish (MessageId i) (FailedOutcome err result) db = (Inr (), ?db')"
    using ok by (simp add: finish_failed_def on_pool_answered)
  moreover have "faults ?db' = []" "chats ?db' = chats db"
    using ok by (simp_all add: mark_failed_def update_messages_def)
  moreover have "message_at ?db' j =
       (if j = i then Some (m\<lparr>msg_status := to_db Failed,
          msg_payload := Some (set_failure err result (coalesce_object (msg_payload m)))\<rparr>)
        else message_at db j)" for j
    using m message_at_Some [of db j] unfolding mark_failed_at by (cases "message_at db j") auto
  ultimately show ?thesis by (intro that)
qed

text \<open>A row that is not pending is never finished, whatever the driver reports.\<close>

lemma finish_not_pending:
  assumes wf: "db_wf db" and np: "\<forall>m. message_at db i = Some m \<longrightarrow> msg_status m \<noteq> to_db Pending"
    and run: "finish (MessageId i) o' db = (r, db')"
  shows "r \<noteq> Inr () \<and> same_tables db db'"
proof (cases o')
  case (Success result)
  with run have "atomic_outcome db i result r db'" using finish_done_atomic [OF wf, of "MessageId i"] by simp
  with np show ?thesis by (auto simp: atomic_outcome_def reply_recorded_def)
next
  case (FailedOutcome err result)
  have noop: "mark_failed err result i d = (Inr 0, d)" if "messages d = messages db" for d
    unfolding mark_failed_def
    by (rule update_none) (use np message_at_mem [OF wf] that in auto)
  from run FailedOutcome obtain x where ex: "execute (mark_failed err result i) db = (x, db')"
    and r: "r = (case map_err Database x of Inl e \<Rightarrow> Inl e
                 | Inr k \<Rightarrow> if k = 1 then Inr () else Inl (NotPending (MessageId i)))"
    by (auto simp: finish_failed_def on_pool_def split: prod.splits sum.splits)
  from ex show ?thesis
    by (cases rule: execute_cases) (use r noop in \<open>auto simp: same_tables_def\<close>)
qed

lemma finish_not_pending_error:
  assumes "db_wf db" and "faults db = []"
    and "\<forall>m. message_at db i = Some m \<longrightarrow> msg_status m \<noteq> to_db Pending"
  shows "fst (finish (MessageId i) o' db) = Inl (NotPending (MessageId i))"
proof (cases o')
  case (Success result)
  with assms show ?thesis
    by (auto simp: finish_done_def insert_reply_def split: option.split)
next
  case (FailedOutcome err result)
  with assms show ?thesis
    using update_count_by_id [OF assms(1), of i "\<lambda>r. msg_status r = to_db Pending"]
    by (auto simp: finish_failed_def on_pool_answered mark_failed_def split: option.splits)
qed

end
