(* ===== verification/Claims.thy ===== *)
theory Claims
  imports StoreLaws
begin

text \<open>
  Several workers polling the same table (\<open>claim_next\<close>, \<open>finish\<close> of \<open>src/store.rs\<close>
  under the loop of \<open>src/worker.rs\<close>), statement by statement: between any two statements
  of one worker the others, and the chat application inserting messages, may run. The
  start-up requeue is not a step here (\<open>REQUEUE_PENDING_ON_START=false\<close> with several
  workers).
\<close>

datatype claim_pc =
    Idle
  | Selecting nat
  | Racing nat int
  | Fetching int
  | Holding int

record claim_system =
  shared :: database
  pcs :: "nat \<Rightarrow> claim_pc"

abbreviation moves :: "claim_system \<Rightarrow> nat \<Rightarrow> claim_pc \<Rightarrow> database \<Rightarrow> claim_system" where
  "moves s w pc db \<equiv> s\<lparr>shared := db, pcs := (pcs s)(w := pc)\<rparr>"

inductive claim_step :: "claim_system \<Rightarrow> claim_system \<Rightarrow> bool" where
  poll: "pcs s w = Idle \<Longrightarrow> claim_step s (moves s w (Selecting claim_attempts) (shared s))"
| give_up: "pcs s w = Selecting 0 \<Longrightarrow> claim_step s (moves s w Idle (shared s))"
| found: "pcs s w = Selecting (Suc n) \<Longrightarrow>
    oldest_unclaimed_id (shared s) = (Inr (Some (MessageId i)), db) \<Longrightarrow>
    claim_step s (moves s w (Racing n i) db)"
| nothing: "pcs s w = Selecting (Suc n) \<Longrightarrow> oldest_unclaimed_id (shared s) = (Inr None, db) \<Longrightarrow>
    claim_step s (moves s w Idle db)"
| select_error: "pcs s w = Selecting (Suc n) \<Longrightarrow> oldest_unclaimed_id (shared s) = (Inl e, db) \<Longrightarrow>
    claim_step s (moves s w Idle db)"
| win: "pcs s w = Racing n i \<Longrightarrow> try_claim (MessageId i) (shared s) = (Inr True, db) \<Longrightarrow>
    claim_step s (moves s w (Fetching i) db)"
| lose: "pcs s w = Racing n i \<Longrightarrow> try_claim (MessageId i) (shared s) = (Inr False, db) \<Longrightarrow>
    claim_step s (moves s w (Selecting n) db)"
| claim_error: "pcs s w = Racing n i \<Longrightarrow> try_claim (MessageId i) (shared s) = (Inl e, db) \<Longrightarrow>
    claim_step s (moves s w Idle db)"
| fetched: "pcs s w = Fetching i \<Longrightarrow> store_get (MessageId i) (shared s) = (Inr (Some j), db) \<Longrightarrow>
    claim_step s (moves s w (Holding i) db)"
| fetch_none: "pcs s w = Fetching i \<Longrightarrow> store_get (MessageId i) (shared s) = (Inr None, db) \<Longrightarrow>
    claim_step s (moves s w Idle db)"
| fetch_error: "pcs s w = Fetching i \<Longrightarrow> store_get (MessageId i) (shared s) = (Inl e, db) \<Longrightarrow>
    claim_step s (moves s w Idle db)"
| finished: "pcs s w = Holding i \<Longrightarrow> finish (MessageId i) o' (shared s) = (r, db) \<Longrightarrow>
    claim_step s (moves s w Idle db)"
| enqueued: "store_insert chat content (shared s) = (r, db) \<Longrightarrow>
    claim_step s (s\<lparr>shared := db\<rparr>)"

definition claim_start :: "claim_system \<Rightarrow> bool" where
  "claim_start s \<longleftrightarrow> db_wf (shared s) \<and> (\<forall>w. pcs s w = Idle)"

definition holds :: "claim_system \<Rightarrow> nat \<Rightarrow> int \<Rightarrow> bool" where
  "holds s w i \<longleftrightarrow> pcs s w = Fetching i \<or> pcs s w = Holding i"

text \<open>
  The invariant: a row that a worker holds is pending in the table, and no other worker
  holds it.
\<close>

definition is_pending :: "database \<Rightarrow> int \<Rightarrow> bool" where
  "is_pending db i \<longleftrightarrow> status_at db i = Some (to_db Pending)"

lemma is_pending_iff:
  "is_pending db i \<longleftrightarrow> (\<exists>m. message_at db i = Some m \<and> msg_status m = to_db Pending)"
  by (auto simp: is_pending_def status_at_def)

lemma is_pendingE:
  assumes "is_pending db i"
  obtains m where "message_at db i = Some m" "msg_status m = to_db Pending"
  using assms unfolding is_pending_iff by (elim exE conjE)

definition claim_inv :: "claim_system \<Rightarrow> bool" where
  "claim_inv s \<longleftrightarrow>
     db_wf (shared s) \<and>
     (\<forall>w i. holds s w i \<longrightarrow> is_pending (shared s) i) \<and>
     (\<forall>w v i. holds s w i \<longrightarrow> holds s v i \<longrightarrow> w = v)"

section \<open>What each statement does to the other rows\<close>

definition same_elsewhere :: "database \<Rightarrow> int \<Rightarrow> database \<Rightarrow> bool" where
  "same_elsewhere db i db' \<longleftrightarrow> (\<forall>j m. j \<noteq> i \<longrightarrow> message_at db j = Some m \<longrightarrow> message_at db' j = Some m)"

lemma same_elsewhere_messages: "messages db' = messages db \<Longrightarrow> same_elsewhere db i db'"
  by (simp add: same_elsewhere_def message_at_def)

lemma is_pending_elsewhere: "same_elsewhere db i db' \<Longrightarrow> j \<noteq> i \<Longrightarrow> is_pending db j \<Longrightarrow> is_pending db' j"
  by (auto simp: same_elsewhere_def is_pending_iff)

lemma is_pending_cong: "messages db' = messages db \<Longrightarrow> is_pending db' i = is_pending db i"
  by (simp add: is_pending_def status_at_def message_at_def)

lemma is_pending_execute:
  assumes stmt: "\<And>d. is_pending d j \<Longrightarrow> is_pending (snd (stmt d)) j" and pd: "is_pending db j"
    and ex: "execute stmt db = (r, db')"
  shows "is_pending db' j"
proof -
  have popped: "is_pending d j" if "pop_fault db = (f, d)" for f d
    using pd unfolding is_pending_cong [OF pop_fault_frame(2) [OF that]] .
  from ex show ?thesis
  proof (cases rule: execute_cases)
    case (refused e db1 f)
    then show ?thesis using popped [OF refused(1)] by simp
  next
    case (lost e db1 f)
    then show ?thesis using stmt [OF popped [OF lost(1)]] by simp
  next
    case (answered db1)
    then show ?thesis using stmt [OF popped [OF answered(1)]] by simp
  qed
qed

lemma execute_read_only:
  assumes "\<And>d. snd (stmt d) = d" and "execute stmt db = (r, db')"
  shows "messages db' = messages db"
  using assms(2)
proof (cases rule: execute_cases)
  case (answered db1)
  with assms(1) [of db1] show ?thesis by simp
qed (use assms(1) in auto)

lemma oldest_unclaimed_id_frame:
  "oldest_unclaimed_id db = (r, db') \<Longrightarrow> messages db' = messages db"
  using execute_read_only [of select_oldest db]
  by (auto simp: oldest_unclaimed_id_def on_pool_def select_oldest_def split: prod.splits sum.splits)

lemma store_get_frame: "store_get i db = (r, db') \<Longrightarrow> messages db' = messages db"
  using execute_read_only [of "select_job (message_raw i)" db]
  by (auto simp: store_get_def on_pool_def select_job_def split: prod.splits sum.splits)

lemma update_elsewhere:
  assumes "\<And>r. msg_id (f r) = msg_id r" and "\<And>r. p r \<Longrightarrow> msg_id r = i"
  shows "same_elsewhere db i (snd (update_messages p f db))"
  using assms message_at_Some by (fastforce simp: same_elsewhere_def message_at_update)

lemma same_elsewhere_execute:
  assumes "\<And>d. same_elsewhere d i (snd (stmt d))"
  shows "same_elsewhere db i (snd (execute stmt db))"
proof -
  obtain r db' where ex: "execute stmt db = (r, db')" by (cases "execute stmt db")
  have lift: "same_elsewhere d i e \<Longrightarrow> messages d = messages db \<Longrightarrow> same_elsewhere db i e" for d e
    by (simp add: same_elsewhere_def message_at_def)
  from ex show ?thesis
  proof (cases rule: execute_cases)
    case (lost e db1 f)
    with ex lift [OF assms [of db1]] show ?thesis by simp
  next
    case (answered db1)
    with ex lift [OF assms [of db1]] show ?thesis by simp
  qed (use ex in \<open>simp add: same_elsewhere_messages\<close>)
qed

lemma try_claim_elsewhere: "same_elsewhere db i (snd (try_claim (MessageId i) db))"
proof -
  have "same_elsewhere d i (snd (claim_row i d))" for d
    unfolding claim_row_def by (rule update_elsewhere) auto
  then show ?thesis by (simp add: snd_try_claim same_elsewhere_execute)
qed

lemma finish_elsewhere:
  assumes wf: "db_wf db"
  shows "same_elsewhere db i (snd (finish (MessageId i) o' db))"
proof (cases o')
  case (Success result)
  obtain r db' where run: "finish_done (MessageId i) result db = (r, db')"
    by (cases "finish_done (MessageId i) result db")
  with finish_done_atomic [OF wf run] have "same_elsewhere db i db'"
    by (auto simp: atomic_outcome_def same_tables_def same_elsewhere_def reply_recorded_def message_at_def)
  with run Success show ?thesis by simp
next
  case (FailedOutcome err result)
  have "same_elsewhere d i (snd (mark_failed err result i d))" for d
    unfolding mark_failed_def by (rule update_elsewhere) auto
  with FailedOutcome show ?thesis by (simp add: snd_finish_failed same_elsewhere_execute)
qed

text \<open>Winning the race means the row was unclaimed, and it is pending now.\<close>

lemma try_claim_won:
  assumes wf: "db_wf db" and won: "try_claim (MessageId i) db = (Inr True, db')"
  shows "\<exists>m. message_at db i = Some m \<and> is_unclaimed m \<and>
    message_at db' i = Some (m\<lparr>msg_status := to_db Pending\<rparr>)"
proof -
  from won have "execute (claim_row i) db = (Inr 1, db')"
    by (auto simp: try_claim_def on_pool_def split: prod.splits sum.splits)
  then obtain db1 where a: "pop_fault db = (Answered, db1)" "claim_row i db1 = (Inr 1, db')"
    by (auto elim: execute_cases)
  then have wf1: "db_wf db1" using wf db_wf_cong [of db1 db] by simp
  have look: "message_at db1 i = message_at db i" using a(1) by (simp add: message_at_def)
  have "(case message_at db1 i of None \<Rightarrow> 0 | Some r \<Rightarrow> if is_unclaimed r then 1 else 0) = (1::nat)"
    using update_count_by_id [OF wf1, of i is_unclaimed "\<lambda>r. r\<lparr>msg_status := to_db Pending\<rparr>"]
      a(2) [unfolded claim_row_def] by simp
  then obtain m where m: "message_at db1 i = Some m" "is_unclaimed m"
    by (auto split: option.splits if_splits)
  obtain db2 where "claim_row i db1 = (Inr 1, db2)"
    "\<And>j. message_at db2 j = (if j = i then Some (m\<lparr>msg_status := to_db Pending\<rparr>) else message_at db1 j)"
    using claim_row_effect [OF wf1 m] by blast
  with a(2) m look show ?thesis by auto
qed

section \<open>The invariant\<close>

lemma claim_invI:
  assumes "db_wf (shared s)" and "\<And>w i. holds s w i \<Longrightarrow> is_pending (shared s) i"
    and "\<And>w v i. holds s w i \<Longrightarrow> holds s v i \<Longrightarrow> w = v"
  shows "claim_inv s"
  using assms unfolding claim_inv_def by blast

lemma claim_invD:
  assumes "claim_inv s"
  shows "db_wf (shared s)" and "holds s w i \<Longrightarrow> is_pending (shared s) i"
    and "holds s w i \<Longrightarrow> holds s v i \<Longrightarrow> w = v"
  using assms unfolding claim_inv_def by blast+

lemma claim_inv_start: "claim_start s \<Longrightarrow> claim_inv s"
  by (rule claim_invI) (simp_all add: claim_start_def holds_def)

lemma holds_moves:
  "holds (moves s w pc db) v i \<longleftrightarrow>
     (if v = w then pc = Fetching i \<or> pc = Holding i else holds s v i)"
  by (simp add: holds_def)

text \<open>A step after which the worker holds what it held before, or nothing.\<close>

lemma claim_inv_moves:
  assumes inv: "claim_inv s" and wf: "db_wf db"
    and pc: "\<And>i. pc = Fetching i \<or> pc = Holding i \<Longrightarrow> holds s w i"
    and pend: "\<And>v i. holds (moves s w pc db) v i \<Longrightarrow> is_pending (shared s) i \<Longrightarrow> is_pending db i"
  shows "claim_inv (moves s w pc db)"
proof (rule claim_invI)
  have old: "holds (moves s w pc db) v i \<Longrightarrow> holds s v i" for v i
    using pc by (auto simp: holds_moves split: if_splits)
  show "db_wf (shared (moves s w pc db))" using wf by simp
  fix v u i
  assume h: "holds (moves s w pc db) v i"
  show "is_pending (shared (moves s w pc db)) i"
    using pend [OF h] claim_invD(2) [OF inv old [OF h]] by simp
  assume "holds (moves s w pc db) u i"
  then show "v = u" using claim_invD(3) [OF inv] old h by blast
qed

lemma claim_inv_read:
  assumes "claim_inv s" and "db_wf db" and "messages db = messages (shared s)"
    and "\<And>i. pc = Fetching i \<or> pc = Holding i \<Longrightarrow> holds s w i"
  shows "claim_inv (moves s w pc db)"
proof (rule claim_inv_moves [OF assms(1,2)])
  show "holds s w i" if "pc = Fetching i \<or> pc = Holding i" for i
    by (rule assms(4) [OF that])
  show "is_pending db i" if "is_pending (shared s) i" for i
    using that unfolding is_pending_cong [OF assms(3)] .
qed

lemma is_pending_try_claim:
  assumes "try_claim i db = (r, db')" and "is_pending db j"
  shows "is_pending db' j"
proof -
  have row: "is_pending (snd (claim_row k d)) j" if pd: "is_pending d j" for d k
  proof -
    obtain m where m: "message_at d j = Some m" "msg_status m = to_db Pending"
      using pd by (rule is_pendingE)
    then have "\<not> is_unclaimed m" by (simp add: is_unclaimed_def)
    with m have "message_at (snd (claim_row k d)) j = Some m"
      unfolding claim_row_def by (subst message_at_update) simp_all
    with m show ?thesis by (simp add: is_pending_iff)
  qed
  obtain x e where ex: "execute (claim_row (message_raw i)) db = (x, e)"
    by (cases "execute (claim_row (message_raw i)) db")
  moreover have "e = db'" using snd_try_claim [of i db] unfolding assms(1) ex by simp
  ultimately have run: "execute (claim_row (message_raw i)) db = (x, db')" by simp
  show ?thesis by (rule is_pending_execute [OF _ assms(2) run]) (rule row)
qed

lemma claim_inv_lost:
  assumes inv: "claim_inv s" and run: "try_claim i (shared s) = (r, db)"
    and "\<And>i. pc \<noteq> Fetching i \<and> pc \<noteq> Holding i"
  shows "claim_inv (moves s w pc db)"
proof (rule claim_inv_moves [OF inv])
  show "db_wf db" by (rule keeps_snd [OF keeps_try_claim run claim_invD(1) [OF inv]])
  show "holds s w j" if "pc = Fetching j \<or> pc = Holding j" for j
    using that assms(3) [of j] by simp
  show "is_pending db j" if "is_pending (shared s) j" for j
    by (rule is_pending_try_claim [OF run that])
qed

lemma claim_inv_win:
  assumes inv: "claim_inv s" and won: "try_claim (MessageId i) (shared s) = (Inr True, db)"
  shows "claim_inv (moves s w (Fetching i) db)"
proof (rule claim_invI)
  note wf = claim_invD(1) [OF inv]
  obtain m where m: "message_at (shared s) i = Some m" "is_unclaimed m"
    and m': "message_at db i = Some (m\<lparr>msg_status := to_db Pending\<rparr>)"
    using try_claim_won [OF wf won] by blast
  have "\<not> is_pending (shared s) i"
    using m by (simp add: is_pending_def status_at_def is_unclaimed_def)
  then have free: "\<not> holds s v i" for v
    using claim_invD(2) [OF inv] by blast
  show "db_wf (shared (moves s w (Fetching i) db))"
    using keeps_snd [OF keeps_try_claim won wf] by simp
  have now: "is_pending db i" using m' by (simp add: is_pending_def status_at_def)
  fix v u j
  assume h: "holds (moves s w (Fetching i) db) v j"
  then show "is_pending (shared (moves s w (Fetching i) db)) j"
  proof (cases "v = w")
    case True
    with h now show ?thesis by (simp add: holds_moves)
  next
    case False
    with h have "is_pending (shared s) j" using claim_invD(2) [OF inv] by (simp add: holds_moves)
    then show ?thesis using is_pending_try_claim [OF won] by simp
  qed
  assume h': "holds (moves s w (Fetching i) db) u j"
  show "v = u"
  proof (cases "v = w \<or> u = w")
    case True
    with h h' free show ?thesis by (simp add: holds_moves split: if_splits)
  next
    case False
    with h h' show ?thesis using claim_invD(3) [OF inv, of v j u] by (simp add: holds_moves)
  qed
qed

lemma claim_inv_finished:
  assumes inv: "claim_inv s" and held: "pcs s w = Holding i"
    and run: "finish (MessageId i) o' (shared s) = (r, db)"
  shows "claim_inv (moves s w Idle db)"
proof (rule claim_inv_moves [OF inv])
  note wf = claim_invD(1) [OF inv]
  show "db_wf db" using keeps_snd [OF keeps_finish run wf] .
  fix v j
  assume v: "holds (moves s w Idle db) v j" and p: "is_pending (shared s) j"
  have "holds s w i" using held by (simp add: holds_def)
  with v have "j \<noteq> i"
    using claim_invD(3) [OF inv] by (auto simp: holds_moves split: if_splits)
  then show "is_pending db j"
    using is_pending_elsewhere [OF finish_elsewhere [OF wf, of i o']] run p by simp
qed simp

lemma is_pending_insert:
  assumes "store_insert chat content db = (r, db')" and "is_pending db i"
  shows "is_pending db' i"
proof -
  have row: "is_pending (snd (insert_message c s t a p d)) i" if pd: "is_pending d i" for c s t a p d
  proof -
    obtain m where m: "message_at d i = Some m" "msg_status m = to_db Pending"
      using pd by (rule is_pendingE)
    then have "message_at (snd (insert_message c s t a p d)) i = Some m"
      by (simp add: message_at_def insert_message_def find_append)
    with m show ?thesis by (simp add: is_pending_iff)
  qed
  obtain x e where ex: "execute (insert_message (chat_raw chat) User content (Some 1) None) db = (x, e)"
    by (cases "execute (insert_message (chat_raw chat) User content (Some 1) None) db")
  have "e = db'"
    using assms(1) ex by (simp add: store_insert_def on_pool_def split: sum.splits)
  with ex have run: "execute (insert_message (chat_raw chat) User content (Some 1) None) db = (x, db')" by simp
  show ?thesis by (rule is_pending_execute [OF _ assms(2) run]) (rule row)
qed

lemma claim_inv_enqueued:
  assumes inv: "claim_inv s" and run: "store_insert chat content (shared s) = (r, db)"
  shows "claim_inv (s\<lparr>shared := db\<rparr>)"
proof (rule claim_invI)
  show "db_wf (shared (s\<lparr>shared := db\<rparr>))"
    using keeps_snd [OF keeps_store_insert run claim_invD(1) [OF inv]] by simp
next
  fix w i
  assume "holds (s\<lparr>shared := db\<rparr>) w i"
  then have "holds s w i" by (simp add: holds_def)
  then show "is_pending (shared (s\<lparr>shared := db\<rparr>)) i"
    using is_pending_insert [OF run] claim_invD(2) [OF inv] by simp
next
  fix w v i
  assume "holds (s\<lparr>shared := db\<rparr>) w i" "holds (s\<lparr>shared := db\<rparr>) v i"
  then show "w = v" using claim_invD(3) [OF inv, of w i v] by (simp add: holds_def)
qed

lemma claim_inv_oldest:
  assumes "claim_inv s" and "oldest_unclaimed_id (shared s) = (r, db)"
    and "\<And>i. pc \<noteq> Fetching i \<and> pc \<noteq> Holding i"
  shows "claim_inv (moves s w pc db)"
  by (rule claim_inv_read [OF assms(1) keeps_snd [OF keeps_oldest assms(2) claim_invD(1) [OF assms(1)]]
        oldest_unclaimed_id_frame [OF assms(2)]]) (use assms(3) in auto)

lemma claim_inv_get:
  assumes "claim_inv s" and "store_get k (shared s) = (r, db)"
    and "\<And>i. pc = Fetching i \<or> pc = Holding i \<Longrightarrow> holds s w i"
  shows "claim_inv (moves s w pc db)"
  by (rule claim_inv_read [OF assms(1) keeps_snd [OF keeps_store_get assms(2) claim_invD(1) [OF assms(1)]]
        store_get_frame [OF assms(2)] assms(3)])

lemma claim_inv_step: "claim_step s t \<Longrightarrow> claim_inv s \<Longrightarrow> claim_inv t"
proof (induction rule: claim_step.induct)
  case (poll s w)
  then show ?case by (intro claim_inv_read) (auto dest: claim_invD(1))
next
  case (give_up s w)
  then show ?case by (intro claim_inv_read) (auto dest: claim_invD(1))
qed (auto intro: claim_inv_oldest claim_inv_lost claim_inv_win claim_inv_get claim_inv_finished
    claim_inv_enqueued simp: holds_def)

interpretation claims: safe_system claim_start claim_step claim_inv
  by unfold_locales (fact claim_inv_start claim_inv_step)+

end
