(* ===== verification/StoreProps.thy ===== *)
theory StoreProps
  imports Claims
begin

text \<open>
  The properties of the job store: what its operations promise their callers, one at a
  time, over any sequence of calls, and under several workers. \<open>sample_db\<close> is the
  database on which the witnesses run.
\<close>

definition sample_row :: "int \<Rightarrow> string \<Rightarrow> string option \<Rightarrow> message_row" where
  "sample_row i content status =
     \<lparr>msg_id = i, msg_chat = 7, msg_sender = User, msg_content = content,
      msg_agentic = Some 1, msg_payload = None, msg_status = status\<rparr>"

definition sample_db :: "string option \<Rightarrow> fault list \<Rightarrow> database" where
  "sample_db status fs =
     \<lparr>chats = [\<lparr>chat_pk = 7, chat_user = 3, chat_company = 2, chat_title = ''x''\<rparr>],
      messages = [sample_row 1 ''a'' status, sample_row 2 ''b'' None],
      next_message_id = 3, faults = fs\<rparr>"

lemma sample_db_simps [simp]:
  "faults (sample_db st fs) = fs"
  "messages (sample_db st fs) = [sample_row 1 ''a'' st, sample_row 2 ''b'' None]"
  "message_at (sample_db st fs) 1 = Some (sample_row 1 ''a'' st)"
  "chats (sample_db st fs) = [\<lparr>chat_pk = 7, chat_user = 3, chat_company = 2, chat_title = ''x''\<rparr>]"
  "next_message_id (sample_db st fs) = 3"
  by (simp_all add: sample_db_def sample_row_def message_at_def)

lemma sample_row_simps [simp]:
  "msg_id (sample_row i c st) = i" "msg_chat (sample_row i c st) = 7"
  "msg_sender (sample_row i c st) = User" "msg_status (sample_row i c st) = st"
  "msg_payload (sample_row i c st) = None" "msg_content (sample_row i c st) = c"
  "is_job_row (sample_row i c st)"
  by (simp_all add: sample_row_def is_job_row_def)

lemma sample_db_wf [simp]: "db_wf (sample_db st fs)"
  by (simp add: db_wf_def int_max_def)

section \<open>Sequences of calls\<close>

datatype store_call =
    InsertCall chat_id string
  | GetCall message_id
  | ReplyCall message_id
  | ClaimCall
  | FinishCall message_id job_outcome
  | RequeueCall

fun call_effect :: "store_call \<Rightarrow> database \<Rightarrow> database" where
  "call_effect (InsertCall chat content) db = snd (store_insert chat content db)"
| "call_effect (GetCall i) db = snd (store_get i db)"
| "call_effect (ReplyCall i) db = snd (store_reply i db)"
| "call_effect ClaimCall db = snd (claim_next no_rivals db)"
| "call_effect (FinishCall i o') db = snd (finish i o' db)"
| "call_effect RequeueCall db = snd (requeue_pending db)"

definition run_calls :: "store_call list \<Rightarrow> database \<Rightarrow> database" where
  "run_calls cs db = fold call_effect cs db"

definition keeps_star :: "database \<Rightarrow> database \<Rightarrow> bool" where
  "keeps_star db db' \<longleftrightarrow> (db_wf db \<longrightarrow> db_wf db' \<and> evolves\<^sup>*\<^sup>* db db')"

lemma keeps_star_refl [simp]: "keeps_star db db"
  by (simp add: keeps_star_def)

lemma keeps_star_keeps: "keeps db db' \<Longrightarrow> keeps_star db db'"
  by (simp add: keeps_star_def keeps_def r_into_rtranclp)

lemma keeps_star_trans: "keeps_star a b \<Longrightarrow> keeps_star b c \<Longrightarrow> keeps_star a c"
  using rtranclp_trans [of evolves a b c] by (simp add: keeps_star_def)

lemma keeps_star_run: "(\<And>d. keeps d (snd (f d))) \<Longrightarrow> f db = (r, db') \<Longrightarrow> keeps_star db db'"
  using keeps_star_keeps [of db db'] by (metis snd_conv)

lemma keeps_star_claim_loop:
  assumes rivals: "\<And>n d. keeps_star d (rivals n d)"
  shows "keeps_star db (snd (claim_loop rivals n db))"
proof (induction n arbitrary: db)
  case 0
  then show ?case by simp
next
  case (Suc n)
  obtain r db1 where old: "oldest_unclaimed_id db = (r, db1)" by (cases "oldest_unclaimed_id db")
  have k1: "keeps_star db db1" using keeps_star_run [of oldest_unclaimed_id, OF keeps_oldest old] .
  show ?case
  proof (cases "\<exists>i. r = Inr (Some i)")
    case False
    with old k1 show ?thesis by (auto split: sum.splits option.splits)
  next
    case True
    then obtain i where r: "r = Inr (Some i)" ..
    obtain c db2 where tried: "try_claim i (rivals (Suc n) db1) = (c, db2)"
      by (cases "try_claim i (rivals (Suc n) db1)")
    have k2: "keeps_star db db2"
      using k1 keeps_star_trans rivals keeps_star_run [of "try_claim i", OF keeps_try_claim tried] by blast
    have "snd (claim_loop rivals (Suc n) db) = db2 \<or>
      snd (claim_loop rivals (Suc n) db) = snd (store_get i db2) \<or>
      snd (claim_loop rivals (Suc n) db) = snd (claim_loop rivals n db2)"
      using old r tried by (cases c) (auto split: bool.splits)
    then show ?thesis
      using k2 keeps_star_trans [OF k2 keeps_star_keeps [OF keeps_store_get]]
        keeps_star_trans [OF k2 Suc.IH] by metis
  qed
qed

lemma keeps_star_call: "keeps_star db (call_effect c db)"
proof (cases c)
  case ClaimCall
  then show ?thesis by (simp add: claim_next_def keeps_star_claim_loop no_rivals_def)
qed (simp_all add: keeps_star_keeps keeps_store_insert keeps_store_get keeps_store_reply keeps_finish
    keeps_requeue_pending)

lemma keeps_star_calls: "keeps_star db (run_calls cs db)"
proof (induction cs arbitrary: db)
  case Nil
  then show ?case by (simp add: run_calls_def)
next
  case (Cons c cs)
  have "run_calls (c # cs) db = run_calls cs (call_effect c db)" by (simp add: run_calls_def)
  then show ?case using keeps_star_trans [OF keeps_star_call Cons.IH] by simp
qed

lemma evolves_star_row:
  "evolves\<^sup>*\<^sup>* db db' \<Longrightarrow> message_at db i = Some r \<Longrightarrow> \<exists>r'. message_at db' i = Some r' \<and> row_step\<^sup>*\<^sup>* r r'"
proof (induction rule: rtranclp_induct)
  case base
  then show ?case by simp
next
  case (step d d')
  then obtain q where q: "message_at d i = Some q" "row_step\<^sup>*\<^sup>* r q" by auto
  with step.hyps(2) obtain q' where "message_at d' i = Some q'" "row_step q q'"
    by (auto simp: evolves_def)
  with q show ?case by (intro exI [of _ q']) (simp add: rtranclp.rtrancl_into_rtrancl)
qed

lemma to_db_eq_iff [simp]: "to_db s = to_db t \<longleftrightarrow> s = t"
  by (rule status_column.enc_eq_iff)

lemma row_steps_status:
  "row_step\<^sup>*\<^sup>* r r' \<Longrightarrow> msg_status r = to_db s \<Longrightarrow> \<exists>t. msg_status r' = to_db t \<and> lifecycle\<^sup>*\<^sup>* s t"
proof (induction rule: rtranclp_induct)
  case base
  then show ?case by auto
next
  case (step q q')
  then obtain t where t: "msg_status q = to_db t" "lifecycle\<^sup>*\<^sup>* s t" by auto
  from step.hyps(2) consider "q' = q" | u v where "lifecycle u v" "msg_status q = to_db u" "msg_status q' = to_db v"
    by (auto simp: row_step_def)
  then show ?case
  proof cases
    case 1
    with t show ?thesis by auto
  next
    case 2
    with t have "u = t" by simp
    with 2 t have "lifecycle\<^sup>*\<^sup>* s v" by (simp add: rtranclp.rtrancl_into_rtrancl)
    with 2 show ?thesis by blast
  qed
qed

lemma row_steps_frame:
  "row_step\<^sup>*\<^sup>* r r' \<Longrightarrow> msg_id r' = msg_id r \<and> msg_chat r' = msg_chat r \<and> msg_sender r' = msg_sender r
     \<and> msg_content r' = msg_content r \<and> msg_agentic r' = msg_agentic r"
  by (induction rule: rtranclp_induct) (auto simp: row_step_def)

lemma row_steps_terminal:
  "row_step\<^sup>*\<^sup>* r r' \<Longrightarrow> msg_status r = to_db s \<Longrightarrow> is_terminal s \<Longrightarrow> r' = r"
proof (induction rule: rtranclp_induct)
  case base
  then show ?case by simp
next
  case (step q q')
  have "\<not> lifecycle s t" for t using terminal_is_final step.prems(2) by simp
  with step show ?case by (auto simp: row_step_def)
qed

section \<open>Any sequence of calls\<close>

text \<open>
  C3: whatever the driver reports (statements refused, answers lost), no sequence of store
  calls loses a message or changes its text, chat, sender or agentic flag; its status
  only moves along the lifecycle; a done or failed message is never touched again.
\<close>
theorem store_lifecycle:
  assumes "db_wf db" and "message_at db i = Some r"
  shows "\<exists>r'. message_at (run_calls cs db) i = Some r' \<and>
    msg_chat r' = msg_chat r \<and> msg_sender r' = msg_sender r \<and>
    msg_content r' = msg_content r \<and> msg_agentic r' = msg_agentic r \<and>
    (\<forall>s. msg_status r = to_db s \<longrightarrow>
      (\<exists>t. msg_status r' = to_db t \<and> lifecycle\<^sup>*\<^sup>* s t) \<and> (is_terminal s \<longrightarrow> r' = r))"
proof -
  have "evolves\<^sup>*\<^sup>* db (run_calls cs db)"
    using keeps_star_calls [of db cs] assms(1) by (simp add: keeps_star_def)
  then obtain r' where r': "message_at (run_calls cs db) i = Some r'" "row_step\<^sup>*\<^sup>* r r'"
    using evolves_star_row assms(2) by blast
  show ?thesis
    using r'(1) row_steps_frame [OF r'(2)] row_steps_status [OF r'(2)] row_steps_terminal [OF r'(2)]
    by (intro exI [of _ r']) simp
qed

theorem store_lifecycle_witness:
  "\<exists>r'. message_at (run_calls [ClaimCall, FinishCall (MessageId 1) (Success ''ok''), RequeueCall]
       (sample_db None [Answered, AckLost (SqlxIo ''x'')])) 1 = Some r' \<and> msg_content r' = ''a'' \<and>
     (\<exists>t. msg_status r' = to_db t \<and> lifecycle\<^sup>*\<^sup>* New t)"
proof -
  have "msg_status (sample_row 1 ''a'' None) = to_db New" by simp
  with store_lifecycle [of "sample_db None [Answered, AckLost (SqlxIo ''x'')]" 1 "sample_row 1 ''a'' None"
      "[ClaimCall, FinishCall (MessageId 1) (Success ''ok''), RequeueCall]"]
  show ?thesis by auto
qed

text \<open>
  C2: recording an answer is atomic: after \<open>finish\<close> with a success, whichever statement
  failed or whichever answer was lost, either the tables are as before, or the row is
  \<open>done\<close>, points at a fresh row of the same chat that holds the answer, and nothing else
  changed; it reports success only in the second case.
\<close>
theorem finish_atomic:
  assumes "db_wf db" and "finish (MessageId i) (Success result) db = (r, db')"
  shows "db_wf db' \<and>
    ((r \<noteq> Inr () \<and> chats db' = chats db \<and> messages db' = messages db) \<or>
     (\<exists>n. reply_recorded db i result n db'))"
  using finish_done_atomic [OF assms(1), of "MessageId i" result r db'] assms(2)
  by (auto simp: atomic_outcome_def same_tables_def)

theorem finish_atomic_witness:
  "\<exists>r db'. finish (MessageId 1) (Success ''ok'')
       (sample_db (Some ''pending'') [Answered, Answered, AckLost (SqlxIo ''x'')]) = (r, db') \<and>
     r = Inl (Database (SqlxIo ''x'')) \<and> db_wf db'"
proof -
  let ?db = "sample_db (Some ''pending'') [Answered, Answered, AckLost (SqlxIo ''x'')]"
  obtain r db' where run: "finish (MessageId 1) (Success ''ok'') ?db = (r, db')"
    by (cases "finish (MessageId 1) (Success ''ok'') ?db")
  then have "r = Inl (Database (SqlxIo ''x''))"
    by (simp add: finish_done_def session_stmt_def execute_def pop_fault_def insert_reply_def
        insert_message_def text_max_def int_max_def message_at_def insert_id_def i64_max_def)
  with run finish_atomic [OF sample_db_wf run] show ?thesis by blast
qed

section \<open>What the callers see\<close>

text \<open>The fields \<open>get\<close> reports for a stored row.\<close>

lemma job_with_status_fields [simp]:
  "job_id (job_with_status row st) = MessageId (row_id row)"
  "job_chat (job_with_status row st) = ChatId (row_chat_id row)"
  "job_content (job_with_status row st) = row_content row"
  "job_state (job_with_status row st) = st"
  by (simp_all add: job_with_status_def)

lemma joined_row_fields [simp]:
  "row_id (joined_row db m) = msg_id m" "row_chat_id (joined_row db m) = msg_chat m"
  "row_content (joined_row db m) = msg_content m" "row_payload (joined_row db m) = msg_payload m"
  by (simp_all add: joined_row_def)

lemma done_row_fields [simp]:
  "msg_status (done_row m n) = to_db Done" "is_job_row (done_row m n) = is_job_row m"
  by (simp_all add: done_row_def is_job_row_def)

definition document_payload :: "message_row \<Rightarrow> bool" where
  "document_payload m \<longleftrightarrow> json_wf (coalesce_object (msg_payload m)) \<and> is_object (coalesce_object (msg_payload m))"

lemma json_wf_put [simp]: "json_wf (coalesce_object None)" "is_object (coalesce_object None)"
  by (simp_all add: coalesce_object_def map_wf_def)

lemma done_row_reply_id:
  assumes "document_payload m" and "in_i64 n"
  shows "job_reply_id (job_with_status (joined_row db (done_row m n)) st) = Some (MessageId n)"
  using assms by (simp add: job_with_status_def payload_get_def done_row_def json_get_json_set document_payload_def)

lemma reply_row_fields [simp]:
  "msg_sender (reply_row m result n) = Ai" "msg_content (reply_row m result n) = result"
  by (simp_all add: reply_row_def)

text \<open>
  C16: after a successful \<open>finish\<close> of a claimed job, \<open>get\<close> reports it done with the id of
  its reply, and \<open>reply\<close> of that id is the answer that was given to \<open>finish\<close>.
\<close>
theorem finished_job_is_answered:
  assumes wf: "db_wf db" and ok: "faults db = []" and rec: "recordable db i result"
    and m: "message_at db i = Some m" "is_job_row m" "document_payload m"
  shows "\<exists>db' j n. finish (MessageId i) (Success result) db = (Inr (), db') \<and>
    store_get (MessageId i) db' = (Inr (Some j), db') \<and> job_state j = Done \<and>
    job_content j = msg_content m \<and> job_reply_id j = Some n \<and> n \<noteq> MessageId i \<and>
    store_reply n db' = (Inr (Some result), db')"
proof -
  let ?n = "int (next_message_id db)"
  obtain db' where fin: "finish (MessageId i) (Success result) db = (Inr (), db')"
    and rr: "reply_recorded db i result ?n db'" and f: "faults db' = []"
    using finish_done_answered [OF wf ok rec] by blast
  obtain m0 where m0: "message_at db i = Some m0" "message_at db ?n = None"
    "\<And>j. message_at db' j = (if j = i then Some (done_row m0 ?n) else if j = ?n then Some (reply_row m0 result ?n)
       else message_at db j)"
    using rr unfolding reply_recorded_def by blast
  have eq: "m0 = m" using m0(1) m(1) by simp
  have ne: "?n \<noteq> i" using m0(2) m(1) by auto
  have "message_at db' i = Some (done_row m ?n)" "message_at db' ?n = Some (reply_row m result ?n)"
    using m0(3) ne eq by simp_all
  note at = this
  have range: "in_i64 ?n"
    using rec by (simp add: recordable_def int_max_def in_i64_def i64_min_def i64_max_def)
  have "store_get (MessageId i) db' = (Inr (Some (job_with_status (joined_row db' (done_row m ?n)) Done)), db')"
    by (rule store_get_answered [OF f at(1)]) (simp_all add: m(2))
  moreover have "store_reply (MessageId ?n) db' = (Inr (Some result), db')"
    using store_reply_answered [OF f at(2)] by simp
  ultimately show ?thesis
    using fin done_row_reply_id [OF m(3) range] ne
    by (intro exI [of _ db'] exI [of _ "job_with_status (joined_row db' (done_row m ?n)) Done"]
        exI [of _ "MessageId ?n"]) (simp add: done_row_def)
qed

theorem finished_job_is_answered_witness:
  "\<exists>db' j n. finish (MessageId 1) (Success ''ok'') (sample_db (Some ''pending'') []) = (Inr (), db') \<and>
    store_get (MessageId 1) db' = (Inr (Some j), db') \<and> job_state j = Done \<and>
    job_content j = ''a'' \<and> job_reply_id j = Some n \<and> n \<noteq> MessageId 1 \<and>
    store_reply n db' = (Inr (Some ''ok''), db')"
proof -
  have "recordable (sample_db (Some ''pending'') []) 1 ''ok''"
    by (simp add: recordable_def text_max_def int_max_def)
  from finished_job_is_answered [OF sample_db_wf _ this, of "sample_row 1 ''a'' (Some ''pending'')"]
  show ?thesis by (simp add: document_payload_def)
qed

text \<open>
  After \<open>finish\<close> with a failure, \<open>get\<close> reports the job failed with exactly that error.
\<close>
theorem failed_job_reports_error:
  assumes wf: "db_wf db" and ok: "faults db = []"
    and m: "message_at db i = Some m" "is_job_row m" "document_payload m" "msg_status m = to_db Pending"
  shows "\<exists>db' j. finish (MessageId i) (FailedOutcome err result) db = (Inr (), db') \<and>
    store_get (MessageId i) db' = (Inr (Some j), db') \<and> job_state j = Failed \<and> job_error j = Some err"
proof -
  let ?m = "m\<lparr>msg_status := to_db Failed,
    msg_payload := Some (set_failure err result (coalesce_object (msg_payload m)))\<rparr>"
  obtain db' where fin: "finish (MessageId i) (FailedOutcome err result) db = (Inr (), db')"
    and f: "faults db' = []" and at: "message_at db' i = Some ?m"
    using finish_failed_answered [OF wf ok m(1,4)] by metis
  have "store_get (MessageId i) db' = (Inr (Some (job_with_status (joined_row db' ?m) Failed)), db')"
    by (rule store_get_answered [OF f at]) (use m(2) in \<open>simp_all add: is_job_row_def\<close>)
  moreover have "job_error (job_with_status (joined_row db' ?m) Failed) = Some err"
    using m(3) by (cases "coalesce_object (msg_payload m)")
      (auto simp: job_with_status_def payload_get_def set_failure_def document_payload_def
        map_of_map_put map_wf_put split: option.split)
  ultimately show ?thesis using fin by fastforce
qed

theorem failed_job_reports_error_witness:
  "\<exists>db' j. finish (MessageId 1) (FailedOutcome ''e'' (Some ''r'')) (sample_db (Some ''pending'') []) = (Inr (), db') \<and>
    store_get (MessageId 1) db' = (Inr (Some j), db') \<and> job_state j = Failed \<and> job_error j = Some ''e''"
  using failed_job_reports_error [of "sample_db (Some ''pending'') []" 1 "sample_row 1 ''a'' (Some ''pending'')"
      "''e''" "Some ''r''"]
  by (simp add: document_payload_def)

text \<open>
  \<open>finish\<close> of a row that is not pending (never claimed, already finished, or put back)
  never reports success and changes nothing, for either outcome and whatever the driver
  reports; when the driver answers, the error is \<open>NotPending\<close>.
\<close>
theorem finish_requires_pending:
  assumes "db_wf db" and "\<forall>m. message_at db i = Some m \<longrightarrow> msg_status m \<noteq> to_db Pending"
    and "finish (MessageId i) o' db = (r, db')"
  shows "chats db' = chats db \<and> messages db' = messages db \<and> r \<noteq> Inr () \<and>
    (faults db = [] \<longrightarrow> r = Inl (NotPending (MessageId i)))"
  using finish_not_pending [OF assms] finish_not_pending_error [OF assms(1) _ assms(2), of o'] assms(3)
  by (simp add: same_tables_def)

theorem finish_requires_pending_witness:
  "\<exists>db'. finish (MessageId 1) (Success ''again'') (sample_db (Some ''done'') []) =
     (Inl (NotPending (MessageId 1)), db') \<and> messages db' = messages (sample_db (Some ''done'') [])"
proof -
  obtain r db' where run: "finish (MessageId 1) (Success ''again'') (sample_db (Some ''done'') []) = (r, db')"
    by (cases "finish (MessageId 1) (Success ''again'') (sample_db (Some ''done'') [])")
  with finish_requires_pending [OF sample_db_wf _ run] show ?thesis by simp
qed

text \<open>
  C28: with the database to itself, \<open>claim_next\<close> returns the unclaimed agentic user message
  with the smallest id, as a pending job, and marks exactly that row; when there is no
  such message it returns \<open>None\<close> and changes nothing.
\<close>
theorem claim_next_oldest:
  assumes wf: "db_wf db" and ok: "faults db = []"
  shows "(\<exists>m j db'. oldest_unclaimed db m \<and> claim_next no_rivals db = (Inr (Some j), db') \<and>
      job_id j = MessageId (msg_id m) \<and> job_content j = msg_content m \<and> job_state j = Pending \<and>
      (\<forall>k. message_at db' k =
        (if k = msg_id m then Some (m\<lparr>msg_status := to_db Pending\<rparr>) else message_at db k))) \<or>
    (filter is_unclaimed (messages db) = [] \<and> claim_next no_rivals db = (Inr None, db))"
proof (cases db rule: select_oldest_cases)
  case none
  then show ?thesis using claim_next_empty [OF ok none(2)] by (simp add: filter_empty_conv)
next
  case (some m)
  obtain db' where run: "claim_next no_rivals db =
       (Inr (Some (job_with_status (joined_row db' (m\<lparr>msg_status := to_db Pending\<rparr>)) Pending)), db')"
    and at: "\<And>k. message_at db' k =
       (if k = msg_id m then Some (m\<lparr>msg_status := to_db Pending\<rparr>) else message_at db k)"
    using claim_next_answered [OF wf ok some(2)] by blast
  show ?thesis
    using some(2) run at
    by (intro disjI1 exI [of _ m] exI [of _ db']
        exI [of _ "job_with_status (joined_row db' (m\<lparr>msg_status := to_db Pending\<rparr>)) Pending"]) simp
qed

theorem claim_next_oldest_witness:
  "\<exists>m j db'. oldest_unclaimed (sample_db None []) m \<and>
     claim_next no_rivals (sample_db None []) = (Inr (Some j), db') \<and> job_id j = MessageId (msg_id m)"
proof -
  have "filter is_unclaimed (messages (sample_db None [])) \<noteq> []" by (simp add: is_unclaimed_def)
  with claim_next_oldest [of "sample_db None []"] show ?thesis by auto
qed

text \<open>
  A message just inserted is read back by \<open>get\<close> as a new job with the chat and the
  content it was inserted with, and the requester its chat names.
\<close>
theorem inserted_job_is_new:
  assumes wf: "db_wf db" and ok: "faults db = []" and run: "store_insert chat content db = (Inr i, db')"
  shows "\<exists>j. store_get i db' = (Inr (Some j), db') \<and> job_id j = i \<and> job_chat j = chat \<and>
    job_content j = content \<and> job_state j = New \<and> job_reply_id j = None \<and> job_error j = None \<and>
    (\<exists>c. chat_at db (chat_raw chat) = Some c \<and>
      job_requester j = Some \<lparr>user_id = chat_user c, company_id = chat_company c, is_admin = False\<rparr>)"
proof -
  let ?n = "next_message_id db"
  let ?m = "\<lparr>msg_id = int ?n, msg_chat = chat_raw chat, msg_sender = User, msg_content = content,
         msg_agentic = Some 1, msg_payload = None, msg_status = None\<rparr>"
  have ins: "insert_message (chat_raw chat) User content (Some 1) None db = (Inr ?n, db')"
    and bound: "?n \<le> int_max" and chat: "chat_raw chat \<in> set (map chat_pk (chats db))"
    using run ok by (auto simp: store_insert_def on_pool_answered insert_message_def split: if_splits)
  have i: "i = MessageId (int ?n)"
    using run ins ok insert_id_small [OF bound] by (simp add: store_insert_def on_pool_answered)
  have at: "message_at db' (int ?n) = Some ?m" using message_at_insert(2) [OF wf ins] by simp
  have f: "faults db' = []" and ch: "chats db' = chats db" using insert_message_frame [OF ins] ok by auto
  obtain c where c: "chat_at db (chat_raw chat) = Some c"
    using chat by (cases "chat_at db (chat_raw chat)") (auto simp: chat_at_def find_None_iff)
  then have c': "chat_at db' (chat_raw chat) = Some c" by (simp add: chat_at_def ch)
  have "store_get i db' = (Inr (Some (job_with_status (joined_row db' ?m) New)), db')"
    unfolding i by (rule store_get_answered [OF f at]) (simp_all add: is_job_row_def)
  then show ?thesis
    by (intro exI [of _ "job_with_status (joined_row db' ?m) New"])
      (simp add: c i joined_row_def job_with_status_def payload_get_def payload_is_admin_def c')
qed

theorem inserted_job_is_new_witness:
  "\<exists>i db' j. store_insert (ChatId 7) ''hi'' (sample_db None []) = (Inr i, db') \<and>
     store_get i db' = (Inr (Some j), db') \<and> job_content j = ''hi'' \<and> job_state j = New"
proof -
  obtain i db' where run: "store_insert (ChatId 7) ''hi'' (sample_db None []) = (Inr i, db')"
    using insert_id_small [of 3]
    by (simp add: store_insert_def on_pool_answered insert_message_def text_max_def int_max_def)
  from inserted_job_is_new [OF sample_db_wf _ run] run show ?thesis by auto
qed

text \<open>What a requeue that succeeded has done, whatever the schedule of faults holds after it.\<close>

lemma requeued:
  assumes run: "requeue_pending db = (Inr n, db')"
  shows "n = length (filter (\<lambda>m. msg_status m = to_db Pending) (messages db))"
    and "message_at db' i =
      (if is_pending db i then map_option (\<lambda>m. m\<lparr>msg_status := to_db New\<rparr>) (message_at db i)
       else message_at db i)"
    and "\<not> is_pending db' i"
proof -
  from run have "execute requeue_rows db = (Inr n, db')"
    by (auto simp: requeue_pending_def on_pool_def split: prod.splits sum.splits)
  then obtain db1 where a: "pop_fault db = (Answered, db1)" "requeue_rows db1 = (Inr n, db')"
    by (auto elim: execute_cases)
  have same: "messages db1 = messages db" using a(1) by simp
  then show "n = length (filter (\<lambda>m. msg_status m = to_db Pending) (messages db))"
    using a(2) by (auto simp: requeue_rows_def update_messages_def)
  have "db' = snd (update_messages (\<lambda>m. msg_status m = to_db Pending) (\<lambda>m. m\<lparr>msg_status := None\<rparr>) db1)"
    using a(2) by (simp add: requeue_rows_def)
  then have upd: "message_at db' i =
      map_option (\<lambda>m. if msg_status m = to_db Pending then m\<lparr>msg_status := None\<rparr> else m) (message_at db i)"
    using message_at_update [of "\<lambda>m. m\<lparr>msg_status := None\<rparr>" "\<lambda>m. msg_status m = to_db Pending" db1 i] same
    by (simp add: message_at_def)
  show "message_at db' i =
      (if is_pending db i then map_option (\<lambda>m. m\<lparr>msg_status := to_db New\<rparr>) (message_at db i)
       else message_at db i)" "\<not> is_pending db' i"
    by (cases "message_at db i"; simp add: is_pending_iff upd)+
qed

text \<open>
  The start-up requeue leaves no message pending: the pending ones are new again with
  their text, and no other row changes; the count it returns is how many there were.
\<close>
theorem requeue_clears_pending:
  assumes wf: "db_wf db" and ok: "faults db = []" and run: "requeue_pending db = (r, db')"
  shows "r = Inr (length (filter (\<lambda>m. msg_status m = to_db Pending) (messages db))) \<and>
    (\<forall>i. \<not> is_pending db' i) \<and>
    (\<forall>i. message_at db' i =
      (if is_pending db i then map_option (\<lambda>m. m\<lparr>msg_status := to_db New\<rparr>) (message_at db i)
       else message_at db i))"
proof -
  obtain n where r: "r = Inr n"
    using run ok by (auto simp: requeue_pending_def on_pool_answered requeue_rows_def update_messages_def)
  show ?thesis using requeued [OF run [unfolded r]] r by simp
qed

theorem requeue_clears_pending_witness:
  "\<exists>db'. requeue_pending (sample_db (Some ''pending'') []) = (Inr 1, db') \<and> \<not> is_pending db' 1"
proof -
  obtain r db' where run: "requeue_pending (sample_db (Some ''pending'') []) = (r, db')"
    by (cases "requeue_pending (sample_db (Some ''pending'') [])")
  from requeue_clears_pending [OF sample_db_wf _ run] run show ?thesis by simp
qed

text \<open>
  C34: an answer longer than a MySQL \<open>TEXT\<close> column cannot be recorded: \<open>finish\<close> fails, nothing
  changes, and a claimed row stays \<open>pending\<close>.
\<close>
theorem oversized_answer_stays_pending:
  assumes "faults db = []" and "text_max < length result" and "is_pending db i"
  shows "\<exists>e db'. finish (MessageId i) (Success result) db = (Inl e, db') \<and>
    messages db' = messages db \<and> is_pending db' i"
proof -
  obtain e db' where run: "finish (MessageId i) (Success result) db = (Inl e, db')" and st: "same_tables db db'"
    using finish_done_too_long [OF assms(1,2), of i] by blast
  have same: "messages db' = messages db" using st by (simp add: same_tables_def)
  show ?thesis
    using run same assms(3) is_pending_cong [OF same, of i] by (intro exI [of _ e] exI [of _ db']) simp
qed

theorem oversized_answer_stays_pending_witness:
  "\<exists>e db'. finish (MessageId 1) (Success (replicate (Suc text_max) CHR ''x'')) (sample_db (Some ''pending'') []) =
     (Inl e, db') \<and> is_pending db' 1"
proof -
  have "is_pending (sample_db (Some ''pending'') []) 1" by (simp add: is_pending_def status_at_def)
  with oversized_answer_stays_pending [of "sample_db (Some ''pending'') []"
      "replicate (Suc text_max) CHR ''x''" 1]
  show ?thesis by (simp del: replicate_Suc) blast
qed

section \<open>Several workers\<close>

text \<open>
  C1: in every reachable state of several workers claiming, fetching and finishing on one
  table while messages are inserted and statements fail or lose their answers, a message
  is held by at most one worker, and it is pending while it is held.
\<close>
theorem one_worker_per_message:
  assumes "reachable claim_start claim_step s" and "holds s w i" and "holds s v i"
  shows "w = v \<and> is_pending (shared s) i"
  using claims.reachable_inv [OF assms(1)] claim_invD(2,3) assms(2,3) by blast

text \<open>Two workers read the same row; one of them wins it.\<close>

definition race :: "claim_pc \<Rightarrow> claim_pc \<Rightarrow> string option \<Rightarrow> claim_system" where
  "race p q st = \<lparr>shared = sample_db st [], pcs = (\<lambda>_. Idle)(0 := p, 1 := q)\<rparr>"

lemma race_moves:
  "moves (race p q st) 0 p' (sample_db st' []) = race p' q st'"
  "moves (race p q st) 1 q' (sample_db st' []) = race p q' st'"
  "shared (race p q st) = sample_db st []" "pcs (race p q st) 0 = p" "pcs (race p q st) 1 = q"
  by (simp_all add: race_def fun_upd_twist)

lemma sample_oldest: "oldest_unclaimed_id (sample_db None []) = (Inr (Some (MessageId 1)), sample_db None [])"
  by (simp add: oldest_unclaimed_id_def on_pool_answered select_oldest_def is_unclaimed_def)

lemma sample_claim: "try_claim (MessageId 1) (sample_db None []) = (Inr True, sample_db (Some ''pending'') [])"
  by (simp add: try_claim_def on_pool_answered claim_row_def update_messages_def is_unclaimed_def)
    (simp add: sample_db_def sample_row_def)

lemma claim_attempts_Suc: "claim_attempts = Suc 4"
  by (simp add: claim_attempts_def)

lemma race_reachable: "reachable claim_start claim_step (race (Fetching 1) (Racing 4 1) (Some ''pending''))"
proof -
  have "reachable claim_start claim_step (race Idle Idle None)"
    by (rule reachable_start) (simp add: claim_start_def race_def)
  then have "reachable claim_start claim_step (race (Selecting (Suc 4)) Idle None)"
    using claim_step.poll [of "race Idle Idle None" 0]
    by (simp only: race_moves claim_attempts_Suc reachable_step)
  then have "reachable claim_start claim_step (race (Selecting (Suc 4)) (Selecting (Suc 4)) None)"
    using claim_step.poll [of "race (Selecting (Suc 4)) Idle None" 1]
    by (simp only: race_moves claim_attempts_Suc reachable_step)
  then have "reachable claim_start claim_step (race (Racing 4 1) (Selecting (Suc 4)) None)"
    using claim_step.found [of "race (Selecting (Suc 4)) (Selecting (Suc 4)) None" 0 4 1 "sample_db None []"]
    by (simp only: race_moves sample_oldest reachable_step)
  then have "reachable claim_start claim_step (race (Racing 4 1) (Racing 4 1) None)"
    using claim_step.found [of "race (Racing 4 1) (Selecting (Suc 4)) None" 1 4 1 "sample_db None []"]
    by (simp only: race_moves sample_oldest reachable_step)
  then show ?thesis
    using claim_step.win [of "race (Racing 4 1) (Racing 4 1) None" 0 4 1 "sample_db (Some ''pending'') []"]
    by (simp only: race_moves sample_claim reachable_step)
qed

theorem one_worker_per_message_witness:
  "\<exists>s. reachable claim_start claim_step s \<and> holds s 0 1 \<and> \<not> holds s 1 1 \<and> is_pending (shared s) 1"
proof -
  let ?s = "race (Fetching 1) (Racing 4 1) (Some ''pending'')"
  have h: "holds ?s 0 1" by (simp add: holds_def race_moves)
  moreover have "\<not> holds ?s 1 1" using race_reachable h one_worker_per_message [of ?s 0 1 1] by auto
  moreover have "is_pending (shared ?s) 1" using one_worker_per_message [OF race_reachable h h] by simp
  ultimately show ?thesis using race_reachable by blast
qed

text \<open>A rival session that claims the oldest message right after it was read.\<close>

definition quick_rival :: "nat \<Rightarrow> database \<Rightarrow> database" where
  "quick_rival n db =
     (case select_oldest db of
        (Inr (Some i), db') \<Rightarrow> snd (claim_row i db')
      | (_, db') \<Rightarrow> db')"

lemma keeps_quick_rival: "keeps db (quick_rival n db)"
  by (cases db rule: select_oldest_cases) (simp_all add: quick_rival_def keeps_claim_row)

definition busy_db :: "nat \<Rightarrow> database" where
  "busy_db k =
     \<lparr>chats = [\<lparr>chat_pk = 7, chat_user = 3, chat_company = 2, chat_title = ''x''\<rparr>],
      messages = map (\<lambda>i. sample_row (int i) ''a'' (if i \<le> k then Some ''pending'' else None)) [1..<7],
      next_message_id = 7, faults = []\<rparr>"

lemma busy_db_rows:
  "messages (busy_db k) =
     [sample_row 1 ''a'' (if 1 \<le> k then Some ''pending'' else None),
      sample_row 2 ''a'' (if 2 \<le> k then Some ''pending'' else None),
      sample_row 3 ''a'' (if 3 \<le> k then Some ''pending'' else None),
      sample_row 4 ''a'' (if 4 \<le> k then Some ''pending'' else None),
      sample_row 5 ''a'' (if 5 \<le> k then Some ''pending'' else None),
      sample_row 6 ''a'' (if 6 \<le> k then Some ''pending'' else None)]"
  by (simp add: busy_db_def upt_conv_Cons)

lemma busy_attempt:
  assumes "k < 5"
  shows "oldest_unclaimed_id (busy_db k) = (Inr (Some (MessageId (int (Suc k)))), busy_db k)"
    and "quick_rival n (busy_db k) = busy_db (Suc k)"
    and "try_claim (MessageId (int (Suc k))) (busy_db (Suc k)) = (Inr False, busy_db (Suc k))"
proof -
  have f: "faults (busy_db j) = []" for j by (simp add: busy_db_def)
  from assms have k: "k = 0 \<or> k = 1 \<or> k = 2 \<or> k = 3 \<or> k = 4" by linarith
  have sel: "select_oldest (busy_db k) = (Inr (Some (int (Suc k))), busy_db k)"
    using k by (elim disjE) (simp_all add: select_oldest_def busy_db_rows is_unclaimed_def)
  then show "oldest_unclaimed_id (busy_db k) = (Inr (Some (MessageId (int (Suc k)))), busy_db k)"
    by (simp add: oldest_unclaimed_id_def on_pool_answered f)
  have "messages (snd (claim_row (int (Suc k)) (busy_db k))) = messages (busy_db (Suc k))"
    using k unfolding claim_row_def update_messages_def
    by (elim disjE) (simp_all add: busy_db_rows is_unclaimed_def sample_row_def is_job_row_def)
  then show "quick_rival n (busy_db k) = busy_db (Suc k)"
    using sel by (simp add: quick_rival_def claim_row_def update_messages_def busy_db_def)
  show "try_claim (MessageId (int (Suc k))) (busy_db (Suc k)) = (Inr False, busy_db (Suc k))"
    using k unfolding try_claim_def on_pool_answered [OF f] claim_row_def update_messages_def
    by (elim disjE) (simp_all add: busy_db_rows is_unclaimed_def)
qed

lemma busy_loop: "k + n \<le> 5 \<Longrightarrow> claim_loop quick_rival n (busy_db k) = (Inr None, busy_db (k + n))"
proof (induction n arbitrary: k)
  case 0
  then show ?case by simp
next
  case (Suc n)
  then have "k < 5" "Suc k + n \<le> 5" by simp_all
  then show ?case
    using Suc.IH [of "Suc k"]
    by (simp only: claim_loop.simps busy_attempt prod.case sum.case option.case bool.case add_Suc_shift)
qed

text \<open>
  \<open>claim_next\<close> may return \<open>None\<close> although there is a message to do: a rival session that
  wins each of the five attempts makes it give up while the sixth message is unclaimed.
\<close>
theorem claim_next_gives_up:
  "\<exists>db db' rivals. db_wf db \<and> faults db = [] \<and> (\<forall>n d. keeps d (rivals n d)) \<and>
     claim_next rivals db = (Inr None, db') \<and> (\<exists>m \<in> set (messages db'). is_unclaimed m)"
proof -
  have "db_wf (busy_db 0)" by (simp add: db_wf_def busy_db_rows, simp add: busy_db_def int_max_def)
  moreover have "claim_next quick_rival (busy_db 0) = (Inr None, busy_db 5)"
    using busy_loop [of 0 5] by (simp add: claim_next_def claim_attempts_def)
  moreover have "\<exists>m \<in> set (messages (busy_db 5)). is_unclaimed m"
    by (simp add: busy_db_rows is_unclaimed_def)
  moreover have "faults (busy_db 0) = []" by (simp add: busy_db_def)
  ultimately show ?thesis using keeps_quick_rival by blast
qed

end
