(* ===== verification/Utf8.thy ===== *)
theory Utf8
  imports Strings
begin

text \<open>
  Bytes that may not be UTF-8: file names and the output of a process.
  \<open>utf8_step\<close> is one step of the standard library's decoder (a character, or the
  longest prefix of one); \<open>OsStr::to_str\<close> is defined on \<open>utf8_valid\<close> bytes and
  \<open>String::from_utf8_lossy\<close> puts U+FFFD for every broken piece.
\<close>

definition byte_at :: "bytes \<Rightarrow> nat \<Rightarrow> nat" where
  "byte_at bs k = (if k < length bs then byte (bs ! k) else 0)"

definition cont_at :: "bytes \<Rightarrow> nat \<Rightarrow> bool" where
  "cont_at bs k \<longleftrightarrow> 128 \<le> byte_at bs k \<and> byte_at bs k < 192"

text \<open>Is the second byte right for a character of three or four bytes?\<close>

definition second3 :: "bytes \<Rightarrow> bool" where
  "second3 bs \<longleftrightarrow>
     (let a = byte_at bs 0; b = byte_at bs 1 in
      a = 224 \<and> 160 \<le> b \<and> b < 192 \<or> 225 \<le> a \<and> a \<le> 236 \<and> 128 \<le> b \<and> b < 192 \<or>
      a = 237 \<and> 128 \<le> b \<and> b < 160 \<or> 238 \<le> a \<and> a \<le> 239 \<and> 128 \<le> b \<and> b < 192)"

definition second4 :: "bytes \<Rightarrow> bool" where
  "second4 bs \<longleftrightarrow>
     (let a = byte_at bs 0; b = byte_at bs 1 in
      a = 240 \<and> 144 \<le> b \<and> b < 192 \<or> 241 \<le> a \<and> a \<le> 243 \<and> 128 \<le> b \<and> b < 192 \<or>
      a = 244 \<and> 128 \<le> b \<and> b < 144)"

definition utf8_step :: "bytes \<Rightarrow> bool \<times> nat" where
  "utf8_step bs =
     (let a = byte_at bs 0 in
      if a < 128 then (True, 1)
      else if 194 \<le> a \<and> a \<le> 223 then (if cont_at bs 1 then (True, 2) else (False, 1))
      else if 224 \<le> a \<and> a \<le> 239
      then (if \<not> second3 bs then (False, 1)
            else if \<not> cont_at bs 2 then (False, 2) else (True, 3))
      else if 240 \<le> a \<and> a \<le> 244
      then (if \<not> second4 bs then (False, 1)
            else if \<not> cont_at bs 2 then (False, 2)
            else if \<not> cont_at bs 3 then (False, 3) else (True, 4))
      else (False, 1))"

lemma utf8_step_pos: "0 < snd (utf8_step bs)"
  by (simp add: utf8_step_def Let_def)

text \<open>The pieces of a byte string, each with whether it is a character.\<close>

function utf8_pieces :: "bytes \<Rightarrow> (bool \<times> bytes) list" where
  "utf8_pieces [] = []"
| "utf8_pieces (c # cs) =
     (case utf8_step (c # cs) of
        (ok, n) \<Rightarrow> (ok, take n (c # cs)) # utf8_pieces (drop n (c # cs)))"
  by pat_completeness auto
termination
proof (relation "measure length")
  fix c cs ok n
  assume "(ok, n) = utf8_step (c # cs)"
  then have "0 < n" using utf8_step_pos [of "c # cs"] by (metis snd_conv)
  then show "(drop n (c # cs), c # cs) \<in> measure length" by simp
qed simp

definition utf8_valid :: "bytes \<Rightarrow> bool" where
  "utf8_valid bs \<longleftrightarrow> (\<forall>p \<in> set (utf8_pieces bs). fst p)"

definition to_str :: "bytes \<Rightarrow> string option" where
  "to_str bs = (if utf8_valid bs then Some bs else None)"

definition replacement_character :: string where
  "replacement_character = map char_of [239 :: nat, 191, 189]"

definition from_utf8_lossy :: "bytes \<Rightarrow> string" where
  "from_utf8_lossy bs =
     concat (map (\<lambda>(ok, p). if ok then p else replacement_character) (utf8_pieces bs))"

lemma concat_utf8_pieces: "concat (map snd (utf8_pieces bs)) = bs"
  by (induction bs rule: utf8_pieces.induct) (auto split: prod.split)

lemma from_utf8_lossy_valid: "utf8_valid bs \<Longrightarrow> from_utf8_lossy bs = bs"
proof -
  assume "utf8_valid bs"
  then have "map (\<lambda>(ok, p). if ok then p else replacement_character) (utf8_pieces bs) = map snd (utf8_pieces bs)"
    by (intro map_cong) (auto simp: utf8_valid_def)
  then show ?thesis unfolding from_utf8_lossy_def by (simp only: concat_utf8_pieces)
qed

lemma utf8_step_ascii: "byte c < 128 \<Longrightarrow> utf8_step (c # cs) = (True, 1)"
  by (simp add: utf8_step_def byte_at_def)

lemma utf8_valid_ascii: "\<forall>c \<in> set bs. byte c < 128 \<Longrightarrow> utf8_valid bs"
  by (induction bs) (auto simp: utf8_valid_def utf8_step_ascii)

end
