(* ===== verification/Workspace.thy ===== *)
theory Workspace
  imports Utf8 Job
begin

text \<open>
  \<open>src/workspace.rs\<close>: one throw-away directory per job under a dedicated root. The file
  system is a map from absolute paths to what is there; what the operating system may
  refuse is an environment that each operation consults.
\<close>

datatype node = Directory | OtherNode

type_synonym path = bytes
type_synonym fs = "(path \<times> node) list"

datatype io_error = IoError string

text \<open>\<open>WorkspaceError::Io { action, path, source }\<close>.\<close>

datatype workspace_error = WorkspaceIo (error_action: string) (error_path: path) (error_source: io_error)

text \<open>
  What the system answers: errors of \<open>create_dir_all\<close>, \<open>canonicalize\<close>, \<open>read_dir\<close>,
  \<open>create_dir\<close> and \<open>remove_dir_all\<close> by path; \<open>next_entry\<close> after a number of entries;
  whether \<open>file_type\<close> of an entry can be read; and what a failing \<open>remove_dir_all\<close> has
  deleted by then.
\<close>

record os =
  make_error :: "path \<Rightarrow> io_error option"
  canonical :: "path \<Rightarrow> io_error + path"
  read_error :: "path \<Rightarrow> io_error option"
  entry_error :: "nat \<Rightarrow> io_error option"
  type_known :: "path \<Rightarrow> bool"
  remove_error :: "path \<Rightarrow> io_error option"
  gone_anyway :: "path \<Rightarrow> bool"

datatype workspace_root = WorkspaceRoot (root_path: path)
datatype workspace = Workspace (workspace_path: path)

definition dir_prefix :: string where "dir_prefix = ''job-''"

text \<open>\<open>Path::join\<close> of a relative name.\<close>

definition path_join :: "path \<Rightarrow> bytes \<Rightarrow> path" where
  "path_join p name = (if p \<noteq> [] \<and> last p = CHR ''/'' then p @ name else p @ ''/'' @ name)"

definition fs_lookup :: "fs \<Rightarrow> path \<Rightarrow> node option" where
  "fs_lookup fs p = map_of fs p"

text \<open>\<open>remove_dir_all\<close> takes everything below the directory with it.\<close>

definition below :: "path \<Rightarrow> path \<Rightarrow> bool" where
  "below p q \<longleftrightarrow> q = p \<or> prefix (path_join p []) q"

definition remove_tree :: "path \<Rightarrow> fs \<Rightarrow> fs" where
  "remove_tree p fs = filter (\<lambda>(q, n). \<not> below p q) fs"

definition remove_dir_all :: "os \<Rightarrow> path \<Rightarrow> fs \<Rightarrow> (io_error + unit) \<times> fs" where
  "remove_dir_all os p fs =
     (case remove_error os p of
        Some e \<Rightarrow> (Inl e, filter (\<lambda>(q, n). \<not> (below p q \<and> gone_anyway os q)) fs)
      | None \<Rightarrow> if fs_lookup fs p = Some Directory then (Inr (), remove_tree p fs)
                else (Inl (IoError ''No such file or directory''), fs))"

definition create_dir :: "os \<Rightarrow> path \<Rightarrow> fs \<Rightarrow> (io_error + unit) \<times> fs" where
  "create_dir os p fs =
     (case make_error os p of
        Some e \<Rightarrow> (Inl e, fs)
      | None \<Rightarrow> if fs_lookup fs p \<noteq> None then (Inl (IoError ''File exists''), fs)
                else (Inr (), fs @ [(p, Directory)]))"

section \<open>The root\<close>

text \<open>
  \<open>create_dir_all\<close>: the directory and every missing one above it, outermost first; a file in the
  way is an error.
\<close>

definition ancestors :: "path \<Rightarrow> path list" where
  "ancestors p =
     map (\<lambda>k. take k p) (filter (\<lambda>k. 0 < k \<and> p ! k = CHR ''/'' \<and> p ! (k - 1) \<noteq> CHR ''/'') [0..<length p])"

definition dir_chain :: "path \<Rightarrow> path list" where
  "dir_chain p = ancestors p @ (if p = [] \<or> last p = CHR ''/'' then [] else [p])"

fun create_chain :: "os \<Rightarrow> path list \<Rightarrow> fs \<Rightarrow> (io_error + unit) \<times> fs" where
  "create_chain os [] fs = (Inr (), fs)"
| "create_chain os (q # qs) fs =
     (case fs_lookup fs q of
        Some Directory \<Rightarrow> create_chain os qs fs
      | Some OtherNode \<Rightarrow> (Inl (IoError (if qs = [] then ''File exists'' else ''Not a directory'')), fs)
      | None \<Rightarrow>
          (case make_error os q of
             Some e \<Rightarrow> (Inl e, fs)
           | None \<Rightarrow> create_chain os qs (fs @ [(q, Directory)])))"

definition prepare :: "os \<Rightarrow> path \<Rightarrow> fs \<Rightarrow> (workspace_error + workspace_root) \<times> fs" where
  "prepare os p fs =
     (case create_chain os (dir_chain p) fs of
        (Inl e, fs') \<Rightarrow> (Inl (WorkspaceIo ''creating workspace root'' p e), fs')
      | (Inr _, fs') \<Rightarrow>
          (case canonical os p of
             Inl e \<Rightarrow> (Inl (WorkspaceIo ''resolving workspace root'' p e), fs')
           | Inr absolute \<Rightarrow> (Inr (WorkspaceRoot absolute), fs')))"

text \<open>The names directly below the root, as \<open>read_dir\<close> lists them.\<close>

definition child_name :: "path \<Rightarrow> path \<Rightarrow> bytes option" where
  "child_name root p =
     (case strip_prefix (path_join root []) p of
        Some name \<Rightarrow> if name \<noteq> [] \<and> CHR ''/'' \<notin> set name then Some name else None
      | None \<Rightarrow> None)"

definition children :: "path \<Rightarrow> fs \<Rightarrow> bytes list" where
  "children root fs = List.map_filter (child_name root) (map fst fs)"

definition is_ours :: "bytes \<Rightarrow> bool" where
  "is_ours name = (case to_str name of None \<Rightarrow> False | Some s \<Rightarrow> prefix dir_prefix s)"

definition is_dir :: "os \<Rightarrow> fs \<Rightarrow> path \<Rightarrow> bool" where
  "is_dir os fs p \<longleftrightarrow> type_known os p \<and> fs_lookup fs p = Some Directory"

text \<open>The loop over the entries: \<open>k\<close> of them were read, \<open>removed\<close> directories deleted.\<close>

fun sweep_loop ::
  "os \<Rightarrow> path \<Rightarrow> nat \<Rightarrow> nat \<Rightarrow> bytes list \<Rightarrow> fs \<Rightarrow> (workspace_error + nat) \<times> fs" where
  "sweep_loop os root k removed [] fs =
     (case entry_error os k of
        Some e \<Rightarrow> (Inl (WorkspaceIo ''listing workspace root'' root e), fs)
      | None \<Rightarrow> (Inr removed, fs))"
| "sweep_loop os root k removed (name # rest) fs =
     (case entry_error os k of
        Some e \<Rightarrow> (Inl (WorkspaceIo ''listing workspace root'' root e), fs)
      | None \<Rightarrow>
          let p = path_join root name in
          if \<not> (is_ours name \<and> is_dir os fs p)
          then sweep_loop os root (Suc k) removed rest fs
          else (case remove_dir_all os p fs of
                  (Inr _, fs') \<Rightarrow> sweep_loop os root (Suc k) (Suc removed) rest fs'
                | (Inl _, fs') \<Rightarrow> sweep_loop os root (Suc k) removed rest fs'))"

definition sweep :: "os \<Rightarrow> workspace_root \<Rightarrow> fs \<Rightarrow> (workspace_error + nat) \<times> fs" where
  "sweep os root fs =
     (case read_error os (root_path root) of
        Some e \<Rightarrow> (Inl (WorkspaceIo ''listing workspace root'' (root_path root) e), fs)
      | None \<Rightarrow> sweep_loop os (root_path root) 0 0 (children (root_path root) fs) fs)"

section \<open>One job's directory\<close>

definition workspace_name :: "message_id \<Rightarrow> nat \<Rightarrow> string" where
  "workspace_name i nanos = dir_prefix @ show_message_id i @ ''-'' @ show_nat nanos"

text \<open>\<open>clock\<close> is the time since the epoch in nanoseconds, \<open>None\<close> before it.\<close>

definition create ::
  "os \<Rightarrow> nat option \<Rightarrow> workspace_root \<Rightarrow> message_id \<Rightarrow> fs \<Rightarrow> (workspace_error + workspace) \<times> fs" where
  "create os clock root i fs =
     (let nanos = (case clock of None \<Rightarrow> 0 | Some n \<Rightarrow> n);
          p = path_join (root_path root) (workspace_name i nanos)
      in case create_dir os p fs of
           (Inl e, fs') \<Rightarrow> (Inl (WorkspaceIo ''creating workspace'' p e), fs')
         | (Inr _, fs') \<Rightarrow> (Inr (Workspace p), fs'))"

definition remove :: "os \<Rightarrow> workspace \<Rightarrow> fs \<Rightarrow> (workspace_error + unit) \<times> fs" where
  "remove os w fs =
     (case remove_dir_all os (workspace_path w) fs of
        (Inl e, fs') \<Rightarrow> (Inl (WorkspaceIo ''removing workspace'' (workspace_path w) e), fs')
      | (Inr _, fs') \<Rightarrow> (Inr (), fs'))"

section \<open>Lookups\<close>

lemma lookup_filter:
  "fs_lookup (filter (\<lambda>(q, n). P q) fs) q = (if P q then fs_lookup fs q else None)"
  by (induction fs) (auto simp: fs_lookup_def)

lemma lookup_remove_tree [simp]:
  "fs_lookup (remove_tree p fs) q = (if below p q then None else fs_lookup fs q)"
  using lookup_filter [of "\<lambda>q. \<not> below p q" fs q] by (simp add: remove_tree_def)

lemma below_refl [simp]: "below p p"
  by (simp add: below_def)

text \<open>Whatever a removal answers, it only makes entries at or below its path disappear.\<close>

definition shrinks :: "(path \<Rightarrow> bool) \<Rightarrow> fs \<Rightarrow> fs \<Rightarrow> bool" where
  "shrinks P fs fs' \<longleftrightarrow>
     (\<forall>q. fs_lookup fs' q = fs_lookup fs q \<or> (fs_lookup fs' q = None \<and> P q))"

lemma shrinks_refl [simp]: "shrinks P fs fs"
  by (simp add: shrinks_def)

lemma shrinks_trans: "shrinks P a b \<Longrightarrow> shrinks P b c \<Longrightarrow> shrinks P a c"
  by (auto simp: shrinks_def) metis+

lemma shrinks_mono: "shrinks P a b \<Longrightarrow> (\<And>q. P q \<Longrightarrow> Q q) \<Longrightarrow> shrinks Q a b"
  by (auto simp: shrinks_def)

lemma remove_dir_all_shrinks: "shrinks (below p) fs (snd (remove_dir_all os p fs))"
  using lookup_filter [of "\<lambda>q. \<not> (below p q \<and> gone_anyway os q)" fs]
  by (auto simp: remove_dir_all_def shrinks_def split: option.split)

lemma remove_dir_all_ok:
  "remove_dir_all os p fs = (Inr u, fs') \<Longrightarrow>
   fs_lookup fs p = Some Directory \<and> fs' = remove_tree p fs"
  by (auto simp: remove_dir_all_def split: option.splits if_splits)

section \<open>The sweep\<close>

text \<open>What the sweep may delete: a directory \<open>job-*\<close> of the root and what is below it.\<close>

definition swept :: "path \<Rightarrow> fs \<Rightarrow> path \<Rightarrow> bool" where
  "swept root fs q \<longleftrightarrow>
     (\<exists>name. is_ours name \<and> fs_lookup fs (path_join root name) = Some Directory
        \<and> below (path_join root name) q)"

lemma swept_mono: "shrinks P fs fs' \<Longrightarrow> swept root fs' q \<Longrightarrow> swept root fs q"
  by (auto simp: swept_def shrinks_def) (metis option.distinct(1))

lemma sweep_loop_shrinks:
  "shrinks (swept root fs) fs (snd (sweep_loop os root k removed names fs))"
proof (induction names arbitrary: k removed fs)
  case Nil
  then show ?case by (simp split: option.split)
next
  case (Cons name rest)
  let ?p = "path_join root name"
  show ?case
  proof (cases "entry_error os k = None \<and> is_ours name \<and> is_dir os fs ?p")
    case False
    then show ?thesis using Cons.IH by (auto simp: Let_def split: option.split)
  next
    case True
    obtain x fs' where rm: "remove_dir_all os ?p fs = (x, fs')" by (cases "remove_dir_all os ?p fs")
    have one: "shrinks (swept root fs) fs fs'"
      using remove_dir_all_shrinks [of ?p fs os] rm True
      by (auto intro!: shrinks_mono [of "below ?p"] simp: swept_def is_dir_def)
    have "shrinks (swept root fs) fs' (snd (sweep_loop os root (Suc k) r rest fs'))" for r
      using Cons.IH swept_mono [OF one] by (rule shrinks_mono)
    then have "shrinks (swept root fs) fs (snd (sweep_loop os root (Suc k) r rest fs'))" for r
      using one shrinks_trans by blast
    then show ?thesis using True rm by (simp split: sum.split)
  qed
qed

text \<open>A sweep that meets no error: every \<open>job-*\<close> directory listed is gone, and counted.\<close>

definition calm :: "os \<Rightarrow> bool" where
  "calm os \<longleftrightarrow> (\<forall>k. entry_error os k = None) \<and> (\<forall>p. read_error os p = None \<and> remove_error os p = None
     \<and> type_known os p)"

lemma strip_path_join: "path_join root name = path_join root [] @ name"
  by (auto simp: path_join_def)

lemma path_join_inj [simp]: "path_join root a = path_join root b \<longleftrightarrow> a = b"
  by (subst (1 2) strip_path_join) simp

lemma siblings_not_below:
  assumes a: "a \<noteq> []" and b: "CHR ''/'' \<notin> set b" and below: "below (path_join root a) (path_join root b)"
  shows "b = a"
proof (rule ccontr)
  assume ne: "b \<noteq> a"
  have join: "path_join (path_join root a) [] = path_join root [] @ path_join a []"
    using a by (simp add: path_join_def)
  have "prefix (path_join (path_join root a) []) (path_join root b)"
    using below ne by (simp add: below_def)
  then have "prefix (path_join a []) b"
    unfolding join strip_path_join [of root b] by simp
  moreover have "CHR ''/'' \<in> set (path_join a [])"
  proof (cases "last a = CHR ''/''")
    case True
    then show ?thesis using last_in_set [OF a] by (simp add: path_join_def)
  qed (simp add: path_join_def)
  ultimately show False using b set_mono_prefix by blast
qed

lemma calm_remove:
  "calm os \<Longrightarrow> fs_lookup fs p = Some Directory \<Longrightarrow> remove_dir_all os p fs = (Inr (), remove_tree p fs)"
  by (simp add: calm_def remove_dir_all_def)

definition stale :: "path \<Rightarrow> fs \<Rightarrow> bytes \<Rightarrow> bool" where
  "stale root fs name \<longleftrightarrow> is_ours name \<and> fs_lookup fs (path_join root name) = Some Directory"

lemma is_ours_nonempty: "is_ours name \<Longrightarrow> name \<noteq> []"
  by (auto simp: is_ours_def dir_prefix_def split: option.splits)
    (auto simp: to_str_def split: if_splits)

lemma stale_remove_sibling:
  "is_ours name \<Longrightarrow> CHR ''/'' \<notin> set other \<Longrightarrow> other \<noteq> name \<Longrightarrow>
   stale root (remove_tree (path_join root name) fs) other = stale root fs other"
  using siblings_not_below [of name other root] is_ours_nonempty [of name] by (auto simp: stale_def)

lemma sweep_loop_calm:
  assumes "calm os" and "distinct names" and "\<forall>n \<in> set names. CHR ''/'' \<notin> set n"
  shows "\<exists>fs'. sweep_loop os root k removed names fs =
      (Inr (removed + length (filter (stale root fs) names)), fs') \<and>
    (\<forall>n \<in> set names. \<not> stale root fs' n)"
  using assms(2,3)
proof (induction names arbitrary: k removed fs)
  case Nil
  then show ?case using assms(1) by (simp add: calm_def)
next
  case (Cons name rest)
  let ?p = "path_join root name"
  have calm: "entry_error os k = None" "type_known os ?p" using assms(1) by (auto simp: calm_def)
  show ?case
  proof (cases "stale root fs name")
    case False
    then have step: "sweep_loop os root k removed (name # rest) fs = sweep_loop os root (Suc k) removed rest fs"
      using calm by (auto simp: stale_def is_dir_def)
    obtain fs' where fs': "sweep_loop os root (Suc k) removed rest fs =
        (Inr (removed + length (filter (stale root fs) rest)), fs')" "\<forall>n \<in> set rest. \<not> stale root fs' n"
      using Cons by fastforce
    have "shrinks (swept root fs) fs fs'"
      using sweep_loop_shrinks [of root fs os "Suc k" removed rest] fs'(1) by simp
    then have "\<not> stale root fs' name"
      using False by (auto simp: stale_def shrinks_def) (metis option.distinct(1))
    with step fs' False show ?thesis by auto
  next
    case True
    let ?fs = "remove_tree ?p fs"
    have step: "sweep_loop os root k removed (name # rest) fs = sweep_loop os root (Suc k) (Suc removed) rest ?fs"
      using True calm calm_remove [OF assms(1), of fs ?p] by (simp add: stale_def is_dir_def)
    obtain fs' where fs': "sweep_loop os root (Suc k) (Suc removed) rest ?fs =
        (Inr (Suc removed + length (filter (stale root ?fs) rest)), fs')" "\<forall>n \<in> set rest. \<not> stale root fs' n"
      using Cons by fastforce
    have "filter (stale root ?fs) rest = filter (stale root fs) rest"
    proof (rule filter_cong [OF refl])
      fix x
      assume "x \<in> set rest"
      then have "CHR ''/'' \<notin> set x" "x \<noteq> name" using Cons.prems by auto
      moreover have "is_ours name" using True by (simp add: stale_def)
      ultimately show "stale root ?fs x = stale root fs x" by (intro stale_remove_sibling)
    qed
    moreover have "\<not> stale root fs' name"
      using sweep_loop_shrinks [of root ?fs os "Suc k" "Suc removed" rest] fs'(1)
      by (auto simp: stale_def shrinks_def) (metis below_refl lookup_remove_tree option.distinct(1))
    ultimately show ?thesis using step fs' True by auto
  qed
qed

section \<open>The chain of directories\<close>

lemma create_chain_keeps:
  "fs_lookup fs q \<noteq> None \<Longrightarrow> fs_lookup (snd (create_chain os qs fs)) q = fs_lookup fs q"
  by (induction os qs fs rule: create_chain.induct)
    (auto simp: fs_lookup_def map_add_def split: option.splits node.splits)

lemma create_chain_distinct:
  "distinct (map fst fs) \<Longrightarrow> distinct (map fst (snd (create_chain os qs fs)))"
  by (induction os qs fs rule: create_chain.induct)
    (auto simp: fs_lookup_def map_of_eq_None_iff split: option.splits node.splits)

section \<open>Fresh directories\<close>

lemma workspace_name_inj:
  assumes "workspace_name i m = workspace_name j n"
  shows "i = j \<and> m = n"
proof -
  have no_dash: "CHR ''-'' \<notin> set (show_nat k)" for k
    using show_nat_digits [of k] digit_not_sign by blast
  have "rev (show_nat m) @ CHR ''-'' # rev (show_message_id i) = rev (show_nat n) @ CHR ''-'' # rev (show_message_id j)"
    using arg_cong [OF assms, of rev] by (simp add: workspace_name_def)
  then have "split_once CHR ''-'' (rev (show_nat m) @ CHR ''-'' # rev (show_message_id i)) =
      split_once CHR ''-'' (rev (show_nat n) @ CHR ''-'' # rev (show_message_id j))" by simp
  then have "show_nat m = show_nat n \<and> show_message_id i = show_message_id j"
    using no_dash split_once_Some_iff
    by (metis append_self_conv option.inject prod.inject rev_rev_ident set_rev)
  then show ?thesis
    by (simp add: show_nat_inj show_message_id_def show_int_inj message_id.expand)
qed

lemma show_message_id_chars: "c \<in> set (show_message_id i) \<Longrightarrow> is_ascii_digit c \<or> c = CHR ''-''"
  using show_nat_digits by (auto simp: show_message_id_def show_int_def split: if_splits)

lemma workspace_name_chars:
  "c \<in> set (workspace_name i n) \<Longrightarrow> byte c < 128 \<and> c \<noteq> CHR ''/''"
proof -
  have dig: "is_ascii_digit c \<Longrightarrow> byte c < 128 \<and> c \<noteq> CHR ''/''" for c
    using digit_not_sign [of c] by (simp add: is_ascii_digit_def)
  assume "c \<in> set (workspace_name i n)"
  then consider "c \<in> set dir_prefix" | "c = CHR ''-''" | "is_ascii_digit c"
    using show_message_id_chars show_nat_digits by (auto simp: workspace_name_def)
  then show ?thesis
    by cases (use dig in \<open>auto simp: dir_prefix_def byte_def\<close>)
qed

lemma workspace_name_ours: "is_ours (workspace_name i n)"
proof -
  have "utf8_valid (workspace_name i n)"
    using workspace_name_chars by (intro utf8_valid_ascii) blast
  then show ?thesis by (simp add: is_ours_def to_str_def workspace_name_def)
qed

lemma child_name_join: "name \<noteq> [] \<Longrightarrow> CHR ''/'' \<notin> set name \<Longrightarrow> child_name root (path_join root name) = Some name"
  by (subst strip_path_join) (simp add: child_name_def)

lemma create_result:
  assumes "create os clock root i fs = (Inr w, fs')"
  defines "n \<equiv> (case clock of None \<Rightarrow> 0 | Some n \<Rightarrow> n)"
  shows "workspace_path w = path_join (root_path root) (workspace_name i n)"
    and "fs_lookup fs (workspace_path w) = None"
    and "fs_lookup fs' q = (if q = workspace_path w then Some Directory else fs_lookup fs q)"
proof -
  from assms(1) show p: "workspace_path w = path_join (root_path root) (workspace_name i n)"
    by (auto simp: create_def Let_def n_def split: prod.splits sum.splits)
  from assms(1) have "create_dir os (workspace_path w) fs = (Inr (), fs')"
    using p by (auto simp: create_def Let_def n_def split: prod.splits sum.splits)
  then show new: "fs_lookup fs (workspace_path w) = None"
    and "fs_lookup fs' q = (if q = workspace_path w then Some Directory else fs_lookup fs q)"
    by (auto simp: create_dir_def fs_lookup_def map_add_def split: option.splits if_splits)
qed

section \<open>Properties\<close>

text \<open>
  C30: whatever the operating system answers and however the sweep ends, it never creates or
  alters an entry, and the entries it makes disappear are the \<open>job-*\<close> directories of the
  root and what is below them.
\<close>
theorem sweep_touches_only_job_directories:
  "fs_lookup (snd (sweep os root fs)) q = fs_lookup fs q \<or>
   (fs_lookup (snd (sweep os root fs)) q = None \<and>
    (\<exists>name. is_ours name \<and> fs_lookup fs (path_join (root_path root) name) = Some Directory \<and>
       below (path_join (root_path root) name) q))"
  using sweep_loop_shrinks [of "root_path root" fs os 0 0 "children (root_path root) fs"]
  by (auto simp: sweep_def shrinks_def swept_def split: option.split)

lemma children_spec:
  "n \<in> set (children root fs) \<longleftrightarrow> n \<noteq> [] \<and> CHR ''/'' \<notin> set n \<and> path_join root n \<in> fst ` set fs"
proof -
  have "child_name root p = Some n \<longleftrightarrow> p = path_join root n \<and> n \<noteq> [] \<and> CHR ''/'' \<notin> set n" for p
    using strip_path_join [of root n]
    by (auto simp: child_name_def strip_prefix_Some_iff split: option.splits if_splits)
  note name = this
  have "n \<in> set (children root fs) \<longleftrightarrow> (\<exists>p \<in> fst ` set fs. child_name root p = Some n)"
    unfolding children_def map_filter_def by (force simp: image_iff)
  then show ?thesis by (simp add: name) blast
qed

lemma distinct_children: "distinct (map fst fs) \<Longrightarrow> distinct (children root fs)"
proof (induction fs)
  case Nil
  then show ?case by (simp add: children_def map_filter_def)
next
  case (Cons e fs)
  have "n \<notin> set (children root fs)" if "child_name root (fst e) = Some n" for n
  proof -
    have "fst e = path_join root n"
      using that strip_path_join [of root n]
      by (auto simp: child_name_def strip_prefix_Some_iff split: option.splits if_splits)
    then show ?thesis using Cons.prems by (auto simp: children_spec)
  qed
  with Cons show ?case
    by (auto simp: children_def map_filter_def split: option.splits)
qed

text \<open>
  A sweep during which the system refuses nothing leaves no \<open>job-*\<close> directory in the root
  and returns how many there were.
\<close>
theorem sweep_removes_all_stale:
  assumes "calm os" and "distinct (map fst fs)"
  shows "\<exists>fs'. sweep os root fs =
      (Inr (length (filter (stale (root_path root) fs) (children (root_path root) fs))), fs') \<and>
    (\<forall>n \<in> set (children (root_path root) fs). \<not> stale (root_path root) fs' n)"
  using sweep_loop_calm [OF assms(1) distinct_children [OF assms(2)], of "root_path root" "root_path root" 0 0 fs]
    assms(1) by (auto simp: sweep_def calm_def children_spec)

definition sample_os :: os where
  "sample_os = \<lparr>make_error = (\<lambda>_. None), canonical = Inr, read_error = (\<lambda>_. None), entry_error = (\<lambda>_. None),
     type_known = (\<lambda>_. True), remove_error = (\<lambda>_. None), gone_anyway = (\<lambda>_. False)\<rparr>"

definition sample_fs :: fs where
  "sample_fs = [(''/w'', Directory), (''/w/keep'', Directory), (''/w/job-1-5'', Directory), (''/w/job-1-5/a'', OtherNode)]"

theorem sweep_removes_all_stale_witness:
  "\<exists>n fs'. sweep sample_os (WorkspaceRoot ''/w'') sample_fs = (Inr n, fs') \<and> \<not> stale ''/w'' fs' ''job-1-5''"
proof -
  have "calm sample_os" "distinct (map fst sample_fs)"
    by (simp_all add: calm_def sample_os_def sample_fs_def)
  moreover have "''job-1-5'' \<in> set (children ''/w'' sample_fs)"
    by (simp add: children_spec sample_fs_def path_join_def)
  ultimately show ?thesis
    using sweep_removes_all_stale [of sample_os sample_fs "WorkspaceRoot ''/w''"] by auto
qed


lemma show_digits: "show_nat 4 = ''4''" "show_nat 9 = ''9''"
  by code_simp+


end
