(* ===== verification/Claude.thy ===== *)
theory Claude
  imports Prompts Workspace
begin

text \<open>
  \<open>src/claude.rs\<close>: the command line and environment a job's \<open>claude\<close> process is started
  with, the report it prints, and how a run ends. Printing of JSON and of floats is a
  parameter (\<open>render\<close>, \<open>show_float\<close>), as are \<open>serde_json\<close>'s parser and messages.
\<close>

section \<open>Modes\<close>

datatype permission_mode = AcceptEdits | BypassPermissions
datatype unknown_permission_mode = UnknownPermissionMode string

fun permission_cli :: "permission_mode \<Rightarrow> string" where
  "permission_cli AcceptEdits = ''acceptEdits''"
| "permission_cli BypassPermissions = ''bypassPermissions''"

definition permission_from_str :: "string \<Rightarrow> unknown_permission_mode + permission_mode" where
  "permission_from_str raw =
     (if raw = ''acceptEdits'' then Inr AcceptEdits
      else if raw = ''bypassPermissions'' then Inr BypassPermissions
      else Inl (UnknownPermissionMode raw))"

datatype effort = LowEffort | MediumEffort | HighEffort | XHighEffort | MaxEffort
datatype unknown_effort = UnknownEffort string

fun effort_cli :: "effort \<Rightarrow> string" where
  "effort_cli LowEffort = ''low''"
| "effort_cli MediumEffort = ''medium''"
| "effort_cli HighEffort = ''high''"
| "effort_cli XHighEffort = ''xhigh''"
| "effort_cli MaxEffort = ''max''"

definition effort_from_str :: "string \<Rightarrow> unknown_effort + effort" where
  "effort_from_str raw =
     (if raw = ''low'' then Inr LowEffort
      else if raw = ''medium'' then Inr MediumEffort
      else if raw = ''high'' then Inr HighEffort
      else if raw = ''xhigh'' then Inr XHighEffort
      else if raw = ''max'' then Inr MaxEffort
      else Inl (UnknownEffort raw))"

interpretation permission_codec: strict_codec permission_cli permission_from_str
proof unfold_locales
  show "permission_from_str (permission_cli m) = Inr m" for m
    by (cases m) (auto simp: permission_from_str_def)
  show "permission_from_str t = Inr m \<Longrightarrow> t = permission_cli m" for t m
    by (auto simp: permission_from_str_def split: if_splits)
qed

interpretation effort_codec: strict_codec effort_cli effort_from_str
proof unfold_locales
  show "effort_from_str (effort_cli m) = Inr m" for m
    by (cases m) (auto simp: effort_from_str_def)
  show "effort_from_str t = Inr m \<Longrightarrow> t = effort_cli m" for t m
    by (auto simp: effort_from_str_def split: if_splits)
qed

section \<open>Configuration\<close>

record claude_config =
  binary :: path
  model :: "string option"
  max_turns :: nat
  max_budget_usd :: "f64 option"
  timeout_secs :: nat
  permission_mode :: permission_mode
  effort :: effort
  allowed_domains :: "string list"
  persist_sessions :: bool
  config_dir :: "path option"
  mcp_config :: "path option"
  jobctl_mcp :: "path option"
  agent_database_url :: "string option"

definition default_claude_config :: claude_config where
  "default_claude_config =
     \<lparr>binary = ''claude'', model = None, max_turns = 50, max_budget_usd = None,
      timeout_secs = 30 * 60, permission_mode = AcceptEdits, effort = LowEffort,
      allowed_domains = [], persist_sessions = False, config_dir = None, mcp_config = None,
      jobctl_mcp = None, agent_database_url = None\<rparr>"

definition settings_value :: "claude_config \<Rightarrow> json" where
  "settings_value cfg =
     (let allow = [''Read(//**)''] @
        (if jobctl_mcp cfg \<noteq> None then [''mcp__'' @ jobctl_mcp_name] else []) in
      json_object
        [(''sandbox'', json_object
           [(''enabled'', JBool True), (''autoAllowBashIfSandboxed'', JBool True),
            (''allowUnsandboxedCommands'', JBool False), (''failIfUnavailable'', JBool True),
            (''network'', json_object [(''allowedDomains'', JArray (map JString (allowed_domains cfg)))])]),
         (''permissions'', json_object
           [(''defaultMode'', JString (permission_cli (permission_mode cfg))),
            (''allow'', JArray (map JString allow))])])"

definition settings_json :: "(json \<Rightarrow> string) \<Rightarrow> claude_config \<Rightarrow> string" where
  "settings_json render cfg = render (settings_value cfg)"

section \<open>The command\<close>

text \<open>\<open>std::process::Command\<close>: the environment changes apply in order to the inherited one.\<close>

datatype env_change = EnvSet string | EnvRemove

record process_command =
  program :: path
  command_args :: "bytes list"
  command_cwd :: path
  env_changes :: "(string \<times> env_change) list"

fun apply_change :: "string \<times> env_change \<Rightarrow> (string \<rightharpoonup> string) \<Rightarrow> (string \<rightharpoonup> string)" where
  "apply_change (k, EnvSet v) env = env(k \<mapsto> v)"
| "apply_change (k, EnvRemove) env = env(k := None)"

definition child_env :: "(string \<rightharpoonup> string) \<Rightarrow> process_command \<Rightarrow> (string \<rightharpoonup> string)" where
  "child_env inherited cmd = fold apply_change (env_changes cmd) inherited"

text \<open>\<open>src/qbo.rs\<close>: what a job gets to know about QuickBooks.\<close>

datatype qbo_job_access =
    Connected (realm_id: string) (access_token: string) (api_base: string)
  | Unavailable string

definition qbo_env :: "string \<Rightarrow> string \<Rightarrow> string \<Rightarrow> requester \<Rightarrow> (string \<times> env_change) list" where
  "qbo_env realm token base r =
     [(''QBO_ACCESS_TOKEN'', EnvSet token), (''QBO_REALM_ID'', EnvSet realm),
      (''QBO_API_BASE'', EnvSet base), (''QBO_COMPANY_ID'', EnvSet (show_int (company_id r))),
      (''QBO_USER_ID'', EnvSet (show_int (user_id r))),
      (''QBO_REQUESTER_IS_ADMIN'', EnvSet (if is_admin r then ''1'' else ''0''))]"

definition qbo_unavailable_prompt :: "string \<Rightarrow> string" where
  "qbo_unavailable_prompt reason =
     ''QuickBooks (invoices, payments) is not available for this question: '' @ reason @
     '' If the user asks about QuickBooks data, tell them so.''"

text \<open>
  The \<open>match (qbo, requester, jobctl_mcp.is_some())\<close>: what it adds to the environment and
  to the system prompt.
\<close>

definition qbo_part ::
  "qbo_job_access option \<Rightarrow> requester option \<Rightarrow> bool \<Rightarrow> (string \<times> env_change) list \<times> string list" where
  "qbo_part qbo req mcp =
     (case (qbo, req, mcp) of
        (Some (Connected realm token base), Some r, True) \<Rightarrow>
          (qbo_env realm token base r, [qbo_system_prompt (is_admin r)])
      | (Some (Unavailable reason), Some r, True) \<Rightarrow> ([], [qbo_unavailable_prompt reason])
      | _ \<Rightarrow> ([], []))"

definition opt_args :: "bytes \<Rightarrow> bytes option \<Rightarrow> bytes list" where
  "opt_args flag v = (case v of None \<Rightarrow> [] | Some x \<Rightarrow> [flag, x])"

definition jobctl_servers :: "path \<Rightarrow> json" where
  "jobctl_servers jobctl =
     json_object [(''mcpServers'',
       json_object [(jobctl_mcp_name, json_object [(''command'', JString jobctl), (''args'', JArray [])])])]"

definition system_prompt ::
  "claude_config \<Rightarrow> requester option \<Rightarrow> qbo_job_access option \<Rightarrow> string list" where
  "system_prompt cfg req qbo =
     (if jobctl_mcp cfg \<noteq> None \<and> agent_database_url cfg \<noteq> None then [db_system_prompt] else []) @
     (case req of None \<Rightarrow> [] | Some r \<Rightarrow> [requester_system_prompt r]) @
     snd (qbo_part qbo req (jobctl_mcp cfg \<noteq> None))"

definition command_with_qbo ::
  "(json \<Rightarrow> string) \<Rightarrow> (f64 \<Rightarrow> string) \<Rightarrow> claude_config \<Rightarrow> path \<Rightarrow> requester option \<Rightarrow>
   qbo_job_access option \<Rightarrow> process_command" where
  "command_with_qbo render show_float cfg workspace req qbo =
     \<lparr>program = binary cfg,
      command_args =
        [''--print'', ''--output-format'', ''json'',
         ''--permission-mode'', permission_cli (permission_mode cfg),
         ''--effort'', effort_cli (effort cfg),
         ''--max-turns'', show_nat (max_turns cfg),
         ''--settings'', settings_json render cfg] @
        opt_args ''--model'' (model cfg) @
        opt_args ''--max-budget-usd'' (map_option show_float (max_budget_usd cfg)) @
        (if persist_sessions cfg then [] else [''--no-session-persistence'']) @
        opt_args ''--mcp-config'' (mcp_config cfg) @
        (case jobctl_mcp cfg of
           Some jobctl \<Rightarrow> [''--mcp-config'', render (jobctl_servers jobctl)]
         | None \<Rightarrow>
             if mcp_config cfg = None then [''--mcp-config'', ''{\"mcpServers\":{}}''] else []) @
        [''--strict-mcp-config''] @
        (if system_prompt cfg req qbo = [] then []
         else [''--append-system-prompt'', join blank_line (system_prompt cfg req qbo)]),
      command_cwd = workspace,
      env_changes =
        map (\<lambda>name. (name, EnvRemove)) (runner_only_env @ qbo_job_env) @
        fst (qbo_part qbo req (jobctl_mcp cfg \<noteq> None)) @
        [(''CLAUDECODE'', EnvRemove), (''DISABLE_AUTOUPDATER'', EnvSet ''1''),
         (''CLAUDE_CODE_DISABLE_NONESSENTIAL_TRAFFIC'', EnvSet ''1'')] @
        (case config_dir cfg of None \<Rightarrow> [] | Some dir \<Rightarrow> [(''CLAUDE_CONFIG_DIR'', EnvSet dir)]) @
        [(''DATABASE_URL'', EnvRemove)] @
        (case agent_database_url cfg of None \<Rightarrow> [] | Some url \<Rightarrow> [(''DATABASE_URL'', EnvSet url)])\<rparr>"

definition command ::
  "(json \<Rightarrow> string) \<Rightarrow> (f64 \<Rightarrow> string) \<Rightarrow> claude_config \<Rightarrow> path \<Rightarrow> requester option \<Rightarrow> process_command" where
  "command render show_float cfg workspace req = command_with_qbo render show_float cfg workspace req None"

section \<open>What reaches the job\<close>

lemma child_env_lookup:
  "child_env inherited cmd k =
     (case map_of (rev (env_changes cmd)) k of
        None \<Rightarrow> inherited k
      | Some (EnvSet v) \<Rightarrow> Some v
      | Some EnvRemove \<Rightarrow> None)"
proof -
  have "fold apply_change cs env k =
     (case map_of (rev cs) k of
        None \<Rightarrow> env k
      | Some (EnvSet v) \<Rightarrow> Some v
      | Some EnvRemove \<Rightarrow> None)" for cs env
  proof (induction cs arbitrary: env)
    case Nil
    then show ?case by simp
  next
    case (Cons c cs)
    obtain n x where c: "c = (n, x)" by (cases c)
    show ?case
      by (cases x) (auto simp: c Cons.IH map_add_def split: option.split env_change.split)
  qed
  then show ?thesis by (simp add: child_env_def)
qed

lemma qbo_part_env:
  "fst (qbo_part qbo req mcp) =
     (case (qbo, req, mcp) of
        (Some (Connected realm token base), Some r, True) \<Rightarrow> qbo_env realm token base r
      | _ \<Rightarrow> [])"
  by (auto simp: qbo_part_def split: option.split qbo_job_access.split bool.split)

text \<open>The last word on each variable.\<close>

lemma job_env_lookup:
  "map_of (rev (env_changes (command_with_qbo render show_float cfg ws req qbo))) k =
     (if k = ''DATABASE_URL''
      then Some (case agent_database_url cfg of None \<Rightarrow> EnvRemove | Some url \<Rightarrow> EnvSet url)
      else if k = ''CLAUDE_CONFIG_DIR'' \<and> config_dir cfg \<noteq> None then map_option EnvSet (config_dir cfg)
      else if k = ''CLAUDE_CODE_DISABLE_NONESSENTIAL_TRAFFIC'' then Some (EnvSet ''1'')
      else if k = ''DISABLE_AUTOUPDATER'' then Some (EnvSet ''1'')
      else if k = ''CLAUDECODE'' then Some EnvRemove
      else (case map_of (rev (fst (qbo_part qbo req (jobctl_mcp cfg \<noteq> None)))) k of
              Some c \<Rightarrow> Some c
            | None \<Rightarrow> if k \<in> set (runner_only_env @ qbo_job_env) then Some EnvRemove else None))"
proof -
  have removed: "map_of (rev (map (\<lambda>n. (n, EnvRemove)) ns)) k = (if k \<in> set ns then Some EnvRemove else None)"
    for ns :: "string list"
    by (induction ns) (auto simp: map_add_def split: option.split)
  show ?thesis
    unfolding command_with_qbo_def
    by (simp add: map_add_def removed split: option.split)
qed

lemma qbo_env_keys: "map fst (qbo_env realm token base r) = qbo_job_env"
  by (simp add: qbo_env_def qbo_job_env_def)

lemma qbo_part_cases:
  obtains "fst (qbo_part qbo req mcp) = []"
      "\<not> (\<exists>realm token base r. qbo = Some (Connected realm token base) \<and> req = Some r \<and> mcp)"
    | realm token base r where "fst (qbo_part qbo req mcp) = qbo_env realm token base r"
      "qbo = Some (Connected realm token base)" "req = Some r" "mcp"
  unfolding qbo_part_env
  by (cases "\<exists>realm token base r. qbo = Some (Connected realm token base) \<and> req = Some r \<and> mcp")
    (auto split: option.splits qbo_job_access.splits bool.splits)

lemma qbo_part_other:
  assumes "k \<notin> set qbo_job_env"
  shows "map_of (rev (fst (qbo_part qbo req mcp))) k = None"
proof (cases rule: qbo_part_cases [of qbo req mcp])
  case (2 realm token base r)
  have "set (map fst (rev (qbo_env realm token base r))) = set qbo_job_env"
    by (simp only: rev_map [symmetric] qbo_env_keys set_rev)
  then have "fst ` set (rev (qbo_env realm token base r)) = set qbo_job_env" by (simp only: set_map)
  then have "k \<notin> fst ` set (rev (qbo_env realm token base r))" using assms by (simp only:) simp
  then show ?thesis unfolding 2(1) by (simp only: map_of_eq_None_iff not_False_eq_True)
qed simp

text \<open>The QuickBooks variables are not among those set at the end.\<close>

lemma qbo_names_last:
  "k \<in> set qbo_job_env \<Longrightarrow>
   k \<notin> {''DATABASE_URL'', ''CLAUDE_CONFIG_DIR'', ''CLAUDE_CODE_DISABLE_NONESSENTIAL_TRAFFIC'',
     ''DISABLE_AUTOUPDATER'', ''CLAUDECODE''}"
  by (auto simp: qbo_job_env_def)

lemma child_env_qbo:
  assumes "k \<in> set qbo_job_env"
  shows "child_env inherited (command_with_qbo render show_float cfg ws req qbo) k =
     (case map_of (rev (fst (qbo_part qbo req (jobctl_mcp cfg \<noteq> None)))) k of
        Some (EnvSet v) \<Rightarrow> Some v
      | _ \<Rightarrow> None)"
  using qbo_names_last [OF assms] assms
  by (simp add: child_env_lookup job_env_lookup split: option.split env_change.split)

text \<open>
  C17: whatever the runner's own environment holds and whatever its configuration is, a job
  never sees the runner's AES key, its Intuit credentials or its \<open>CLAUDECODE\<close> marker, and
  its \<open>DATABASE_URL\<close> is the configured agent login or absent, never the inherited one.
\<close>
theorem job_environment_has_no_runner_secret:
  "k \<in> {''AES_KEY'', ''QBO_CLIENT_ID'', ''QBO_CLIENT_SECRET'', ''CLAUDECODE''} \<Longrightarrow>
   child_env inherited (command_with_qbo render show_float cfg ws req qbo) k = None \<and>
   child_env inherited (command_with_qbo render show_float cfg ws req qbo) ''DATABASE_URL'' =
     agent_database_url cfg"
proof -
  assume k: "k \<in> {''AES_KEY'', ''QBO_CLIENT_ID'', ''QBO_CLIENT_SECRET'', ''CLAUDECODE''}"
  then have "k \<notin> set qbo_job_env" by (auto simp: qbo_job_env_def)
  moreover from k have "k \<in> set runner_only_env \<or> k = ''CLAUDECODE''" by (auto simp: runner_only_env_def)
  moreover from k have "k \<notin> {''DATABASE_URL'', ''CLAUDE_CONFIG_DIR'', ''DISABLE_AUTOUPDATER'',
      ''CLAUDE_CODE_DISABLE_NONESSENTIAL_TRAFFIC''}" by auto
  ultimately show ?thesis
    unfolding child_env_lookup job_env_lookup
    by (cases "agent_database_url cfg") (auto simp: qbo_part_other)
qed

theorem job_environment_has_no_runner_secret_witness:
  "child_env (\<lambda>_. Some ''secret'') (command_with_qbo (\<lambda>_. ''{}'') (\<lambda>_. ''1'') default_claude_config ''/w'' None None)
     ''AES_KEY'' = None"
  using job_environment_has_no_runner_secret [of "''AES_KEY''"] by simp

text \<open>
  C18: the QuickBooks variables of a job are exactly those of its own requester: they are set
  when the job has \<open>jobctl-mcp\<close>, a requester and a connection, to that connection's token
  and realm and that requester's company, user and admin flag, and are absent otherwise,
  whatever was inherited.
\<close>
theorem quickbooks_access_is_the_requesters:
  fixes inherited render show_float cfg ws req qbo
  defines "env \<equiv> child_env inherited (command_with_qbo render show_float cfg ws req qbo)"
  shows "(case (qbo, req, jobctl_mcp cfg) of
      (Some (Connected realm token base), Some r, Some mcp) \<Rightarrow>
        env ''QBO_ACCESS_TOKEN'' = Some token \<and> env ''QBO_REALM_ID'' = Some realm \<and>
        env ''QBO_API_BASE'' = Some base \<and> env ''QBO_COMPANY_ID'' = Some (show_int (company_id r)) \<and>
        env ''QBO_USER_ID'' = Some (show_int (user_id r)) \<and>
        env ''QBO_REQUESTER_IS_ADMIN'' = Some (if is_admin r then ''1'' else ''0'')
    | _ \<Rightarrow> \<forall>k \<in> set qbo_job_env. env k = None)"
proof (cases rule: qbo_part_cases [of qbo req "jobctl_mcp cfg \<noteq> None"])
  case 1
  have "\<forall>k \<in> set qbo_job_env. env k = None"
    using 1(1) by (simp add: env_def child_env_qbo)
  with 1(2) show ?thesis by (auto split: option.split qbo_job_access.split)
next
  case (2 realm token base r)
  have env: "env k = (case map_of (rev (qbo_env realm token base r)) k of Some (EnvSet v) \<Rightarrow> Some v | _ \<Rightarrow> None)"
    if "k \<in> set qbo_job_env" for k
    unfolding env_def child_env_qbo [OF that] 2(1) by (rule refl)
  obtain mcp where "jobctl_mcp cfg = Some mcp" using 2(4) by auto
  with 2(2,3) show ?thesis by (simp add: env qbo_job_env_def) (simp add: qbo_env_def)
qed

theorem quickbooks_access_is_the_requesters_witness:
  "child_env (\<lambda>_. Some ''inherited'') (command_with_qbo (\<lambda>_. ''{}'') (\<lambda>_. ''1'')
       (default_claude_config\<lparr>jobctl_mcp := Some ''mcp''\<rparr>) ''/w''
       (Some \<lparr>user_id = 3, company_id = 2, is_admin = False\<rparr>) (Some (Connected ''r'' ''t'' ''b''))) ''QBO_ACCESS_TOKEN''
     = Some ''t'' \<and>
   child_env (\<lambda>_. Some ''inherited'') (command_with_qbo (\<lambda>_. ''{}'') (\<lambda>_. ''1'')
       default_claude_config ''/w'' None None) ''QBO_ACCESS_TOKEN'' = None"
proof -
  have mem: "''QBO_ACCESS_TOKEN'' \<in> set qbo_job_env" by (simp add: qbo_job_env_def)
  show ?thesis
    using quickbooks_access_is_the_requesters [where qbo = "Some (Connected ''r'' ''t'' ''b'')"
        and req = "Some \<lparr>user_id = 3, company_id = 2, is_admin = False\<rparr>"
        and cfg = "default_claude_config\<lparr>jobctl_mcp := Some ''mcp''\<rparr>"]
      bspec [OF quickbooks_access_is_the_requesters [where qbo = None and req = None, simplified] mem]
    by simp
qed

lemma sublist_after: "sublist x b \<Longrightarrow> sublist x (a @ b)"
  by (meson sublist_append_leftI sublist_order.order_trans)

lemma sublist_join: "x \<in> set xs \<Longrightarrow> sublist x (join sep xs)"
proof (induction sep xs rule: join.induct)
  case (3 sep x' y ys)
  have "sublist (join sep (y # ys)) (join sep (x' # y # ys))"
    by (simp add: sublist_after)
  with 3 show ?case by (auto intro: sublist_order.order_trans)
qed auto

lemma requester_prompt_parts:
  "sublist (company_restriction (company_id r)) (requester_system_prompt r)"
  "\<not> is_admin r \<Longrightarrow> sublist (non_admin_restriction (user_id r)) (requester_system_prompt r)"
  by (simp_all add: requester_system_prompt_def Let_def sublist_after)

text \<open>
  A job with a requester is always started with the company isolation rule of that
  requester's company in its system prompt, and with the restriction to the user's own
  data exactly when the requester is not an admin.
\<close>
theorem isolation_rule_is_always_given:
  assumes "req = Some r"
  shows "\<exists>before p. command_args (command_with_qbo render show_float cfg ws req qbo) =
      before @ [''--strict-mcp-config'', ''--append-system-prompt'', p] \<and>
    sublist (company_restriction (company_id r)) p \<and>
    (\<not> is_admin r \<longrightarrow> sublist (non_admin_restriction (user_id r)) p)"
proof -
  let ?p = "join blank_line (system_prompt cfg req qbo)"
  have mem: "requester_system_prompt r \<in> set (system_prompt cfg req qbo)"
    using assms by (simp add: system_prompt_def)
  then have "system_prompt cfg req qbo \<noteq> []" by auto
  then have "\<exists>before. command_args (command_with_qbo render show_float cfg ws req qbo) =
      before @ [''--strict-mcp-config'', ''--append-system-prompt'', ?p]"
    unfolding command_with_qbo_def by simp
  moreover have "sublist x (requester_system_prompt r) \<Longrightarrow> sublist x ?p" for x
    using sublist_join [OF mem] sublist_order.order_trans by blast
  ultimately show ?thesis using requester_prompt_parts [of r] by blast
qed

theorem isolation_rule_is_always_given_witness:
  "\<exists>before p. command_args (command_with_qbo (\<lambda>_. ''{}'') (\<lambda>_. ''1'') default_claude_config ''/w''
       (Some \<lparr>user_id = 3, company_id = 2, is_admin = False\<rparr>) None) =
     before @ [''--strict-mcp-config'', ''--append-system-prompt'', p] \<and>
   sublist (company_restriction 2) p \<and> sublist (non_admin_restriction 3) p"
  using isolation_rule_is_always_given [of _ "\<lparr>user_id = 3, company_id = 2, is_admin = False\<rparr>"] by simp

section \<open>Reports\<close>

record run_report =
  report_result :: "string option"
  report_is_error :: bool
  report_subtype :: string
  report_session :: "string option"
  report_cost :: "f64 option"
  report_turns :: "nat option"
  report_denials :: nat

definition into_outcome :: "run_report \<Rightarrow> job_outcome" where
  "into_outcome r =
     (case (report_is_error r, report_result r) of
        (False, Some result) \<Rightarrow> Success result
      | (False, None) \<Rightarrow> failed ''claude finished without a result''
      | (True, result) \<Rightarrow> FailedOutcome (''claude reported an error: '' @ report_subtype r) result)"

record raw_report =
  raw_result :: "string option"
  raw_is_error :: bool
  raw_subtype :: string
  raw_session_id :: "string option"
  raw_total_cost_usd :: "f64 option"
  raw_num_turns :: "nat option"
  raw_permission_denials :: "json list"

definition report_of_raw :: "raw_report \<Rightarrow> run_report" where
  "report_of_raw raw =
     \<lparr>report_result = raw_result raw, report_is_error = raw_is_error raw,
      report_subtype = raw_subtype raw, report_session = raw_session_id raw,
      report_cost = raw_total_cost_usd raw, report_turns = raw_num_turns raw,
      report_denials = length (raw_permission_denials raw)\<rparr>"

text \<open>
  \<open>#[derive(Deserialize)]\<close> with \<open>#[serde(default)]\<close> on every field. The document keeps the
  members of an object as written, so a repeated one is seen (and is an error); an array
  gives the fields in order. \<open>num_f64\<close> converts a JSON number to a float.
\<close>

fun de_option :: "(json \<Rightarrow> 'a option) \<Rightarrow> json \<Rightarrow> 'a option option" where
  "de_option d JNull = Some None"
| "de_option d v = map_option Some (d v)"

fun de_u32 :: "json \<Rightarrow> nat option" where
  "de_u32 (JNumber (PosInt n)) = (if n < 2 ^ 32 then Some n else None)"
| "de_u32 _ = None"

fun de_f64 :: "(number \<Rightarrow> f64) \<Rightarrow> json \<Rightarrow> f64 option" where
  "de_f64 num_f64 (JNumber n) = Some (num_f64 n)"
| "de_f64 num_f64 _ = None"

fun de_values :: "json \<Rightarrow> json list option" where
  "de_values (JArray xs) = Some xs"
| "de_values _ = None"

fun report_field :: "json \<Rightarrow> nat \<Rightarrow> string \<Rightarrow> (json \<Rightarrow> 'a option) \<Rightarrow> 'a \<Rightarrow> 'a option" where
  "report_field (JObject kvs) i k d dflt =
     (case filter (\<lambda>kv. fst kv = k) kvs of
        [] \<Rightarrow> Some dflt
      | [kv] \<Rightarrow> d (snd kv)
      | _ \<Rightarrow> None)"
| "report_field (JArray xs) i k d dflt =
     (if 7 < length xs then None else if i < length xs then d (xs ! i) else Some dflt)"
| "report_field _ i k d dflt = None"

definition raw_report_of :: "(number \<Rightarrow> f64) \<Rightarrow> json \<Rightarrow> raw_report option" where
  "raw_report_of num_f64 doc =
     (case (report_field doc 0 ''result'' (de_option as_str) None,
            report_field doc 1 ''is_error'' as_bool False,
            report_field doc 2 ''subtype'' as_str [],
            report_field doc 3 ''session_id'' (de_option as_str) None,
            report_field doc 4 ''total_cost_usd'' (de_option (de_f64 num_f64)) None,
            report_field doc 5 ''num_turns'' (de_option de_u32) None,
            report_field doc 6 ''permission_denials'' de_values []) of
        (Some a, Some b, Some c, Some d, Some e, Some f, Some g) \<Rightarrow>
          Some \<lparr>raw_result = a, raw_is_error = b, raw_subtype = c, raw_session_id = d,
                raw_total_cost_usd = e, raw_num_turns = f, raw_permission_denials = g\<rparr>
      | _ \<Rightarrow> None)"

text \<open>
  \<open>serde_json::from_slice\<close>: \<open>parse\<close> is its reading of the bytes, \<open>shape_error\<close> its message
  for a document of the wrong shape.
\<close>

record serde =
  serde_parse :: "bytes \<Rightarrow> string + json"
  serde_shape_error :: "bytes \<Rightarrow> string"
  serde_f64 :: "number \<Rightarrow> f64"

definition claude_parse_report :: "serde \<Rightarrow> bytes \<Rightarrow> string + run_report" where
  "claude_parse_report serde stdout =
     (case serde_parse serde stdout of
        Inl e \<Rightarrow> Inl e
      | Inr doc \<Rightarrow>
          (case raw_report_of (serde_f64 serde) doc of
             None \<Rightarrow> Inl (serde_shape_error serde stdout)
           | Some raw \<Rightarrow> Inr (report_of_raw raw)))"

section \<open>Running\<close>

datatype exit_status = ExitCode int | ExitSignal string

fun exit_success :: "exit_status \<Rightarrow> bool" where
  "exit_success (ExitCode c) = (c = 0)"
| "exit_success (ExitSignal s) = False"

fun show_exit_status :: "exit_status \<Rightarrow> string" where
  "show_exit_status (ExitCode c) = ''exit status: '' @ show_int c"
| "show_exit_status (ExitSignal s) = ''signal: '' @ s"

record process_output =
  out_status :: exit_status
  out_stdout :: bytes
  out_stderr :: bytes

text \<open>What starting the process and waiting for it (up to the time limit) gives.\<close>

datatype process_end =
    NotStarted io_error
  | NoStdin
  | Elapsed
  | WaitFailed io_error
  | Ended process_output

datatype run_error =
    Spawn path io_error
  | RunIo io_error
  | Timeout nat
  | Exited exit_status string
  | InvalidOutput string string

record run_request =
  request_prompt :: string
  request_workspace :: path
  request_requester :: "requester option"

text \<open>\<open>CliRunner\<close>: the configuration and, if there is one, the broker.\<close>

record cli_runner =
  runner_config :: claude_config
  runner_qbo :: "(int \<Rightarrow> qbo_job_access) option"

definition run_access :: "cli_runner \<Rightarrow> run_request \<Rightarrow> qbo_job_access option" where
  "run_access runner req =
     (case (runner_qbo runner, request_requester req) of
        (Some access, Some r) \<Rightarrow>
          if jobctl_mcp (runner_config runner) \<noteq> None then Some (access (company_id r)) else None
      | _ \<Rightarrow> None)"

definition output_result :: "serde \<Rightarrow> process_output \<Rightarrow> run_error + run_report" where
  "output_result serde out =
     (case claude_parse_report serde (out_stdout out) of
        Inr report \<Rightarrow> Inr report
      | Inl source \<Rightarrow>
          if exit_success (out_status out)
          then Inl (InvalidOutput source (from_utf8_lossy (out_stdout out)))
          else Inl (Exited (out_status out) (trim (from_utf8_lossy (out_stderr out)))))"

definition cli_run ::
  "serde \<Rightarrow> (json \<Rightarrow> string) \<Rightarrow> (f64 \<Rightarrow> string) \<Rightarrow> (process_command \<Rightarrow> string \<Rightarrow> process_end) \<Rightarrow>
   cli_runner \<Rightarrow> run_request \<Rightarrow> run_error + run_report" where
  "cli_run serde render show_float launch runner req =
     (let cfg = runner_config runner;
          cmd = command_with_qbo render show_float cfg (request_workspace req)
                  (request_requester req) (run_access runner req)
      in case launch cmd (request_prompt req) of
           NotStarted e \<Rightarrow> Inl (Spawn (binary cfg) e)
         | NoStdin \<Rightarrow> Inl (RunIo (IoError ''child stdin was not captured''))
         | Elapsed \<Rightarrow> Inl (Timeout (timeout_secs cfg))
         | WaitFailed e \<Rightarrow> Inl (RunIo e)
         | Ended out \<Rightarrow> output_result serde out)"

text \<open>The error and its sources, as \<open>Display\<close> prints each.\<close>

fun io_text :: "io_error \<Rightarrow> string" where
  "io_text (IoError t) = t"

fun run_error_texts :: "run_error \<Rightarrow> string list" where
  "run_error_texts (Spawn bin e) = [''could not start '' @ from_utf8_lossy bin, io_text e]"
| "run_error_texts (RunIo e) = [''i/o error while running claude'', io_text e]"
| "run_error_texts (Timeout secs) = [''claude did not finish within '' @ show_nat secs @ ''s'']"
| "run_error_texts (Exited st err) = [''claude exited with '' @ show_exit_status st @ '': '' @ err]"
| "run_error_texts (InvalidOutput source out) = [''could not parse claude output'', source]"

text \<open>
  How a finished process becomes a job outcome: a report that parses decides alone,
  even if the process failed; success needs a result and no error flag; output that does
  not parse is never a success, and the exit status only chooses the error.
\<close>
theorem output_decides_outcome:
  "(case output_result serde out of
      Inr report \<Rightarrow>
        (\<exists>doc raw. serde_parse serde (out_stdout out) = Inr doc \<and>
           raw_report_of (serde_f64 serde) doc = Some raw \<and> report = report_of_raw raw) \<and>
        (\<forall>t. into_outcome report = Success t \<longleftrightarrow> \<not> report_is_error report \<and> report_result report = Some t) \<and>
        (report_is_error report \<longrightarrow> (\<exists>e. into_outcome report = FailedOutcome e (report_result report)))
    | Inl (InvalidOutput source t) \<Rightarrow> exit_success (out_status out)
    | Inl (Exited st t) \<Rightarrow> st = out_status out \<and> \<not> exit_success st
    | Inl _ \<Rightarrow> False) \<and>
   ((\<exists>e. serde_parse serde (out_stdout out) = Inl e) \<longrightarrow> (\<exists>e. output_result serde out = Inl e))"
  by (auto simp: output_result_def claude_parse_report_def into_outcome_def failed_def
      split: sum.split option.split bool.split)

definition sample_serde :: serde where
  "sample_serde = \<lparr>serde_parse = (\<lambda>b. if b = ''doc'' then Inr (JObject [(''result'', JString ''ok'')]) else Inl ''bad''),
     serde_shape_error = (\<lambda>_. ''shape''), serde_f64 = (\<lambda>_. 0)\<rparr>"

theorem output_decides_outcome_witness:
  "\<exists>report. output_result sample_serde \<lparr>out_status = ExitCode 1, out_stdout = ''doc'', out_stderr = []\<rparr> = Inr report \<and>
     into_outcome report = Success ''ok''"
proof -
  obtain report where r: "output_result sample_serde \<lparr>out_status = ExitCode 1, out_stdout = ''doc'', out_stderr = []\<rparr> = Inr report"
    and "\<not> report_is_error report" "report_result report = Some ''ok''"
    by (simp add: output_result_def claude_parse_report_def sample_serde_def raw_report_of_def report_of_raw_def)
  with output_decides_outcome [where serde = sample_serde and out = "\<lparr>out_status = ExitCode 1, out_stdout = ''doc'', out_stderr = []\<rparr>"]
  show ?thesis by simp
qed

end
