(* ===== verification/Worker.thy ===== *)
theory Worker
  imports StoreProps Claude
begin

text \<open>
  \<open>src/worker.rs\<close>: one job from its claim to its recorded outcome (\<open>execute\<close>, \<open>process\<close>)
  and the polling loop with its permits, its in-flight tasks and its shutdown, as a step
  relation over the operations it calls on the store.
\<close>

section \<open>One job\<close>

text \<open>\<open>chain\<close>: the texts of an error and of its sources, outermost first.\<close>

definition chain :: "string list \<Rightarrow> string" where
  "chain texts = join '': '' texts"

fun workspace_error_texts :: "workspace_error \<Rightarrow> string list" where
  "workspace_error_texts (WorkspaceIo action p e) = [action @ '' '' @ from_utf8_lossy p, io_text e]"

text \<open>How the \<open>select!\<close> between the run and the shutdown token ends.\<close>

datatype race = Completed "run_error + run_report" | ShutDown

fun race_outcome :: "race \<Rightarrow> job_outcome" where
  "race_outcome (Completed (Inr report)) = into_outcome report"
| "race_outcome (Completed (Inl err)) = failed (chain (run_error_texts err))"
| "race_outcome ShutDown = failed ''runner shut down before the job finished''"

text \<open>
  \<open>run\<close> stands for the runner and the job itself: how the race ends and what the file
  system is by then.
\<close>

definition execute_job ::
  "os \<Rightarrow> nat option \<Rightarrow> workspace_root \<Rightarrow> (run_request \<Rightarrow> fs \<Rightarrow> race \<times> fs) \<Rightarrow>
   job \<Rightarrow> fs \<Rightarrow> job_outcome \<times> fs" where
  "execute_job os clock root run j fs =
     (case create os clock root (job_id j) fs of
        (Inl err, fs1) \<Rightarrow> (failed (chain (workspace_error_texts err)), fs1)
      | (Inr w, fs1) \<Rightarrow>
          (case run \<lparr>request_prompt = job_content j, request_workspace = workspace_path w,
                     request_requester = job_requester j\<rparr> fs1 of
             (r, fs2) \<Rightarrow> (race_outcome r, snd (remove os w fs2))))"

definition process ::
  "os \<Rightarrow> nat option \<Rightarrow> workspace_root \<Rightarrow> (run_request \<Rightarrow> fs \<Rightarrow> race \<times> fs) \<Rightarrow>
   job \<Rightarrow> database \<times> fs \<Rightarrow> job_outcome \<times> database \<times> fs" where
  "process os clock root run j st =
     (case st of (db, fs) \<Rightarrow>
        case execute_job os clock root run j fs of
          (outcome, fs') \<Rightarrow> (outcome, snd (finish (job_id j) outcome db), fs'))"

section \<open>The polling loop\<close>

datatype task = Spawned job | Running job workspace | Recording job job_outcome | Over

datatype phase = Acquiring | Claiming | Sleeping | Draining | Stopped

record 'db worker_state =
  wdb :: 'db
  wfs :: fs
  permits :: nat
  phase :: phase
  tasks :: "task list"
  shutdown :: bool
  trouble :: bool

fun task_job :: "task \<Rightarrow> job option" where
  "task_job (Spawned j) = Some j"
| "task_job (Running j w) = Some j"
| "task_job (Recording j out) = Some j"
| "task_job Over = None"

text \<open>
  The store is seen through what its calls may answer: \<open>claims db r db'\<close>,
  \<open>finishes db i outcome r db'\<close>, and \<open>others db db'\<close> for the API and the chat application.
  \<open>trouble\<close> is a ghost: it remembers that a store call failed or a task panicked.
\<close>

inductive worker_step ::
  "('db \<Rightarrow> 'e + job option \<Rightarrow> 'db \<Rightarrow> bool) \<Rightarrow>
   ('db \<Rightarrow> message_id \<Rightarrow> job_outcome \<Rightarrow> 'e + unit \<Rightarrow> 'db \<Rightarrow> bool) \<Rightarrow>
   ('db \<Rightarrow> 'db \<Rightarrow> bool) \<Rightarrow> workspace_root \<Rightarrow>
   'db worker_state \<Rightarrow> 'db worker_state \<Rightarrow> bool"
  for claims :: "'db \<Rightarrow> 'e + job option \<Rightarrow> 'db \<Rightarrow> bool"
    and finishes :: "'db \<Rightarrow> message_id \<Rightarrow> job_outcome \<Rightarrow> 'e + unit \<Rightarrow> 'db \<Rightarrow> bool"
    and others :: "'db \<Rightarrow> 'db \<Rightarrow> bool"
    and root :: workspace_root where
  request_shutdown: "worker_step claims finishes others root s (s\<lparr>shutdown := True\<rparr>)"
| elsewhere: "others (wdb s) db \<Longrightarrow> worker_step claims finishes others root s (s\<lparr>wdb := db\<rparr>)"
| acquire: "phase s = Acquiring \<Longrightarrow> permits s = Suc p \<Longrightarrow>
    worker_step claims finishes others root s (s\<lparr>phase := Claiming, permits := p\<rparr>)"
| break_acquire: "phase s = Acquiring \<Longrightarrow> shutdown s \<Longrightarrow>
    worker_step claims finishes others root s (s\<lparr>phase := Draining\<rparr>)"
| spawn: "phase s = Claiming \<Longrightarrow> claims (wdb s) (Inr (Some j)) db \<Longrightarrow>
    worker_step claims finishes others root s
      (s\<lparr>phase := Acquiring, wdb := db, tasks := tasks s @ [Spawned j]\<rparr>)"
| no_job: "phase s = Claiming \<Longrightarrow> claims (wdb s) (Inr None) db \<Longrightarrow>
    worker_step claims finishes others root s
      (s\<lparr>phase := Sleeping, wdb := db, permits := Suc (permits s)\<rparr>)"
| poll_error: "phase s = Claiming \<Longrightarrow> claims (wdb s) (Inl e) db \<Longrightarrow>
    worker_step claims finishes others root s
      (s\<lparr>phase := Sleeping, wdb := db, permits := Suc (permits s), trouble := True\<rparr>)"
| wake: "phase s = Sleeping \<Longrightarrow> worker_step claims finishes others root s (s\<lparr>phase := Acquiring\<rparr>)"
| break_sleep: "phase s = Sleeping \<Longrightarrow> shutdown s \<Longrightarrow>
    worker_step claims finishes others root s (s\<lparr>phase := Draining\<rparr>)"
| reap: "phase s \<noteq> Stopped \<Longrightarrow>
    worker_step claims finishes others root s (s\<lparr>tasks := remove1 Over (tasks s)\<rparr>)"
| stop: "phase s = Draining \<Longrightarrow> tasks s = [] \<Longrightarrow>
    worker_step claims finishes others root s (s\<lparr>phase := Stopped\<rparr>)"
| started: "k < length (tasks s) \<Longrightarrow> tasks s ! k = Spawned j \<Longrightarrow>
    create os clock root (job_id j) (wfs s) = (Inr w, fs) \<Longrightarrow>
    worker_step claims finishes others root s (s\<lparr>wfs := fs, tasks := (tasks s)[k := Running j w]\<rparr>)"
| not_started: "k < length (tasks s) \<Longrightarrow> tasks s ! k = Spawned j \<Longrightarrow>
    create os clock root (job_id j) (wfs s) = (Inl e, fs) \<Longrightarrow>
    worker_step claims finishes others root s
      (s\<lparr>wfs := fs, tasks := (tasks s)[k := Recording j (failed (chain (workspace_error_texts e)))]\<rparr>)"
| working: "k < length (tasks s) \<Longrightarrow> tasks s ! k = Running j w \<Longrightarrow>
    (\<forall>q. \<not> below (workspace_path w) q \<longrightarrow> fs_lookup fs q = fs_lookup (wfs s) q) \<Longrightarrow>
    worker_step claims finishes others root s (s\<lparr>wfs := fs\<rparr>)"
| ended: "k < length (tasks s) \<Longrightarrow> tasks s ! k = Running j w \<Longrightarrow> (r = ShutDown \<longrightarrow> shutdown s) \<Longrightarrow>
    remove os w (wfs s) = (x, fs) \<Longrightarrow>
    worker_step claims finishes others root s
      (s\<lparr>wfs := fs, tasks := (tasks s)[k := Recording j (race_outcome r)]\<rparr>)"
| recorded: "k < length (tasks s) \<Longrightarrow> tasks s ! k = Recording j out \<Longrightarrow>
    finishes (wdb s) (job_id j) out r db \<Longrightarrow>
    worker_step claims finishes others root s
      (s\<lparr>wdb := db, tasks := (tasks s)[k := Over], permits := Suc (permits s),
         trouble := (trouble s \<or> r \<noteq> Inr ())\<rparr>)"
| panicked: "k < length (tasks s) \<Longrightarrow> task_job (tasks s ! k) = Some j \<Longrightarrow>
    worker_step claims finishes others root s
      (s\<lparr>tasks := (tasks s)[k := Over], permits := Suc (permits s), trouble := True\<rparr>)"

definition worker_start :: "('db \<Rightarrow> bool) \<Rightarrow> 'db \<Rightarrow> nat \<Rightarrow> 'db worker_state \<Rightarrow> bool" where
  "worker_start good db n s \<longleftrightarrow>
     good db \<and> wdb s = db \<and> permits s = n \<and> phase s = Acquiring \<and> tasks s = [] \<and> \<not> trouble s"

text \<open>The jobs whose tasks have not ended.\<close>

definition live :: "task list \<Rightarrow> job list" where
  "live ts = List.map_filter task_job ts"

definition live_ids :: "'db worker_state \<Rightarrow> message_id list" where
  "live_ids s = map job_id (live (tasks s))"

definition holding :: "'db worker_state \<Rightarrow> nat" where
  "holding s = (if phase s = Claiming then 1 else 0)"

lemma live_simps [simp]:
  "live [] = []"
  "live (t # ts) = (case task_job t of None \<Rightarrow> live ts | Some j \<Rightarrow> j # live ts)"
  "live (xs @ ys) = live xs @ live ys"
  by (simp_all add: live_def map_filter_def split: option.split)

lemma live_remove1 [simp]: "live (remove1 Over ts) = live ts"
  by (induction ts) (auto split: option.split)

lemma live_update_same:
  "k < length ts \<Longrightarrow> task_job (ts ! k) = Some j \<Longrightarrow> task_job t = Some j \<Longrightarrow> live (ts[k := t]) = live ts"
proof (induction ts arbitrary: k)
  case (Cons a ts)
  then show ?case by (cases k) (auto split: option.split)
qed simp

lemma live_split:
  assumes "k < length ts" and "task_job (ts ! k) = Some j"
  obtains a b where "live ts = a @ j # b" "live (ts[k := Over]) = a @ b"
proof (rule that)
  have "ts = take k ts @ ts ! k # drop (Suc k) ts" using assms(1) by (simp add: id_take_nth_drop)
  then show "live ts = live (take k ts) @ j # live (drop (Suc k) ts)"
    using assms(2) by (metis live_simps(2,3) option.simps(5))
  show "live (ts[k := Over]) = live (take k ts) @ live (drop (Suc k) ts)"
    using assms(1) by (simp add: upd_conv_take_nth_drop)
qed

section \<open>What the loop needs of the store\<close>

text \<open>
  A claim that returns a job adds exactly its row to the pending ones; an error may leave a
  row pending; finishing takes at most its own row out, and takes it out if it succeeds.
\<close>

locale job_store =
  fixes good :: "'db \<Rightarrow> bool"
    and pending :: "'db \<Rightarrow> message_id \<Rightarrow> bool"
    and claims :: "'db \<Rightarrow> 'e + job option \<Rightarrow> 'db \<Rightarrow> bool"
    and finishes :: "'db \<Rightarrow> message_id \<Rightarrow> job_outcome \<Rightarrow> 'e + unit \<Rightarrow> 'db \<Rightarrow> bool"
    and others :: "'db \<Rightarrow> 'db \<Rightarrow> bool"
  assumes good_claims: "good db \<Longrightarrow> claims db r db' \<Longrightarrow> good db'"
    and good_finishes: "good db \<Longrightarrow> finishes db i out r' db' \<Longrightarrow> good db'"
    and good_others: "good db \<Longrightarrow> others db db' \<Longrightarrow> good db'"
    and claim_some: "good db \<Longrightarrow> claims db (Inr (Some j)) db' \<Longrightarrow>
      \<not> pending db (job_id j) \<and> (\<forall>i. pending db' i \<longleftrightarrow> i = job_id j \<or> pending db i)"
    and claim_none: "good db \<Longrightarrow> claims db (Inr None) db' \<Longrightarrow> pending db' i = pending db i"
    and claim_error: "good db \<Longrightarrow> claims db (Inl e) db' \<Longrightarrow> pending db i \<Longrightarrow> pending db' i"
    and finish_other: "good db \<Longrightarrow> finishes db i out r' db' \<Longrightarrow> k \<noteq> i \<Longrightarrow> pending db' k = pending db k"
    and finish_own: "good db \<Longrightarrow> finishes db i out (Inr ()) db' \<Longrightarrow> \<not> pending db' i"
    and others_pending: "good db \<Longrightarrow> others db db' \<Longrightarrow> pending db' i = pending db i"
begin

definition worker_inv :: "'db \<Rightarrow> nat \<Rightarrow> 'db worker_state \<Rightarrow> bool" where
  "worker_inv db0 n s \<longleftrightarrow>
     good (wdb s) \<and>
     permits s + length (live (tasks s)) + holding s = n \<and>
     distinct (live_ids s) \<and>
     (\<forall>i \<in> set (live_ids s). pending (wdb s) i) \<and>
     (phase s \<in> {Draining, Stopped} \<longrightarrow> shutdown s) \<and>
     (phase s = Stopped \<longrightarrow> tasks s = []) \<and>
     (\<not> trouble s \<longrightarrow> (\<forall>i. pending (wdb s) i \<longrightarrow> pending db0 i \<or> i \<in> set (live_ids s)))"

lemma worker_inv_start: "worker_start good db0 n s \<Longrightarrow> worker_inv db0 n s"
  by (auto simp: worker_start_def worker_inv_def live_ids_def holding_def)

lemma live_ids_over:
  assumes "k < length (tasks s)" and "task_job (tasks s ! k) = Some j" and "distinct (live_ids s)"
  shows "length (live ((tasks s)[k := Over])) + 1 = length (live (tasks s))"
    and "distinct (map job_id (live ((tasks s)[k := Over])))"
    and "set (map job_id (live ((tasks s)[k := Over]))) = set (live_ids s) - {job_id j}"
proof -
  obtain a b where ab: "live (tasks s) = a @ j # b" "live ((tasks s)[k := Over]) = a @ b"
    using live_split [OF assms(1,2)] .
  show "length (live ((tasks s)[k := Over])) + 1 = length (live (tasks s))"
    and "distinct (map job_id (live ((tasks s)[k := Over])))"
    and "set (map job_id (live ((tasks s)[k := Over]))) = set (live_ids s) - {job_id j}"
    using assms(3) by (auto simp: live_ids_def ab)
qed

text \<open>A task that moves on keeps its job; one that ends gives its permit back.\<close>

lemma worker_inv_moved:
  assumes "worker_inv db0 n s" and "k < length (tasks s)" and "task_job (tasks s ! k) = Some j"
    and "task_job t = Some j"
  shows "worker_inv db0 n (s\<lparr>wfs := fs, tasks := (tasks s)[k := t]\<rparr>)"
  using assms live_update_same [OF assms(2,3,4)]
  by (auto simp: worker_inv_def live_ids_def holding_def)

lemma worker_inv_over:
  assumes inv: "worker_inv db0 n s" and k: "k < length (tasks s)" "task_job (tasks s ! k) = Some j"
    and good: "good db" and pend: "\<And>i. i \<noteq> job_id j \<Longrightarrow> pending db i = pending (wdb s) i"
    and own: "\<not> b \<Longrightarrow> \<not> trouble s \<and> \<not> pending db (job_id j)"
  shows "worker_inv db0 n (s\<lparr>wdb := db, tasks := (tasks s)[k := Over], permits := Suc (permits s), trouble := b\<rparr>)"
proof -
  have d: "distinct (live_ids s)" using inv by (simp add: worker_inv_def)
  note over = live_ids_over [OF k d]
  have "phase s \<noteq> Stopped" using inv k(1) by (auto simp: worker_inv_def)
  moreover have "pending db0 i \<or> i \<in> set (live_ids s) - {job_id j}" if "\<not> b" "pending db i" for i
    using that own pend [of i] inv by (cases "i = job_id j") (auto simp: worker_inv_def)
  ultimately show ?thesis
    using inv over good pend unfolding worker_inv_def live_ids_def holding_def
    by (auto simp: live_ids_def)
qed

lemma worker_inv_step:
  assumes "worker_step claims finishes others root s t" and "worker_inv db0 n s"
  shows "worker_inv db0 n t"
  using assms
proof (induction rule: worker_step.induct)
  case (elsewhere s db)
  then show ?case
    using good_others others_pending by (auto simp: worker_inv_def live_ids_def holding_def)
next
  case (spawn s j db)
  then show ?case
    using good_claims claim_some [of "wdb s" j db]
    by (auto simp: worker_inv_def live_ids_def holding_def)
next
  case (no_job s db)
  then show ?case
    using good_claims claim_none by (auto simp: worker_inv_def live_ids_def holding_def)
next
  case (poll_error s e db)
  then show ?case
    using good_claims claim_error by (auto simp: worker_inv_def live_ids_def holding_def)
next
  case started
  then show ?case by (auto intro: worker_inv_moved)
next
  case not_started
  then show ?case by (auto intro: worker_inv_moved)
next
  case ended
  then show ?case by (auto intro: worker_inv_moved)
next
  case (recorded k s j out r db)
  then show ?case
    using good_finishes finish_other finish_own
    by (intro worker_inv_over [where j = j]) (auto simp: worker_inv_def)
next
  case (panicked k s j)
  then have "worker_inv db0 n (s\<lparr>wdb := wdb s, tasks := (tasks s)[k := Over], permits := Suc (permits s), trouble := True\<rparr>)"
    by (intro worker_inv_over [where j = j]) (auto simp: worker_inv_def)
  then show ?case by simp
qed (auto simp: worker_inv_def live_ids_def holding_def)

end

end
