(* ===== verification/WorkerStore.thy ===== *)
theory WorkerStore
  imports Worker
begin

text \<open>
  The store as the polling loop sees it: the contract \<open>job_store\<close> holds for the operations
  of \<open>src/store.rs\<close> under every fault schedule, while the chat application inserts
  messages between any two statements. No other runner claims from the table.
\<close>

definition inserts :: "(chat_id \<times> string) list \<Rightarrow> database \<Rightarrow> database" where
  "inserts cs db = fold (\<lambda>(chat, content) d. snd (store_insert chat content d)) cs db"

definition inserts_only :: "(nat \<Rightarrow> database \<Rightarrow> database) \<Rightarrow> bool" where
  "inserts_only rivals \<longleftrightarrow> (\<forall>k d. \<exists>cs. rivals k d = inserts cs d)"

definition store_claims :: "database \<Rightarrow> store_error + job option \<Rightarrow> database \<Rightarrow> bool" where
  "store_claims db r db' \<longleftrightarrow> (\<exists>rivals. inserts_only rivals \<and> claim_next rivals db = (r, db'))"

definition store_finishes ::
  "database \<Rightarrow> message_id \<Rightarrow> job_outcome \<Rightarrow> store_error + unit \<Rightarrow> database \<Rightarrow> bool" where
  "store_finishes db i out r db' \<longleftrightarrow> finish i out db = (r, db')"

definition api_call :: "store_call \<Rightarrow> bool" where
  "api_call c \<longleftrightarrow> (case c of InsertCall chat content \<Rightarrow> True | GetCall i \<Rightarrow> True | ReplyCall i \<Rightarrow> True | _ \<Rightarrow> False)"

definition store_others :: "database \<Rightarrow> database \<Rightarrow> bool" where
  "store_others db db' \<longleftrightarrow> (\<exists>c. api_call c \<and> db' = call_effect c db)"

definition pending_id :: "database \<Rightarrow> message_id \<Rightarrow> bool" where
  "pending_id db i \<longleftrightarrow> is_pending db (message_raw i)"

section \<open>The pending rows under each statement\<close>

lemma is_pending_execute_iff:
  assumes stmt: "\<And>d. is_pending (snd (stmt d)) j = is_pending d j"
  shows "is_pending (snd (execute stmt db)) j = is_pending db j"
proof -
  obtain r db' where ex: "execute stmt db = (r, db')" by (cases "execute stmt db")
  have popped: "is_pending d j = is_pending db j" if "pop_fault db = (f, d)" for f d
    by (rule is_pending_cong [OF pop_fault_frame(2) [OF that]])
  from ex show ?thesis
  proof (cases rule: execute_cases)
    case (refused e db1 f)
    then show ?thesis using popped [OF refused(1)] ex by simp
  next
    case (lost e db1 f)
    then show ?thesis using stmt [of db1] popped [OF lost(1)] ex by simp
  next
    case (answered db1)
    then show ?thesis using stmt [of db1] popped [OF answered(1)] ex by simp
  qed
qed

lemma is_pending_insert_message:
  "is_pending (snd (insert_message c s t a p d)) i = is_pending d i"
proof -
  have "is_pending d i = (\<exists>m. find (\<lambda>r. msg_id r = i) (messages d) = Some m \<and> msg_status m = to_db Pending)"
    by (simp add: is_pending_iff message_at_def)
  then show ?thesis
    by (cases "find (\<lambda>r. msg_id r = i) (messages d)")
      (simp_all add: insert_message_def is_pending_iff message_at_def find_append)
qed

lemma is_pending_store_insert: "is_pending (snd (store_insert chat content db)) i = is_pending db i"
proof -
  have "snd (store_insert chat content db)
      = snd (execute (insert_message (chat_raw chat) User content (Some 1) None) db)"
    by (simp add: store_insert_def on_pool_def split: prod.split sum.split)
  then show ?thesis by (simp add: is_pending_execute_iff is_pending_insert_message)
qed

lemma is_pending_store_get: "is_pending (snd (store_get k db)) i = is_pending db i"
  by (simp add: snd_store_get is_pending_execute_iff select_job_def)

lemma is_pending_store_reply: "is_pending (snd (store_reply k db)) i = is_pending db i"
  by (simp add: store_reply_def is_pending_execute_iff select_reply_def)

lemma is_pending_oldest: "is_pending (snd (oldest_unclaimed_id db)) i = is_pending db i"
  by (simp add: snd_oldest is_pending_execute_iff select_oldest_def)

lemma inserts_facts:
  "(db_wf db \<longrightarrow> db_wf (inserts cs db)) \<and> is_pending (inserts cs db) i = is_pending db i"
proof (induction cs arbitrary: db)
  case Nil
  then show ?case by (simp add: inserts_def)
next
  case (Cons c cs)
  have step: "inserts (c # cs) db = inserts cs (snd (store_insert (fst c) (snd c) db))"
    by (simp add: inserts_def split_beta)
  have "db_wf db \<longrightarrow> db_wf (snd (store_insert (fst c) (snd c) db))"
    using keeps_store_insert by (simp add: keeps_def)
  then show ?case using Cons.IH [of "snd (store_insert (fst c) (snd c) db)"] is_pending_store_insert
    by (simp add: step)
qed

lemma is_pending_claim_row:
  "is_pending (snd (claim_row i d)) j \<longleftrightarrow>
     is_pending d j \<or> (\<exists>m. message_at d j = Some m \<and> msg_id m = i \<and> is_unclaimed m)"
proof -
  have at: "message_at (snd (claim_row i d)) j =
      map_option (\<lambda>r. if msg_id r = i \<and> is_unclaimed r then r\<lparr>msg_status := to_db Pending\<rparr> else r) (message_at d j)"
    unfolding claim_row_def by (rule message_at_update) simp
  show ?thesis
    by (cases "message_at d j") (auto simp: is_pending_iff at)
qed

lemma try_claim_answer:
  assumes wf: "db_wf db" and run: "try_claim (MessageId i) db = (Inr b, db')"
  shows "is_pending db' j \<longleftrightarrow> is_pending db j \<or> (b \<and> j = i)" and "b \<Longrightarrow> \<not> is_pending db i"
proof -
  from run obtain k where k: "execute (claim_row i) db = (Inr k, db')" "b = (k = 1)"
    by (auto simp: try_claim_def on_pool_def split: prod.splits sum.splits)
  obtain db1 where a: "pop_fault db = (Answered, db1)" "claim_row i db1 = (Inr k, db')"
    using k(1) by (auto elim: execute_cases)
  have wf1: "db_wf db1" using wf db_wf_cong [of db1 db] a(1) by simp
  have p1: "is_pending db1 j = is_pending db j" for j
    by (rule is_pending_cong [OF pop_fault_frame(2) [OF a(1)]])
  have cnt: "Inr k = (Inr (case message_at db1 i of None \<Rightarrow> 0 | Some r \<Rightarrow> if is_unclaimed r then 1 else 0) :: sqlx_error + nat)"
    using update_count_by_id [OF wf1, of i is_unclaimed "\<lambda>r. r\<lparr>msg_status := to_db Pending\<rparr>"]
      a(2) unfolding claim_row_def by simp
  have b: "b \<longleftrightarrow> (\<exists>m. message_at db1 i = Some m \<and> is_unclaimed m)"
    using cnt k(2) by (cases "message_at db1 i") auto
  have row: "msg_id m = j" if "message_at db1 j = Some m" for m j
    using message_at_Some [OF that] by simp
  have "is_pending db' j \<longleftrightarrow> is_pending db1 j \<or> (\<exists>m. message_at db1 j = Some m \<and> msg_id m = i \<and> is_unclaimed m)"
    using is_pending_claim_row [of i db1 j] a(2) by simp
  then show "is_pending db' j \<longleftrightarrow> is_pending db j \<or> (b \<and> j = i)"
    using row b p1 by auto
  show "\<not> is_pending db i" if won: b
  proof -
    obtain m where "message_at db1 i = Some m" "is_unclaimed m" using won b by blast
    then have "\<not> is_pending db1 i" by (simp add: is_pending_iff is_unclaimed_def)
    then show ?thesis by (simp add: p1)
  qed
qed

lemma store_get_id: "store_get (MessageId i) db = (Inr (Some j), db') \<Longrightarrow> job_id j = MessageId i"
proof -
  assume run: "store_get (MessageId i) db = (Inr (Some j), db')"
  then obtain row where ex: "execute (select_job i) db = (Inr row, db')" and t: "transpose_job row = Inr (Some j)"
    by (auto simp: store_get_def on_pool_def split: prod.splits sum.splits)
  from t obtain r where r: "row = Some r" "job_of_row r = Inr j"
    by (cases row) (auto split: sum.splits)
  from ex obtain db1 where "select_job i db1 = (Inr row, db')" by (auto elim: execute_cases)
  with r(1) obtain m where "message_at db1 i = Some m" "r = joined_row db1 m"
    by (auto simp: select_job_def split: option.splits if_splits)
  then have "row_id r = i" using message_at_Some by simp
  with r(2) show ?thesis by (auto simp: job_of_row_def split: sum.splits)
qed

section \<open>The contract\<close>

definition claim_answer :: "database \<Rightarrow> store_error + job option \<Rightarrow> database \<Rightarrow> bool" where
  "claim_answer db r db' \<longleftrightarrow> db_wf db' \<and>
     (case r of
        Inl e \<Rightarrow> \<forall>i. is_pending db i \<longrightarrow> is_pending db' i
      | Inr None \<Rightarrow> \<forall>i. is_pending db' i = is_pending db i
      | Inr (Some j) \<Rightarrow> \<not> is_pending db (message_raw (job_id j)) \<and>
          (\<forall>i. is_pending db' i \<longleftrightarrow> i = message_raw (job_id j) \<or> is_pending db i))"

lemma claim_answer_same:
  "claim_answer db1 r db' \<Longrightarrow> (\<And>i. is_pending db1 i = is_pending db i) \<Longrightarrow> claim_answer db r db'"
  by (auto simp: claim_answer_def split: sum.splits option.splits)

lemma claim_answer_error:
  "db_wf db' \<Longrightarrow> (\<And>i. is_pending db i \<Longrightarrow> is_pending db' i) \<Longrightarrow> claim_answer db (Inl e) db'"
  by (simp add: claim_answer_def)

lemma keeps_wf: "keeps db (snd x) \<Longrightarrow> x = (r, db') \<Longrightarrow> db_wf db \<Longrightarrow> db_wf db'"
  by (rule keeps_snd)

lemma claim_get_answer:
  assumes wf: "db_wf db2" and free: "\<not> is_pending db i"
    and at: "\<And>k. is_pending db2 k \<longleftrightarrow> is_pending db k \<or> k = i"
    and get: "store_get (MessageId i) db2 = (Inr (Some j), db')"
  shows "claim_answer db (Inr (Some j)) db'"
proof -
  have "is_pending db' k = is_pending db2 k" for k
    using is_pending_store_get [of "MessageId i" db2 k] get by simp
  moreover have "db_wf db'" using keeps_snd [OF keeps_store_get get wf] .
  ultimately show ?thesis
    using free at store_get_id [OF get] by (auto simp: claim_answer_def)
qed

text \<open>
  A claimed row always comes back from \<open>get\<close>: it is an agentic user message, and nobody
  removes rows.
\<close>

lemma store_get_claimed:
  assumes won: "try_claim (MessageId i) db = (Inr True, db2)" and wf: "db_wf db"
    and get: "store_get (MessageId i) db2 = (Inr r, db')"
  shows "r \<noteq> None"
proof -
  obtain m where m: "message_at db2 i = Some (m\<lparr>msg_status := to_db Pending\<rparr>)" "is_unclaimed m"
    using try_claim_won [OF wf won] by blast
  from get obtain row where ex: "execute (select_job i) db2 = (Inr row, db')" and t: "transpose_job row = Inr r"
    by (auto simp: store_get_def on_pool_def split: prod.splits sum.splits)
  from ex obtain db3 where p: "pop_fault db2 = (Answered, db3)" and s: "select_job i db3 = (Inr row, db')"
    by (auto elim: execute_cases)
  have "message_at db3 i = message_at db2 i"
    by (rule message_at_cong [OF pop_fault_frame(2) [OF p]])
  then have "row \<noteq> None" using s m by (auto simp: select_job_def is_unclaimed_def)
  with t show ?thesis by (cases row) (auto split: sum.splits)
qed

lemma claim_loop_answer:
  assumes rivals: "inserts_only rivals"
  shows "db_wf db \<Longrightarrow> claim_loop rivals n db = (r, db') \<Longrightarrow> claim_answer db r db'"
proof (induction n arbitrary: db)
  case 0
  then show ?case by (auto simp: claim_answer_def)
next
  case (Suc n)
  obtain x db1 where old: "oldest_unclaimed_id db = (x, db1)" by (cases "oldest_unclaimed_id db")
  have p1: "is_pending db1 i = is_pending db i" for i using is_pending_oldest [of db i] old by simp
  have wf1: "db_wf db1" using keeps_snd [OF keeps_oldest old Suc.prems(1)] .
  show ?case
  proof (cases "\<exists>i. x = Inr (Some i)")
    case False
    then have "r = map_sum id (\<lambda>_. None) x \<and> db' = db1"
      using Suc.prems(2) old by (auto split: sum.splits option.splits)
    then show ?thesis using wf1 p1 by (cases x) (auto simp: claim_answer_def)
  next
    case True
    then obtain i where x: "x = Inr (Some (MessageId i))" using message_id.exhaust by metis
    let ?mid = "rivals (Suc n) db1"
    obtain cs where "?mid = inserts cs db1" using rivals unfolding inserts_only_def by blast
    then have wfm: "db_wf ?mid" and pm: "is_pending ?mid k = is_pending db k" for k
      using inserts_facts [of db1 cs] wf1 p1 by simp_all
    obtain c db2 where tr: "try_claim (MessageId i) ?mid = (c, db2)" by (cases "try_claim (MessageId i) ?mid")
    have wf2: "db_wf db2" using keeps_snd [OF keeps_try_claim tr wfm] .
    have run: "claim_loop rivals (Suc n) db =
        (case c of Inl e \<Rightarrow> (Inl e, db2)
         | Inr b \<Rightarrow> if b then store_get (MessageId i) db2 else claim_loop rivals n db2)"
      using old x tr by (cases c) (auto split: bool.splits)
    show ?thesis
    proof (cases c)
      case (Inl e)
      with run Suc.prems(2) have "r = Inl e" "db' = db2" by simp_all
      then show ?thesis
        using wf2 is_pending_try_claim [OF tr] pm by (simp add: claim_answer_def)
    next
      case (Inr b)
      note ans = try_claim_answer [OF wfm tr [unfolded Inr]]
      show ?thesis
      proof (cases b)
        case False
        then have "claim_loop rivals n db2 = (r, db')" using run Inr Suc.prems(2) by simp
        from Suc.IH [OF wf2 this] show ?thesis
          by (rule claim_answer_same) (simp add: ans(1) False pm)
      next
        case True
        then have get: "store_get (MessageId i) db2 = (r, db')" using run Inr Suc.prems(2) by simp
        show ?thesis
        proof (cases r)
          case (Inl e)
          have "db_wf db'" using keeps_snd [OF keeps_store_get get wf2] .
          moreover have "is_pending db' k" if "is_pending db k" for k
            using that is_pending_store_get [of "MessageId i" db2 k] get ans(1) [of k] pm by simp
          ultimately show ?thesis unfolding Inl by (rule claim_answer_error)
        next
          case (Inr q)
          then obtain j where q: "r = Inr (Some j)"
            using store_get_claimed [OF _ wfm get [unfolded Inr]] tr \<open>c = Inr b\<close> True by auto
          show ?thesis
            using claim_get_answer [OF wf2, of db i j db'] ans pm True get q by simp
        qed
      qed
    qed
  qed
qed

lemma is_pending_finish:
  assumes wf: "db_wf db" and run: "finish (MessageId i) out db = (r, db')"
  shows "k \<noteq> i \<Longrightarrow> is_pending db' k = is_pending db k" and "r = Inr () \<Longrightarrow> \<not> is_pending db' i"
proof -
  have both: "(k \<noteq> i \<longrightarrow> is_pending db' k = is_pending db k) \<and> (r = Inr () \<longrightarrow> \<not> is_pending db' i)" for k
  proof (cases out)
    case (Success result)
    then have "atomic_outcome db i result r db'"
      using finish_done_atomic [OF wf, of "MessageId i" result r db'] run by simp
    then consider "r \<noteq> Inr ()" "same_tables db db'" | n where "reply_recorded db i result n db'"
      by (auto simp: atomic_outcome_def)
    then show ?thesis
    proof cases
      case 1
      then show ?thesis using is_pending_cong [of db' db k] by (simp add: same_tables_def)
    next
      case 2
      then obtain m where m: "message_at db n = None"
        "message_at db' j = (if j = i then Some (done_row m n) else if j = n then Some (reply_row m result n)
            else message_at db j)" for j
        unfolding reply_recorded_def by blast
      show ?thesis
        using m(1) by (auto simp: is_pending_iff m(2) reply_row_def done_row_def)
    qed
  next
    case (FailedOutcome err result)
    have row: "is_pending (snd (mark_failed err result i d)) k \<longleftrightarrow> is_pending d k \<and> \<not> (\<exists>m. message_at d k = Some m \<and> msg_id m = i)"
      for d k by (cases "message_at d k") (auto simp: is_pending_iff mark_failed_at)
    have id: "\<not> (\<exists>m. message_at d k = Some m \<and> msg_id m = i)" if "k \<noteq> i" for d k
      using that message_at_Some by blast
    have "is_pending db' k = is_pending db k" if ne: "k \<noteq> i"
    proof -
      have "is_pending (snd (mark_failed err result i d)) k = is_pending d k" for d
        using id [OF ne] row by blast
      then have "is_pending (snd (execute (mark_failed err result i) db)) k = is_pending db k"
        by (rule is_pending_execute_iff)
      moreover have "snd (execute (mark_failed err result i) db) = db'"
        using snd_finish_failed [of "MessageId i" err result db] run FailedOutcome by simp
      ultimately show ?thesis by simp
    qed
    moreover have "\<not> is_pending db' i" if ok: "r = Inr ()"
    proof -
      from run FailedOutcome ok obtain v where "execute (mark_failed err result i) db = (Inr v, db')"
        by (auto simp: finish_failed_def on_pool_def split: prod.splits sum.splits)
      then obtain db1 where "mark_failed err result i db1 = (Inr v, db')" by (auto elim: execute_cases)
      then have "is_pending db' i \<longleftrightarrow> is_pending db1 i \<and> \<not> (\<exists>m. message_at db1 i = Some m \<and> msg_id m = i)"
        using row [of db1 i] by simp
      then show ?thesis using message_at_Some [of db1 i] by (auto simp: is_pending_iff)
    qed
    ultimately show ?thesis by blast
  qed
  then show "k \<noteq> i \<Longrightarrow> is_pending db' k = is_pending db k" by blast
  from both show "r = Inr () \<Longrightarrow> \<not> is_pending db' i" by blast
qed

lemma store_claims_answer:
  assumes "db_wf db" and "store_claims db r db'"
  shows "claim_answer db r db'"
  using assms claim_loop_answer by (auto simp: store_claims_def claim_next_def)

lemma store_others_facts:
  assumes "store_others db db'"
  shows "db_wf db \<Longrightarrow> db_wf db'" and "is_pending db' i = is_pending db i"
proof -
  obtain c where c: "api_call c" "db' = call_effect c db" using assms by (auto simp: store_others_def)
  have "keeps db db' \<and> is_pending db' i = is_pending db i"
    using c by (cases c) (simp_all add: api_call_def keeps_store_insert keeps_store_get keeps_store_reply
        is_pending_store_insert is_pending_store_get is_pending_store_reply)
  then show "db_wf db \<Longrightarrow> db_wf db'" and "is_pending db' i = is_pending db i" by (simp_all add: keeps_def)
qed

lemma message_id_eq: "i = j \<longleftrightarrow> message_raw i = message_raw j"
  using message_id.expand by auto

interpretation runner_store: job_store db_wf pending_id store_claims store_finishes store_others
proof unfold_locales
  show "db_wf db \<Longrightarrow> store_claims db r db' \<Longrightarrow> db_wf db'" for db r db'
    using store_claims_answer by (simp add: claim_answer_def)
  show "db_wf db \<Longrightarrow> store_finishes db i out r db' \<Longrightarrow> db_wf db'" for db i out r db'
    using keeps_snd [OF keeps_finish] by (auto simp: store_finishes_def)
  show "db_wf db \<Longrightarrow> store_others db db' \<Longrightarrow> db_wf db'" for db db'
    using store_others_facts(1) by blast
  show "db_wf db \<Longrightarrow> store_claims db (Inr (Some j)) db' \<Longrightarrow>
      \<not> pending_id db (job_id j) \<and> (\<forall>i. pending_id db' i \<longleftrightarrow> i = job_id j \<or> pending_id db i)" for db j db'
    using store_claims_answer [of db "Inr (Some j)" db']
    by (simp add: claim_answer_def pending_id_def message_id_eq)
  show "db_wf db \<Longrightarrow> store_claims db (Inr None) db' \<Longrightarrow> pending_id db' i = pending_id db i" for db db' i
    using store_claims_answer [of db "Inr None" db'] by (simp add: claim_answer_def pending_id_def)
  show "db_wf db \<Longrightarrow> store_claims db (Inl e) db' \<Longrightarrow> pending_id db i \<Longrightarrow> pending_id db' i" for db e db' i
    using store_claims_answer [of db "Inl e" db'] by (simp add: claim_answer_def pending_id_def)
  show "db_wf db \<Longrightarrow> store_finishes db i out r db' \<Longrightarrow> k \<noteq> i \<Longrightarrow> pending_id db' k = pending_id db k"
    for db i out r db' k
    using is_pending_finish(1) [of db "message_raw i" out r db' "message_raw k"]
    by (simp add: store_finishes_def pending_id_def message_id_eq)
  show "db_wf db \<Longrightarrow> store_finishes db i out (Inr ()) db' \<Longrightarrow> \<not> pending_id db' i" for db i out db'
    using is_pending_finish(2) [of db "message_raw i" out "Inr ()" db']
    by (simp add: store_finishes_def pending_id_def)
  show "db_wf db \<Longrightarrow> store_others db db' \<Longrightarrow> pending_id db' i = pending_id db i" for db db' i
    using store_others_facts(2) by (simp add: pending_id_def)
qed

abbreviation runner_step :: "workspace_root \<Rightarrow> database worker_state \<Rightarrow> database worker_state \<Rightarrow> bool" where
  "runner_step root \<equiv> worker_step store_claims store_finishes store_others root"

abbreviation runner_start :: "database \<Rightarrow> nat \<Rightarrow> database worker_state \<Rightarrow> bool" where
  "runner_start db n \<equiv> worker_start db_wf db n"

interpretation runner: safe_system "runner_start db n" "runner_step root" "runner_store.worker_inv db n"
  for db n root
  by unfold_locales (auto intro: runner_store.worker_inv_start runner_store.worker_inv_step)

section \<open>Properties of the runner\<close>

definition idle_runner :: "database \<Rightarrow> nat \<Rightarrow> database worker_state" where
  "idle_runner db n = \<lparr>wdb = db, wfs = [], permits = n, phase = Acquiring, tasks = [], shutdown = False, trouble = False\<rparr>"

lemma idle_runner_start: "db_wf db \<Longrightarrow> runner_start db n (idle_runner db n)"
  by (simp add: worker_start_def idle_runner_def)

text \<open>
  C4: at any moment at most \<open>max_concurrent_jobs\<close> jobs are running; every permit is free, held
  by the poller or owned by exactly one unfinished task; the unfinished tasks work on
  different messages, and every one of these is pending in the table.
\<close>
theorem concurrency_is_bounded:
  assumes "reachable (runner_start db n) (runner_step root) s"
  shows "length (live (tasks s)) \<le> n \<and>
    permits s + length (live (tasks s)) + (if phase s = Claiming then 1 else 0) = n \<and>
    distinct (map job_id (live (tasks s))) \<and>
    (\<forall>j \<in> set (live (tasks s)). is_pending (wdb s) (message_raw (job_id j)))"
  using runner.reachable_inv [OF assms]
  by (auto simp: runner_store.worker_inv_def live_ids_def holding_def pending_id_def)

definition sample_job :: job where
  "sample_job = job_with_status (joined_row (sample_db None []) (sample_row 1 ''a'' (Some ''pending''))) Pending"

lemma no_rivals_inserts: "inserts_only no_rivals"
  unfolding inserts_only_def no_rivals_def by (intro allI exI [of _ "[]"]) (simp add: inserts_def)

lemma sample_claims:
  "\<exists>j db'. store_claims (sample_db None []) (Inr (Some j)) db'"
proof -
  have "oldest_unclaimed (sample_db None []) (sample_row 1 ''a'' None)"
    by (simp add: oldest_unclaimed_def is_unclaimed_def)
  from claim_next_answered [OF sample_db_wf _ this] no_rivals_inserts show ?thesis
    unfolding store_claims_def by (metis sample_db_simps(1))
qed

lemma sample_busy:
  "\<exists>s. reachable (runner_start (sample_db None []) 1) (runner_step root) s \<and> length (live (tasks s)) = 1"
proof -
  let ?s = "idle_runner (sample_db None []) 1"
  obtain j db' where cl: "store_claims (sample_db None []) (Inr (Some j)) db'" using sample_claims by blast
  let ?s1 = "?s\<lparr>phase := Claiming, permits := 0\<rparr>"
  have "reachable (runner_start (sample_db None []) 1) (runner_step root) ?s"
    by (rule reachable_start) (simp add: idle_runner_start)
  then have "reachable (runner_start (sample_db None []) 1) (runner_step root) ?s1"
    by (rule reachable_step) (rule worker_step.acquire; simp add: idle_runner_def)
  moreover have "runner_step root ?s1 (?s1\<lparr>phase := Acquiring, wdb := db', tasks := tasks ?s1 @ [Spawned j]\<rparr>)"
    using cl by (intro worker_step.spawn) (simp_all add: idle_runner_def)
  ultimately have "reachable (runner_start (sample_db None []) 1) (runner_step root)
      (?s1\<lparr>phase := Acquiring, wdb := db', tasks := tasks ?s1 @ [Spawned j]\<rparr>)"
    by (rule reachable_step)
  moreover have "length (live (tasks (?s1\<lparr>phase := Acquiring, wdb := db', tasks := tasks ?s1 @ [Spawned j]\<rparr>))) = 1"
    by (simp add: idle_runner_def)
  ultimately show ?thesis by blast
qed

theorem concurrency_is_bounded_witness:
  "\<exists>s. reachable (runner_start (sample_db None []) 1) (runner_step (WorkspaceRoot ''/w'')) s \<and>
     length (live (tasks s)) = 1 \<and> permits s = 0"
proof -
  obtain s where s: "reachable (runner_start (sample_db None []) 1) (runner_step (WorkspaceRoot ''/w'')) s"
    "length (live (tasks s)) = 1" using sample_busy by blast
  from concurrency_is_bounded [OF s(1)] s show ?thesis by auto
qed

text \<open>
  C26: when the runner has stopped, nothing is in flight and every permit is back; if no store
  call failed and no task panicked, every message still pending was pending before the
  runner started.
\<close>
theorem shutdown_is_clean:
  assumes "reachable (runner_start db n) (runner_step root) s" and "phase s = Stopped"
  shows "shutdown s \<and> tasks s = [] \<and> permits s = n \<and>
    (\<not> trouble s \<longrightarrow> (\<forall>i. is_pending (wdb s) i \<longrightarrow> is_pending db i))"
proof -
  have inv: "runner_store.worker_inv db n s" using runner.reachable_inv [OF assms(1)] .
  have "is_pending (wdb s) i \<longrightarrow> is_pending db i" if "\<not> trouble s" for i
    using inv that assms(2) unfolding runner_store.worker_inv_def pending_id_def live_ids_def
    by (metis (no_types) empty_iff list.set(1) list.simps(8) live_simps(1) message_id.sel)
  then show ?thesis
    using inv assms(2) by (auto simp: runner_store.worker_inv_def holding_def)
qed

lemma stopped_after_poll:
  assumes wf: "db_wf db" and poll: "store_claims db r db'" and "\<forall>j. r \<noteq> Inr (Some j)"
  shows "\<exists>s. reachable (runner_start db (Suc n)) (runner_step root) s \<and> phase s = Stopped \<and>
    tasks s = [] \<and> wdb s = db' \<and> (trouble s \<longleftrightarrow> (\<exists>e. r = Inl e))"
proof -
  let ?R = "reachable (runner_start db (Suc n)) (runner_step root)"
  let ?s = "idle_runner db (Suc n)"
  let ?s1 = "?s\<lparr>phase := Claiming, permits := n\<rparr>"
  let ?s2 = "?s1\<lparr>phase := Sleeping, wdb := db', permits := Suc (permits ?s1), trouble := (\<exists>e. r = Inl e)\<rparr>"
  let ?s3 = "?s2\<lparr>shutdown := True\<rparr>"
  let ?s4 = "?s3\<lparr>phase := Draining\<rparr>"
  have "?R ?s" by (rule reachable_start) (simp add: idle_runner_start wf)
  then have "?R ?s1"
    by (rule reachable_step) (rule worker_step.acquire; simp add: idle_runner_def)
  moreover have "runner_step root ?s1 ?s2"
  proof (cases r)
    case (Inl e)
    with poll have "runner_step root ?s1 (?s1\<lparr>phase := Sleeping, wdb := db', permits := Suc (permits ?s1), trouble := True\<rparr>)"
      by (intro worker_step.poll_error [where e = e]) (simp_all add: idle_runner_def)
    with Inl show ?thesis by simp
  next
    case (Inr q)
    with assms(3) poll have "store_claims db (Inr None) db'" by (cases q) simp_all
    then have "runner_step root ?s1 (?s1\<lparr>phase := Sleeping, wdb := db', permits := Suc (permits ?s1)\<rparr>)"
      by (intro worker_step.no_job) (simp_all add: idle_runner_def)
    with Inr show ?thesis by (simp add: idle_runner_def)
  qed
  ultimately have "?R ?s2" by (rule reachable_step)
  then have "?R ?s3" by (rule reachable_step) (rule worker_step.request_shutdown)
  then have "?R ?s4" by (rule reachable_step) (rule worker_step.break_sleep; simp)
  then have "?R (?s4\<lparr>phase := Stopped\<rparr>)"
    by (rule reachable_step) (rule worker_step.stop; simp add: idle_runner_def)
  then show ?thesis
    by (intro exI [of _ "?s4\<lparr>phase := Stopped\<rparr>"]) (simp add: idle_runner_def)
qed

lemma busy_db_wf: "db_wf (busy_db k)"
  by (simp add: db_wf_def busy_db_rows, simp add: busy_db_def int_max_def)

theorem shutdown_is_clean_witness:
  "\<exists>s. reachable (runner_start (busy_db 6) 1) (runner_step (WorkspaceRoot ''/w'')) s \<and>
     phase s = Stopped \<and> permits s = 1 \<and> (\<forall>i. is_pending (wdb s) i \<longrightarrow> is_pending (busy_db 6) i)"
proof -
  have none: "\<forall>m \<in> set (messages (busy_db 6)). \<not> is_unclaimed m"
    by (simp add: busy_db_rows is_unclaimed_def)
  have "claim_next no_rivals (busy_db 6) = (Inr None, busy_db 6)"
    by (rule claim_next_empty [OF _ none]) (simp add: busy_db_def)
  then have "store_claims (busy_db 6) (Inr None) (busy_db 6)"
    using no_rivals_inserts unfolding store_claims_def by blast
  from stopped_after_poll [OF busy_db_wf this, of 0 "WorkspaceRoot ''/w''"]
  obtain s where s: "reachable (runner_start (busy_db 6) 1) (runner_step (WorkspaceRoot ''/w'')) s"
    "phase s = Stopped" "\<not> trouble s" by auto
  from shutdown_is_clean [OF s(1,2)] s show ?thesis by blast
qed

text \<open>The read-back of a claimed row fails: its claim is in the table, nobody works on it.\<close>

definition lost_claim_db :: database where
  "lost_claim_db = sample_db None [Answered, Answered, Refused (SqlxIo ''gone'')]"

lemma lost_claim:
  "claim_next no_rivals lost_claim_db = (Inl (Database (SqlxIo ''gone'')), sample_db (Some ''pending'') [])"
proof -
  let ?e = "Refused (SqlxIo ''gone'')"
  have "oldest_unclaimed_id lost_claim_db = (Inr (Some (MessageId 1)), sample_db None [Answered, ?e])"
    by (simp add: lost_claim_db_def oldest_unclaimed_id_def on_pool_def execute_def pop_fault_def
        select_oldest_def is_unclaimed_def; simp add: sample_db_def)
  moreover have "try_claim (MessageId 1) (sample_db None [Answered, ?e]) = (Inr True, sample_db (Some ''pending'') [?e])"
    by (simp add: try_claim_def on_pool_def execute_def pop_fault_def claim_row_def update_messages_def
        is_unclaimed_def; simp add: sample_db_def sample_row_def)
  moreover have "store_get (MessageId 1) (sample_db (Some ''pending'') [?e]) =
      (Inl (Database (SqlxIo ''gone'')), sample_db (Some ''pending'') [])"
    by (simp add: store_get_def on_pool_def execute_def pop_fault_def; simp add: sample_db_def)
  ultimately show ?thesis
    by (simp only: claim_next_def claim_attempts_Suc claim_loop.simps no_rivals_def prod.case sum.case option.case
        bool.case)
qed

text \<open>
  One failed statement is enough for a stale \<open>pending\<close> row: the runner stops, with nothing
  in flight, while a message that was new when it started is pending.
\<close>
theorem stopped_runner_may_leave_pending:
  "\<exists>s. reachable (runner_start lost_claim_db 1) (runner_step root) s \<and> phase s = Stopped \<and> tasks s = [] \<and>
     is_pending (wdb s) 1 \<and> \<not> is_pending lost_claim_db 1"
proof -
  have wf: "db_wf lost_claim_db" by (simp add: lost_claim_db_def)
  have "store_claims lost_claim_db (Inl (Database (SqlxIo ''gone''))) (sample_db (Some ''pending'') [])"
    using lost_claim no_rivals_inserts unfolding store_claims_def by blast
  from stopped_after_poll [OF wf this, of 0 root]
  obtain s where "reachable (runner_start lost_claim_db 1) (runner_step root) s" "phase s = Stopped"
    "tasks s = []" "wdb s = sample_db (Some ''pending'') []" by auto
  then show ?thesis
    by (intro exI [of _ s]) (simp add: is_pending_iff lost_claim_db_def)
qed

text \<open>
  C27: with the database answering, processing a claimed job records its outcome in the row:
  the row ends \<open>done\<close> or \<open>failed\<close> as the outcome says and is no longer pending; a
  workspace that cannot be created is a failure that names the error.
\<close>
theorem process_records_outcome:
  assumes "db_wf db" and "faults db = []" and "is_pending db (message_raw (job_id j))"
    and "next_message_id db \<le> int_max"
    and "process os clock root run j (db, fs) = (outcome, db', fs')"
    and "\<forall>result. outcome = Success result \<longrightarrow> length result \<le> text_max"
  shows "status_at db' (message_raw (job_id j)) = Some (to_db (outcome_status outcome)) \<and>
    (\<forall>e fs1. create os clock root (job_id j) fs = (Inl e, fs1) \<longrightarrow>
       outcome = failed (chain (workspace_error_texts e)))"
proof -
  let ?i = "message_raw (job_id j)"
  obtain fs1 where ex: "execute_job os clock root run j fs = (outcome, fs1)"
    and fin: "db' = snd (finish (job_id j) outcome db)"
    using assms(5) by (auto simp: process_def split: prod.splits)
  have id: "MessageId ?i = job_id j" by simp
  obtain m where m: "message_at db ?i = Some m" "msg_status m = to_db Pending"
    using assms(3) by (rule is_pendingE)
  have "status_at db' ?i = Some (to_db (outcome_status outcome))"
  proof (cases outcome)
    case (Success result)
    have "recordable db ?i result"
      using m assms(4,6) Success by (simp add: recordable_def)
    from finish_done_answered [OF assms(1,2) this] obtain d where
      "finish (MessageId ?i) (Success result) db = (Inr (), d)"
      "reply_recorded db ?i result (int (next_message_id db)) d" by blast
    then have "reply_recorded db ?i result (int (next_message_id db)) db'"
      using fin Success id by simp
    then show ?thesis
      unfolding reply_recorded_def using Success by (auto simp: status_at_def)
  next
    case (FailedOutcome err result)
    from finish_failed_answered [OF assms(1,2) m] obtain d where
      "finish (MessageId ?i) (FailedOutcome err result) db = (Inr (), d)"
      "\<And>k. message_at d k = (if k = ?i then Some (m\<lparr>msg_status := to_db Failed,
          msg_payload := Some (set_failure err result (coalesce_object (msg_payload m)))\<rparr>)
        else message_at db k)" by blast
    then show ?thesis
      using fin FailedOutcome id by (simp add: status_at_def)
  qed
  moreover have "outcome = failed (chain (workspace_error_texts e))"
    if "create os clock root (job_id j) fs = (Inl e, fs0)" for e fs0
    using ex that by (simp add: execute_job_def)
  ultimately show ?thesis by blast
qed

theorem process_records_outcome_witness:
  "\<exists>outcome db' fs'. process sample_os (Some 9) (WorkspaceRoot ''/w'') (\<lambda>_ fs. (ShutDown, fs)) sample_job
       (sample_db (Some ''pending'') [], [(''/w'', Directory)]) = (outcome, db', fs') \<and>
     status_at db' 1 = Some (Some ''failed'')"
proof -
  let ?run = "\<lambda>(_ :: run_request) fs :: fs. (ShutDown, fs)"
  obtain outcome db' fs' where run: "process sample_os (Some 9) (WorkspaceRoot ''/w'') ?run sample_job
      (sample_db (Some ''pending'') [], [(''/w'', Directory)]) = (outcome, db', fs')"
    by (metis prod_cases3)
  have id: "message_raw (job_id sample_job) = 1" by (simp add: sample_job_def)
  have out: "\<exists>e r. outcome = FailedOutcome e r"
    using run by (auto simp: process_def execute_job_def failed_def split: prod.splits sum.splits)
  then have "status_at db' (message_raw (job_id sample_job)) = Some (to_db (outcome_status outcome))"
    using process_records_outcome [OF sample_db_wf _ _ _ run] id
    by (auto simp: is_pending_iff int_max_def)
  then show ?thesis using run out id by auto
qed

end
