(* ===== verification/Float64.thy ===== *)
theory Float64
  imports Json
begin

text \<open>
  What the repository does with \<open>f64\<close> values beyond arithmetic: tests for zero and for
  being finite, and \<open>total_cmp\<close>, all on the bits. Rounding arithmetic, conversion and
  decimal text are operations of the platform and a record of parameters.
\<close>

unbundle bit_operations_syntax

definition f64_magnitude :: "f64 \<Rightarrow> nat" where
  "f64_magnitude x = unat (x AND 0x7FFFFFFFFFFFFFFF)"

definition f64_negative :: "f64 \<Rightarrow> bool" where
  "f64_negative x \<longleftrightarrow> bit x 63"

text \<open>\<open>x == 0.0\<close> holds of both zeros and of nothing else.\<close>

definition f64_is_zero :: "f64 \<Rightarrow> bool" where
  "f64_is_zero x \<longleftrightarrow> f64_magnitude x = 0"

definition f64_is_finite :: "f64 \<Rightarrow> bool" where
  "f64_is_finite x \<longleftrightarrow> f64_magnitude x < 0x7FF0000000000000"

text \<open>\<open>total_cmp\<close>: by sign, then by magnitude, reversed for negative values.\<close>

definition f64_rank :: "f64 \<Rightarrow> int" where
  "f64_rank x = (if f64_negative x then - int (f64_magnitude x) - 1 else int (f64_magnitude x))"

definition total_cmp :: "f64 \<Rightarrow> f64 \<Rightarrow> ordering" where
  "total_cmp x y = cmp_of (f64_rank x) (f64_rank y)"

record platform =
  f64_of_number :: "number \<Rightarrow> f64"
  show_f64 :: "f64 \<Rightarrow> string"
  parse_f64 :: "string \<Rightarrow> f64 option"
  f64_add :: "f64 \<Rightarrow> f64 \<Rightarrow> f64"
  to_lowercase :: "string \<Rightarrow> string"

text \<open>\<open>serde_json::Number\<close> as text, and a float as a JSON value (not finite is \<open>null\<close>).\<close>

fun show_number :: "platform \<Rightarrow> number \<Rightarrow> string" where
  "show_number pf (PosInt n) = show_nat n"
| "show_number pf (NegInt i) = show_int i"
| "show_number pf (Float x) = show_f64 pf x"

definition json_f64 :: "f64 \<Rightarrow> json" where
  "json_f64 x = (if f64_is_finite x then JNumber (Float x) else JNull)"

text \<open>\<open>total\<close>: a left fold from \<open>0.0\<close>.\<close>

definition f64_total :: "platform \<Rightarrow> f64 list \<Rightarrow> f64" where
  "f64_total pf amounts = foldl (f64_add pf) 0 amounts"

section \<open>Comparison closures\<close>

lemma comparison_key: "comparison c \<Longrightarrow> comparison (\<lambda>x y. c (f x) (f y))"
  unfolding comparison_def by blast

lemma reverse_ordering_iff [simp]:
  "reverse_ordering r = Less \<longleftrightarrow> r = Greater"
  "reverse_ordering r = Equal \<longleftrightarrow> r = Equal"
  "reverse_ordering r = Greater \<longleftrightarrow> r = Less"
  by (cases r; simp)+

lemma comparison_flip:
  assumes "comparison c"
  shows "comparison (\<lambda>x y. c y x)"
proof
  show "c x x = Equal" for x by (rule comparison.cmp_refl [OF assms])
  show "c x y = reverse_ordering (c y x)" for x y by (rule comparison.cmp_swap [OF assms])
  show "c y x \<noteq> Greater \<Longrightarrow> c z y \<noteq> Greater \<Longrightarrow> c z x \<noteq> Greater" for x y z
    using comparison.cmp_trans [OF assms, of z y x] by blast
qed

text \<open>\<open>then_with\<close> of two comparisons.\<close>

lemma comparison_then_with:
  assumes a: "comparison a" and b: "comparison b"
  shows "comparison (\<lambda>x y. then_with (a x y) (b x y))"
proof
  fix x y z
  show "then_with (a x x) (b x x) = Equal"
    by (simp add: comparison.cmp_refl [OF a] comparison.cmp_refl [OF b])
  show "then_with (a y x) (b y x) = reverse_ordering (then_with (a x y) (b x y))"
    using comparison.cmp_swap [OF a, of y x] comparison.cmp_swap [OF b, of y x]
    by (cases "a x y") simp_all
  assume xy: "then_with (a x y) (b x y) \<noteq> Greater" and yz: "then_with (a y z) (b y z) \<noteq> Greater"
  have axy: "a x y \<noteq> Greater" and ayz: "a y z \<noteq> Greater"
    using xy yz by (cases "a x y"; simp; cases "a y z"; simp)+
  have axz: "a x z \<noteq> Greater" using comparison.cmp_trans [OF a axy ayz] .
  show "then_with (a x z) (b x z) \<noteq> Greater"
  proof (cases "a x z")
    case Equal
    then have "a z x \<noteq> Greater" using comparison.cmp_swap [OF a, of z x] by simp
    then have "a z y \<noteq> Greater" "a y x \<noteq> Greater"
      using comparison.cmp_trans [OF a _ axy] comparison.cmp_trans [OF a ayz] by blast+
    then have "a y z = Equal" "a x y = Equal"
      using axy ayz comparison.cmp_swap [OF a, of z y] comparison.cmp_swap [OF a, of y x]
      by (cases "a y z"; cases "a x y"; simp)+
    then show ?thesis using xy yz Equal comparison.cmp_trans [OF b, of x y z] by simp
  qed (use axz in simp_all)
qed

lemma total_cmp_comparison: "comparison total_cmp"
  unfolding total_cmp_def by (rule comparison_key) (rule linorder_cmp.comparison_axioms)

interpretation f64_order: comparison total_cmp
  by (rule total_cmp_comparison)

end
