(* ===== verification/JobctlSql.thy ===== *)
theory JobctlSql
  imports Utf8
begin

text \<open>
  \<open>crates/jobctl/src/sql.rs\<close>: rows rendered as text the way \<open>mysql --batch\<close> does, cut to a
  number of characters. The rows themselves come from the database driver.
\<close>

definition tab :: char where "tab = CHR 0x09"
definition newline :: char where "newline = CHR 0x0A"
definition backslash :: char where "backslash = CHR 0x5C"

definition max_output_chars :: nat where "max_output_chars = 100000"

text \<open>\<open>escape\<close>: a backslash, then a tab, then a newline, each replaced everywhere.\<close>

definition sql_escape :: "string \<Rightarrow> string" where
  "sql_escape value =
     replace_char newline [backslash, CHR ''n'']
       (replace_char tab [backslash, CHR ''t'']
         (replace_char backslash [backslash, backslash] value))"

definition format_cell :: "string option \<Rightarrow> string" where
  "format_cell cell = (case cell of None \<Rightarrow> ''NULL'' | Some v \<Rightarrow> sql_escape v)"

definition format_table :: "string list \<Rightarrow> string option list list \<Rightarrow> string" where
  "format_table columns rows =
     foldl (\<lambda>out row. out @ [newline] @ join [tab] (map format_cell row))
       (join [tab] (map sql_escape columns)) rows"

definition truncation_note :: string where
  "truncation_note = [newline] @ ''... (truncated; add a LIMIT or aggregate)''"

definition sql_truncate :: "string \<Rightarrow> nat \<Rightarrow> string" where
  "sql_truncate text max_chars =
     (case nth_char_offset text max_chars of
        None \<Rightarrow> text
      | Some i \<Rightarrow> take i text @ truncation_note)"

text \<open>\<open>query\<close>, from the rows the driver fetched: column names, and cells as bytes.\<close>

definition render_rows :: "(string list \<times> bytes option list) list \<Rightarrow> string" where
  "render_rows rows =
     (case rows of
        [] \<Rightarrow> ''(no rows)''
      | (columns, cells) # more \<Rightarrow>
          sql_truncate
            (format_table columns (map (\<lambda>(_, cs). map (map_option from_utf8_lossy) cs) rows))
            max_output_chars)"

section \<open>Reading the format back\<close>

fun unescape :: "string \<Rightarrow> string" where
  "unescape [] = []"
| "unescape [c] = [c]"
| "unescape (c # d # s) =
     (if c = backslash
      then (if d = CHR ''n'' then newline else if d = CHR ''t'' then tab else d) # unescape s
      else c # unescape (d # s))"

definition read_line :: "string \<Rightarrow> string list" where
  "read_line l = map unescape (split_on tab l)"

definition read_table :: "string \<Rightarrow> string list \<times> string list list" where
  "read_table t = (read_line (hd (split_on newline t)), map read_line (tl (split_on newline t)))"

lemmas sql_chars = tab_def newline_def backslash_def

lemma sql_escape_Nil [simp]: "sql_escape [] = []"
  by (simp add: sql_escape_def)

lemma sql_escape_Cons:
  "sql_escape (c # s) =
     (if c = backslash then [backslash, backslash]
      else if c = tab then [backslash, CHR ''t'']
      else if c = newline then [backslash, CHR ''n''] else [c]) @ sql_escape s"
  by (simp add: sql_escape_def sql_chars)

lemma unescape_plain: "c \<noteq> backslash \<Longrightarrow> unescape (c # s) = c # unescape s"
  by (cases s) simp_all

lemma unescape_escape [simp]: "unescape (sql_escape s) = s"
  by (induction s) (auto simp: sql_escape_Cons unescape_plain sql_chars)

lemma escape_no_separator: "tab \<notin> set (sql_escape s)" "newline \<notin> set (sql_escape s)"
  by (induction s) (auto simp: sql_escape_Cons sql_chars)

lemma format_cell_no_separator: "tab \<notin> set (format_cell c)" "newline \<notin> set (format_cell c)"
  using escape_no_separator by (auto simp: format_cell_def sql_chars split: option.split)

lemma unescape_NULL [simp]: "unescape ''NULL'' = ''NULL''"
  by (simp add: sql_chars)

lemma unescape_format_cell: "unescape (format_cell c) = (case c of None \<Rightarrow> ''NULL'' | Some v \<Rightarrow> v)"
  by (simp add: format_cell_def del: unescape.simps split: option.split)

lemma set_join: "set (join sep xs) \<subseteq> set sep \<union> (\<Union>x \<in> set xs. set x)"
  by (induction sep xs rule: join.induct) auto

lemma join_append_first: "join sep ((a @ b) # xs) = a @ join sep (b # xs)"
  by (cases xs) simp_all

lemma format_table_lines:
  "format_table columns rows =
     join [newline] (join [tab] (map sql_escape columns) # map (\<lambda>r. join [tab] (map format_cell r)) rows)"
proof -
  have "foldl (\<lambda>out row. out @ [newline] @ f row) h rows = join [newline] (h # map f rows)"
    for f :: "string option list \<Rightarrow> string" and h
  proof (induction rows arbitrary: h)
    case (Cons r rows)
    have "h @ [newline] @ f r = h @ newline # f r" by simp
    then show ?case using Cons.IH by (simp add: join_append_first [of "[newline]" "h @ [newline]" "f r", simplified])
  qed simp
  then show ?thesis by (simp add: format_table_def)
qed

lemma read_line_join:
  assumes "xs \<noteq> []" and "\<And>x. tab \<notin> set (f x)"
  shows "read_line (join [tab] (map f xs)) = map (\<lambda>x. unescape (f x)) xs"
proof -
  have "split_on tab (join [tab] (map f xs)) = map f xs"
    by (rule split_on_join) (use assms in auto)
  then show ?thesis by (simp add: read_line_def)
qed

lemma line_no_newline: "(\<And>x. newline \<notin> set (f x)) \<Longrightarrow> newline \<notin> set (join [tab] (map f xs))"
  using set_join [of "[tab]" "map f xs"] by (auto simp: sql_chars)

section \<open>Properties\<close>

text \<open>
  C32: the rendered table loses nothing: splitting it at newlines and tabs and undoing the
  escapes gives back the column names and every value, with SQL \<open>NULL\<close> shown as \<open>NULL\<close>.
\<close>
theorem table_round_trip:
  assumes "columns \<noteq> []" and "\<forall>r \<in> set rows. r \<noteq> []"
  shows "read_table (format_table columns rows) =
    (columns, map (map (\<lambda>c. case c of None \<Rightarrow> ''NULL'' | Some v \<Rightarrow> v)) rows)"
proof -
  let ?lines = "join [tab] (map sql_escape columns) # map (\<lambda>r. join [tab] (map format_cell r)) rows"
  have header: "newline \<notin> set (join [tab] (map sql_escape columns))"
    by (rule line_no_newline) (rule escape_no_separator)
  have row: "newline \<notin> set (join [tab] (map format_cell r))" for r
    by (rule line_no_newline) (rule format_cell_no_separator)
  have "split_on newline (format_table columns rows) = ?lines"
    unfolding format_table_lines
    by (rule split_on_join) (simp_all add: header row)
  moreover have "read_line (join [tab] (map sql_escape columns)) = columns"
    using read_line_join [OF assms(1), of sql_escape] escape_no_separator by simp
  moreover have "map read_line (map (\<lambda>r. join [tab] (map format_cell r)) rows) =
      map (map (\<lambda>c. case c of None \<Rightarrow> ''NULL'' | Some v \<Rightarrow> v)) rows"
    using assms(2) read_line_join [of _ format_cell] format_cell_no_separator
    by (simp add: unescape_format_cell)
  ultimately show ?thesis by (simp add: read_table_def)
qed

theorem table_round_trip_witness:
  "read_table (format_table [''rep'', ''x''] [[None, Some [tab, backslash, newline]]]) =
     ([''rep'', ''x''], [[''NULL'', [tab, backslash, newline]]])"
  using table_round_trip [of "[''rep'', ''x'']" "[[None, Some [tab, backslash, newline]]]"] by simp

text \<open>
  C33: the cut never exceeds the limit and never splits a character: a text within the limit
  is returned as it is, a longer one as its first \<open>max\<close> characters, ending where a character
  starts, and the note.
\<close>
theorem truncate_at_character:
  "(char_count t \<le> m \<longrightarrow> sql_truncate t m = t) \<and>
   (m < char_count t \<longrightarrow>
     (\<exists>i. sql_truncate t m = take i t @ truncation_note \<and> i < length t \<and>
        char_count (take i t) = m \<and> \<not> is_continuation (t ! i)))"
proof (cases "nth_char_offset t m")
  case None
  then show ?thesis using nth_char_offset_None [of t m] by (simp add: sql_truncate_def)
next
  case (Some i)
  then have "m < char_count t" using nth_char_offset_None [of t m] by (simp add: not_le [symmetric])
  with Some nth_char_offset_Some [OF Some] show ?thesis
    by (auto simp: sql_truncate_def)
qed

theorem truncate_at_character_witness:
  "sql_truncate ''ab'' 5 = ''ab'' \<and>
   (\<exists>i. sql_truncate ''abcd'' 2 = take i ''abcd'' @ truncation_note \<and> char_count (take i ''abcd'') = 2)"
proof -
  have "char_count ''ab'' \<le> 5" "2 < char_count ''abcd''" by (simp_all add: char_count_def is_continuation_def byte_def)
  then show ?thesis using truncate_at_character [of "''ab''" 5] truncate_at_character [of "''abcd''" 2] by blast
qed

end
