(* ===== verification/QboValues.thy ===== *)
theory QboValues
  imports Float64 JobctlSql Tables Workspace
begin

text \<open>
  \<open>crates/jobctl/src/qbo.rs\<close>, the parts below its tools: the arguments a tool accepts, the
  quoting of what goes into a request, and the values read out of QuickBooks' answers.
  Errors are \<open>crates/jobctl/src/lib.rs\<close>'s.
\<close>

datatype jobctl_error =
    DbError sqlx_error
  | ConfigError string
  | NotFoundError string
  | HttpError string
  | InvalidArgument string
  | Denied string
  | IoFailed io_error

fun sqlx_error_text :: "sqlx_error \<Rightarrow> string" where
  "sqlx_error_text (SqlxIo m) = m"
| "sqlx_error_text (SqlxProtocol m) = m"
| "sqlx_error_text (SqlxTls m) = m"
| "sqlx_error_text (SqlxDatabase m) = m"
| "sqlx_error_text (SqlxOther m) = m"

fun jobctl_error_text :: "jobctl_error \<Rightarrow> string" where
  "jobctl_error_text (DbError e) = sqlx_error_text e"
| "jobctl_error_text (ConfigError m) = m"
| "jobctl_error_text (NotFoundError m) = m"
| "jobctl_error_text (HttpError m) = m"
| "jobctl_error_text (InvalidArgument m) = m"
| "jobctl_error_text (Denied m) = m"
| "jobctl_error_text (IoFailed (IoError m)) = m"

section \<open>Arguments\<close>

definition optional_str :: "json \<Rightarrow> string \<Rightarrow> string option" where
  "optional_str args name =
     (case Option.bind (json_get args name) as_str of
        None \<Rightarrow> None
      | Some v \<Rightarrow> if trim v = [] then None else Some (trim v))"

definition required_str :: "json \<Rightarrow> string \<Rightarrow> jobctl_error + string" where
  "required_str args name = ok_or (optional_str args name) (InvalidArgument (name @ '' is required''))"

definition is_date :: "string \<Rightarrow> bool" where
  "is_date value \<longleftrightarrow> length value = 10 \<and>
     (\<forall>i \<in> set [0..<length value].
        if i = 4 \<or> i = 7 then value ! i = CHR ''-'' else is_ascii_digit (value ! i))"

definition required_date :: "json \<Rightarrow> string \<Rightarrow> jobctl_error + string" where
  "required_date args name =
     bind_result (required_str args name)
       (\<lambda>value. if is_date value then Inr value
                else Inl (InvalidArgument (name @ '' must be YYYY-MM-DD'')))"

text \<open>The app's \<open>isValidQboEntityId\<close>.\<close>

definition is_entity_id :: "string \<Rightarrow> bool" where
  "is_entity_id value \<longleftrightarrow> 1 \<le> length value \<and> length value \<le> 32 \<and> list_all is_ascii_digit value"

definition optional_entity_id :: "platform \<Rightarrow> json \<Rightarrow> string \<Rightarrow> jobctl_error + string option" where
  "optional_entity_id pf args name =
     (case json_get args name of
        None \<Rightarrow> Inr None
      | Some JNull \<Rightarrow> Inr None
      | Some v \<Rightarrow>
          let raw = (case v of JString t \<Rightarrow> trim t | JNumber n \<Rightarrow> show_number pf n | _ \<Rightarrow> []) in
          if is_entity_id raw then Inr (Some raw)
          else Inl (InvalidArgument (name @ '' must be a numeric QuickBooks id'')))"

definition optional_positive :: "json \<Rightarrow> string \<Rightarrow> jobctl_error + int option" where
  "optional_positive args name =
     (case json_get args name of
        None \<Rightarrow> Inr None
      | Some JNull \<Rightarrow> Inr None
      | Some v \<Rightarrow>
          (case (case as_i64 v of
                   Some i \<Rightarrow> Some i
                 | None \<Rightarrow> Option.bind (as_str v) (\<lambda>t. parse_i64 (trim t))) of
             Some i \<Rightarrow> if 0 < i then Inr (Some i)
                        else Inl (InvalidArgument (name @ '' must be a positive integer''))
           | None \<Rightarrow> Inl (InvalidArgument (name @ '' must be a positive integer''))))"

section \<open>Quoting\<close>

definition quote :: char where "quote = CHR 0x27"

definition qbo_escape :: "string \<Rightarrow> string" where
  "qbo_escape value = replace_char quote [quote, quote] value"

definition is_unreserved :: "char \<Rightarrow> bool" where
  "is_unreserved c \<longleftrightarrow>
     is_ascii_alphanumeric c \<or> c = CHR ''-'' \<or> c = CHR ''.'' \<or> c = CHR ''_'' \<or> c = CHR ''~''"

definition hex_digit :: "nat \<Rightarrow> char" where
  "hex_digit n = (if n < 10 then char_of (48 + n) else char_of (55 + n))"

text \<open>\<open>%{other:02X}\<close>.\<close>

definition percent_byte :: "char \<Rightarrow> string" where
  "percent_byte c = [CHR ''%'', hex_digit (byte c div 16), hex_digit (byte c mod 16)]"

definition percent_encode :: "string \<Rightarrow> string" where
  "percent_encode value = concat (map (\<lambda>c. if is_unreserved c then [c] else percent_byte c) value)"

section \<open>Values of QuickBooks\<close>

text \<open>\<open>text\<close>: a non-blank string, or a number as text.\<close>

fun qbo_text :: "platform \<Rightarrow> json \<Rightarrow> string option" where
  "qbo_text pf (JString s) = (if trim s \<noteq> [] then Some s else None)"
| "qbo_text pf (JNumber n) = Some (show_number pf n)"
| "qbo_text pf _ = None"

fun qbo_number :: "platform \<Rightarrow> json \<Rightarrow> f64 option" where
  "qbo_number pf (JNumber n) = Some (f64_of_number pf n)"
| "qbo_number pf (JString s) =
     (case parse_f64 pf (replace_char CHR '','' [] (trim s)) of
        Some x \<Rightarrow> if f64_is_finite x then Some x else None
      | None \<Rightarrow> None)"
| "qbo_number pf _ = None"

definition entities :: "json \<Rightarrow> string \<Rightarrow> json list" where
  "entities payload key =
     (case json_index (json_index payload ''QueryResponse'') key of
        JArray items \<Rightarrow> items
      | JObject kvs \<Rightarrow> [JObject kvs]
      | _ \<Rightarrow> [])"

record qbo_customer =
  cust_id :: string
  cust_display_name :: string
  cust_email :: "string option"

definition customer_parse :: "platform \<Rightarrow> json \<Rightarrow> qbo_customer option" where
  "customer_parse pf v =
     (case qbo_text pf (json_index v ''Id'') of
        None \<Rightarrow> None
      | Some i \<Rightarrow>
          Some \<lparr>cust_id = i,
                cust_display_name =
                  (case qbo_text pf (json_index v ''DisplayName'') of
                     None \<Rightarrow> ''QuickBooks customer '' @ i
                   | Some n \<Rightarrow> n),
                cust_email = qbo_text pf (json_index (json_index v ''PrimaryEmailAddr'') ''Address'')\<rparr>)"

definition address :: "platform \<Rightarrow> json \<Rightarrow> string option" where
  "address pf v =
     (let parts = List.map_filter (\<lambda>field. qbo_text pf (json_index v field))
            [''Line1'', ''Line2'', ''Line3'', ''City'', ''CountrySubDivisionCode'', ''PostalCode'']
      in if parts = [] then None else Some (join '', '' parts))"

definition invoice_summary :: "platform \<Rightarrow> json \<Rightarrow> json" where
  "invoice_summary pf v =
     (let txt = (\<lambda>k. json_opt JString (qbo_text pf (json_index v k)));
          ref = (\<lambda>k f. json_opt JString (qbo_text pf (json_index (json_index v k) f)))
      in json_object
        [(''id'', txt ''Id''), (''docNumber'', txt ''DocNumber''), (''txnDate'', txt ''TxnDate''),
         (''dueDate'', txt ''DueDate''),
         (''totalAmt'', json_opt json_f64 (qbo_number pf (json_index v ''TotalAmt''))),
         (''balance'', json_opt json_f64 (qbo_number pf (json_index v ''Balance''))),
         (''currency'', ref ''CurrencyRef'' ''value''),
         (''qboCustomerId'', ref ''CustomerRef'' ''value''),
         (''customerName'', ref ''CustomerRef'' ''name''),
         (''projectAddress'', json_opt JString (address pf (json_index v ''ShipAddr'')))])"

text \<open>The app's \<open>pickQboCustomerByName\<close>.\<close>

fun only_one :: "'a list \<Rightarrow> 'a option" where
  "only_one [x] = Some x"
| "only_one _ = None"

definition name_key :: "platform \<Rightarrow> string \<Rightarrow> string" where
  "name_key pf value = to_lowercase pf (trim value)"

definition same_email :: "platform \<Rightarrow> string \<Rightarrow> qbo_customer \<Rightarrow> bool" where
  "same_email pf email c \<longleftrightarrow>
     name_key pf email \<noteq> [] \<and> map_option (name_key pf) (cust_email c) = Some (name_key pf email)"

definition pick_by_name :: "platform \<Rightarrow> qbo_customer list \<Rightarrow> string \<Rightarrow> string \<Rightarrow> string option" where
  "pick_by_name pf matches name email =
     (let exact = filter (\<lambda>c. name_key pf (cust_display_name c) = name_key pf name) matches in
      case only_one exact of
        Some c \<Rightarrow> Some (cust_id c)
      | None \<Rightarrow>
          (case (if 1 < length exact then only_one (filter (same_email pf email) exact) else None) of
             Some c \<Rightarrow> Some (cust_id c)
           | None \<Rightarrow>
               (case only_one (filter (same_email pf email) matches) of
                  Some c \<Rightarrow> Some (cust_id c)
                | None \<Rightarrow> map_option cust_id (only_one matches))))"

section \<open>Reading quoted values back\<close>

text \<open>
  A literal of the query language after its opening quote: a doubled quote is a quote, a
  single one ends the literal.
\<close>

fun read_literal :: "string \<Rightarrow> (string \<times> string) option" where
  "read_literal [] = None"
| "read_literal [c] = (if c = quote then Some ([], []) else None)"
| "read_literal (c # d # s) =
     (if c \<noteq> quote then map_option (\<lambda>(v, r). (c # v, r)) (read_literal (d # s))
      else if d = quote then map_option (\<lambda>(v, r). (quote # v, r)) (read_literal s)
      else Some ([], d # s))"

lemma read_literal_plain:
  "c \<noteq> quote \<Longrightarrow> s \<noteq> [] \<Longrightarrow> read_literal (c # s) = map_option (\<lambda>(v, r). (c # v, r)) (read_literal s)"
  by (cases s) auto

lemma read_literal_end: "\<not> prefix [quote] rest \<Longrightarrow> read_literal (quote # rest) = Some ([], rest)"
  by (cases rest) auto

lemma read_literal_escape:
  assumes "\<not> prefix [quote] rest"
  shows "read_literal (qbo_escape v @ quote # rest) = Some (v, rest)"
proof (induction v)
  case Nil
  then show ?case using read_literal_end [OF assms] by (simp add: qbo_escape_def)
next
  case (Cons c v)
  have esc: "qbo_escape (c # v) = (if c = quote then [quote, quote] else [c]) @ qbo_escape v"
    by (simp add: qbo_escape_def)
  show ?case
    unfolding esc by (cases "c = quote") (simp_all add: Cons.IH read_literal_plain)
qed

text \<open>Percent decoding.\<close>

definition hex_value :: "char \<Rightarrow> nat" where
  "hex_value c = (if byte c < 58 then byte c - 48 else byte c - 55)"

fun percent_decode :: "string \<Rightarrow> string" where
  "percent_decode [] = []"
| "percent_decode (c # s) =
     (if c = CHR ''%''
      then (case s of
              a # b # rest \<Rightarrow> char_of (16 * hex_value a + hex_value b) # percent_decode rest
            | _ \<Rightarrow> c # percent_decode s)
      else c # percent_decode s)"

lemma byte_inv [simp]: "char_of (byte c) = c"
  by (simp add: byte_def)

lemma hex_value_digit: "n < 16 \<Longrightarrow> hex_value (hex_digit n) = n"
  by (auto simp: hex_value_def hex_digit_def)

lemma percent_decode_byte: "percent_decode (percent_byte c @ s) = c # percent_decode s"
proof -
  have "byte c div 16 < 16" using byte_less [of c] by (simp add: less_mult_imp_div_less)
  moreover have "16 * (byte c div 16) + byte c mod 16 = byte c" by simp
  ultimately show ?thesis by (simp add: percent_byte_def hex_value_digit)
qed

lemma unreserved_not_percent: "is_unreserved c \<Longrightarrow> c \<noteq> CHR ''%''"
  by (auto simp: is_unreserved_def ascii_defs byte_def)

lemma percent_decode_plain: "c \<noteq> CHR ''%'' \<Longrightarrow> percent_decode (c # s) = c # percent_decode s"
  by simp

lemma percent_decode_encode: "percent_decode (percent_encode s) = s"
proof (induction s)
  case (Cons c s)
  have "percent_encode (c # s) = (if is_unreserved c then [c] else percent_byte c) @ percent_encode s"
    by (simp add: percent_encode_def)
  then show ?case
    using Cons.IH percent_decode_byte percent_decode_plain [OF unreserved_not_percent] by simp
qed (simp add: percent_encode_def)

lemma hex_digit_unreserved: "n < 16 \<Longrightarrow> is_unreserved (hex_digit n)"
  by (auto simp: hex_digit_def is_unreserved_def ascii_defs)

lemma percent_encode_chars: "c \<in> set (percent_encode s) \<Longrightarrow> is_unreserved c \<or> c = CHR ''%''"
proof -
  have "is_unreserved (hex_digit (byte d div 16))" "is_unreserved (hex_digit (byte d mod 16))" for d
    using byte_less [of d] by (auto intro!: hex_digit_unreserved simp: less_mult_imp_div_less)
  then show "c \<in> set (percent_encode s) \<Longrightarrow> is_unreserved c \<or> c = CHR ''%''"
    by (auto simp: percent_encode_def percent_byte_def split: if_splits)
qed

interpretation percent_codec: codec percent_encode "\<lambda>s. Inr (percent_decode s) :: unit + string"
  by unfold_locales (simp add: percent_decode_encode)

section \<open>Properties\<close>

text \<open>
  A value put into a query between quotes stays inside them: a reader of the literal
  gets exactly the value and what follows the closing quote, whatever the value holds.
\<close>
theorem escaped_value_stays_quoted:
  assumes "\<not> prefix [quote] rest"
  shows "read_literal (qbo_escape v @ [quote] @ rest) = Some (v, rest)"
  using read_literal_escape [OF assms] by simp

theorem escaped_value_stays_quoted_witness:
  "read_literal (qbo_escape [quote, CHR ''x'', quote] @ [quote] @ '' maxresults 25'') =
     Some ([quote, CHR ''x'', quote], '' maxresults 25'')"
  using escaped_value_stays_quoted [of "'' maxresults 25''"] by (simp add: quote_def)

text \<open>
  A percent-encoded parameter decodes to the parameter and holds none of the characters
  that structure a URL.
\<close>
theorem percent_encoding_is_safe:
  "percent_decode (percent_encode s) = s \<and>
   set (percent_encode s) \<inter> {CHR ''&'', CHR ''='', CHR ''?'', CHR ''/'', CHR ''#'', CHR '' ''} = {}"
proof -
  have bad: "\<not> (is_unreserved c \<or> c = CHR ''%'')"
    if "c \<in> {CHR ''&'', CHR ''='', CHR ''?'', CHR ''/'', CHR ''#'', CHR '' ''}" for c
    using that by (elim insertE) (simp_all add: is_unreserved_def ascii_defs byte_def)
  have "c \<notin> {CHR ''&'', CHR ''='', CHR ''?'', CHR ''/'', CHR ''#'', CHR '' ''}" if "c \<in> set (percent_encode s)" for c
    using bad [of c] percent_encode_chars [OF that] by argo
  then have "set (percent_encode s) \<inter> {CHR ''&'', CHR ''='', CHR ''?'', CHR ''/'', CHR ''#'', CHR '' ''} = {}"
    unfolding disjoint_iff by (intro allI impI)
  then show ?thesis using percent_decode_encode [of s] by (intro conjI)
qed

lemma only_one_alt: "only_one xs = (if length xs = 1 then Some (hd xs) else None)"
  by (cases xs rule: only_one.cases) auto

lemma only_one_mset:
  assumes "mset xs = mset ys"
  shows "only_one xs = only_one ys"
proof (cases "length xs = 1")
  case True
  then obtain x where x: "xs = [x]" by (auto simp: length_Suc_conv)
  with assms have "ys = [x]" by simp
  with x show ?thesis by simp
next
  case False
  then show ?thesis using size_mset [of xs] size_mset [of ys] assms by (simp add: only_one_alt)
qed

text \<open>
  The customer picked for a name does not depend on the order QuickBooks lists the
  candidates in; it is one of them, and it is the one of that name when there is just one.
\<close>
theorem pick_by_name_order_independent:
  assumes "mset matches = mset others"
  shows "pick_by_name pf matches name email = pick_by_name pf others name email \<and>
    (\<forall>i. pick_by_name pf matches name email = Some i \<longrightarrow> i \<in> cust_id ` set matches) \<and>
    (\<forall>c. filter (\<lambda>c. name_key pf (cust_display_name c) = name_key pf name) matches = [c] \<longrightarrow>
       pick_by_name pf matches name email = Some (cust_id c))"
proof -
  have flt: "only_one (filter P matches) = only_one (filter P others)" for P
    using assms by (intro only_one_mset) (simp add: mset_filter)
  have flt2: "only_one (filter P (filter Q matches)) = only_one (filter P (filter Q others))" for P Q
    using assms by (intro only_one_mset) (simp add: mset_filter)
  have len: "length (filter P matches) = length (filter P others)" for P
    using assms by (metis mset_filter size_mset)
  have mem: "c \<in> set xs" if "only_one xs = Some c" for c and xs :: "qbo_customer list"
    using that by (cases xs rule: only_one.cases) auto
  have "pick_by_name pf matches name email = pick_by_name pf others name email"
    unfolding pick_by_name_def Let_def flt flt2 len only_one_mset [OF assms] by (rule refl)
  moreover have "i \<in> cust_id ` set matches" if "pick_by_name pf matches name email = Some i" for i
    using that by (auto simp: pick_by_name_def Let_def split: option.splits if_splits dest!: mem)
  moreover have "pick_by_name pf matches name email = Some (cust_id c)"
    if "filter (\<lambda>c. name_key pf (cust_display_name c) = name_key pf name) matches = [c]" for c
    using that by (simp add: pick_by_name_def Let_def)
  ultimately show ?thesis by blast
qed

definition sample_platform :: platform where
  "sample_platform = \<lparr>f64_of_number = (\<lambda>_. 0), show_f64 = (\<lambda>_. ''0.0''), parse_f64 = (\<lambda>_. None),
     f64_add = (\<lambda>x y. x), to_lowercase = map ascii_lower\<rparr>"

theorem pick_by_name_order_independent_witness:
  "pick_by_name sample_platform
     [\<lparr>cust_id = ''1'', cust_display_name = ''a'', cust_email = None\<rparr>,
      \<lparr>cust_id = ''2'', cust_display_name = ''b'', cust_email = None\<rparr>] ''b'' [] =
   pick_by_name sample_platform
     [\<lparr>cust_id = ''2'', cust_display_name = ''b'', cust_email = None\<rparr>,
      \<lparr>cust_id = ''1'', cust_display_name = ''a'', cust_email = None\<rparr>] ''b'' []"
  using pick_by_name_order_independent [of
     "[\<lparr>cust_id = ''1'', cust_display_name = ''a'', cust_email = None\<rparr>,
       \<lparr>cust_id = ''2'', cust_display_name = ''b'', cust_email = None\<rparr>]"
     "[\<lparr>cust_id = ''2'', cust_display_name = ''b'', cust_email = None\<rparr>,
       \<lparr>cust_id = ''1'', cust_display_name = ''a'', cust_email = None\<rparr>]"] by simp

end
