(* ===== verification/TokenBroker.thy ===== *)
theory TokenBroker
  imports Claude QboValues
begin

text \<open>
  \<open>src/qbo.rs\<close>: the access token of a company, kept encrypted in its row and refreshed at
  Intuit when it would not outlive the job. AES-256-GCM, base64 and the answers of Intuit and
  of the database are parameters; the layout \<open>iv | tag | ciphertext\<close>, the checks and the order
  of the steps are the code's.
\<close>

section \<open>Configuration\<close>

datatype qbo_environment = Sandbox | Production

definition from_env_value :: "string \<Rightarrow> qbo_environment" where
  "from_env_value raw = (if trim raw = ''production'' then Production else Sandbox)"

fun qbo_api_base :: "qbo_environment \<Rightarrow> string" where
  "qbo_api_base Sandbox = ''https://sandbox-quickbooks.api.intuit.com''"
| "qbo_api_base Production = ''https://quickbooks.api.intuit.com''"

record qbo_config =
  aes_key_hex :: string
  config_client_id :: "string option"
  config_client_secret :: "string option"
  config_environment :: qbo_environment

datatype qbo_error =
    BrokerConfig string
  | Decrypt string
  | BrokerDatabase sqlx_error
  | BrokerHttp string

fun qbo_error_text :: "qbo_error \<Rightarrow> string" where
  "qbo_error_text (BrokerConfig m) = m"
| "qbo_error_text (Decrypt what) = ''cannot decrypt '' @ what"
| "qbo_error_text (BrokerDatabase e) = ''database error''"
| "qbo_error_text (BrokerHttp m) = m"

definition token_url :: string where
  "token_url = ''https://oauth.platform.intuit.com/oauth2/v1/tokens/bearer''"

definition tag_len :: nat where "tag_len = 16"
definition nonce_len :: nat where "nonce_len = 12"
definition min_credential_len :: nat where "min_credential_len = 10"

record company_row =
  company_enabled :: bool
  company_realm :: "string option"
  company_access :: "bytes option"
  company_refresh :: "bytes option"
  access_expires :: "int option"
  refresh_expires :: "int option"
  company_client_id :: "bytes option"
  company_client_secret :: "bytes option"

record token_set =
  new_access :: string
  new_refresh :: string
  expires_in :: int
  refresh_expires_in :: int

text \<open>\<open>#[derive(Deserialize)]\<close>: all four required, an array gives them in order.\<close>

fun token_set_of :: "json \<Rightarrow> token_set option" where
  "token_set_of (JObject kvs) =
     (case (required_field kvs ''access_token'' as_str, required_field kvs ''refresh_token'' as_str,
            required_field kvs ''expires_in'' as_i64,
            required_field kvs ''x_refresh_token_expires_in'' as_i64) of
        (Some a, Some r, Some e, Some x) \<Rightarrow>
          Some \<lparr>new_access = a, new_refresh = r, expires_in = e, refresh_expires_in = x\<rparr>
      | _ \<Rightarrow> None)"
| "token_set_of (JArray [a, r, e, x]) =
     (case (as_str a, as_str r, as_i64 e, as_i64 x) of
        (Some a, Some r, Some e, Some x) \<Rightarrow>
          Some \<lparr>new_access = a, new_refresh = r, expires_in = e, refresh_expires_in = x\<rparr>
      | _ \<Rightarrow> None)"
| "token_set_of _ = None"

section \<open>Keys\<close>

text \<open>
  \<open>u8::from_str_radix(pair, 16)\<close>: digits of either case, and a plus sign before a single one.
\<close>

definition hex_digit_value :: "char \<Rightarrow> nat option" where
  "hex_digit_value c =
     (if is_ascii_digit c then Some (byte c - 48)
      else if 65 \<le> byte c \<and> byte c \<le> 70 then Some (byte c - 55)
      else if 97 \<le> byte c \<and> byte c \<le> 102 then Some (byte c - 87)
      else None)"

definition hex_pair :: "char \<Rightarrow> char \<Rightarrow> nat option" where
  "hex_pair a b =
     (if a = CHR ''+'' then hex_digit_value b
      else (case (hex_digit_value a, hex_digit_value b) of
              (Some x, Some y) \<Rightarrow> Some (16 * x + y)
            | _ \<Rightarrow> None))"

fun hex_bytes :: "string \<Rightarrow> bytes option" where
  "hex_bytes (a # b # s) =
     (case hex_pair a b of
        None \<Rightarrow> None
      | Some n \<Rightarrow> map_option (\<lambda>bs. char_of n # bs) (hex_bytes s))"
| "hex_bytes _ = Some []"

definition parse_key :: "string \<Rightarrow> qbo_error + bytes" where
  "parse_key hex =
     (case (if length (trim hex) = 64 then hex_bytes (trim hex) else None) of
        None \<Rightarrow> Inl (BrokerConfig ''AES_KEY must be 64 hex characters (a 256-bit key)'')
      | Some key \<Rightarrow>
          if length key = 32 then Inr key
          else Inl (BrokerConfig ''AES_KEY is not a valid AES-256 key''))"

section \<open>Stored values\<close>

text \<open>
  \<open>aead_seal key iv text\<close> gives the ciphertext and the tag, \<open>aead_open key iv (ciphertext @ tag)\<close>
  the text if the tag fits.
\<close>

record crypto =
  aead_seal :: "bytes \<Rightarrow> bytes \<Rightarrow> bytes \<Rightarrow> (bytes \<times> bytes) option"
  aead_open :: "bytes \<Rightarrow> bytes \<Rightarrow> bytes \<Rightarrow> bytes option"
  base64_encode :: "bytes \<Rightarrow> string"
  base64_decode :: "string \<Rightarrow> bytes option"

definition broker_decrypt :: "crypto \<Rightarrow> bytes \<Rightarrow> bytes \<Rightarrow> string option" where
  "broker_decrypt cr key stored =
     (case to_str stored of
        None \<Rightarrow> None
      | Some t \<Rightarrow>
          (case base64_decode cr (trim t) of
             None \<Rightarrow> None
           | Some bs \<Rightarrow>
               if length bs < nonce_len + tag_len then None
               else
                 (let iv = take nonce_len bs; rest = drop nonce_len bs;
                      tag = take tag_len rest; ciphertext = drop tag_len rest
                  in Option.bind (aead_open cr key iv (ciphertext @ tag)) to_str)))"

text \<open>\<open>random\<close> is what the system's generator gives for the twelve bytes of the iv.\<close>

definition broker_encrypt :: "crypto \<Rightarrow> bytes \<Rightarrow> bytes option \<Rightarrow> string \<Rightarrow> qbo_error + string" where
  "broker_encrypt cr key random plain =
     (case random of
        None \<Rightarrow> Inl (BrokerConfig ''no system randomness'')
      | Some iv \<Rightarrow>
          (case aead_seal cr key iv plain of
             None \<Rightarrow> Inl (BrokerConfig ''encryption failed'')
           | Some (ciphertext, tag) \<Rightarrow> Inr (base64_encode cr (iv @ tag @ ciphertext))))"

section \<open>The broker\<close>

record broker =
  broker_key :: bytes
  app_credentials :: "(string \<times> string) option"
  broker_environment :: qbo_environment
  valid_for :: nat

text \<open>\<open>client_failure\<close> is reqwest's error when the HTTP client cannot be built.\<close>

definition broker_new :: "string option \<Rightarrow> qbo_config \<Rightarrow> nat \<Rightarrow> qbo_error + broker" where
  "broker_new client_failure cfg secs =
     bind_result (parse_key (aes_key_hex cfg)) (\<lambda>key.
       (case client_failure of
          Some e \<Rightarrow> Inl (BrokerHttp (''cannot build HTTP client: '' @ e))
        | None \<Rightarrow>
            Inr \<lparr>broker_key = key,
              app_credentials =
                (case (config_client_id cfg, config_client_secret cfg) of
                   (Some i, Some s) \<Rightarrow>
                     if min_credential_len \<le> length (trim i) \<and> min_credential_len \<le> length (trim s)
                     then Some (trim i, trim s) else None
                 | _ \<Rightarrow> None),
              broker_environment = config_environment cfg, valid_for = secs\<rparr>))"

text \<open>
  The hand-written \<open>Debug\<close> texts, which end up in the log; \<open>debug\<close> is the one of strings. They
  show no key, secret or token.
\<close>

fun environment_debug :: "qbo_environment \<Rightarrow> string" where
  "environment_debug Sandbox = ''Sandbox''"
| "environment_debug Production = ''Production''"

definition config_debug :: "(string \<Rightarrow> string) \<Rightarrow> qbo_config \<Rightarrow> string" where
  "config_debug debug cfg =
     ''QboConfig { client_id: '' @
     (case config_client_id cfg of None \<Rightarrow> ''None'' | Some i \<Rightarrow> ''Some('' @ debug ''<set>'' @ '')'') @
     '', environment: '' @ environment_debug (config_environment cfg) @ '', .. }''"

fun access_debug :: "(string \<Rightarrow> string) \<Rightarrow> qbo_job_access \<Rightarrow> string" where
  "access_debug debug (Connected realm tok base) = ''Connected { realm_id: '' @ debug realm @ '', .. }''"
| "access_debug debug (Unavailable reason) = ''Unavailable('' @ debug reason @ '')''"

definition broker_debug :: "broker \<Rightarrow> string" where
  "broker_debug b =
     ''QboBroker { environment: '' @ environment_debug (broker_environment b) @ '', valid_for: '' @
     show_nat (valid_for b) @ ''s, .. }''"

lemma debug_shows_no_secret:
  "config_debug debug (cfg\<lparr>aes_key_hex := k, config_client_secret := s\<rparr>) = config_debug debug cfg"
  "config_client_id cfg = Some i \<Longrightarrow> config_debug debug (cfg\<lparr>config_client_id := Some i'\<rparr>) = config_debug debug cfg"
  "access_debug debug (Connected realm tok base) = access_debug debug (Connected realm tok' base')"
  "broker_debug (b\<lparr>broker_key := key, app_credentials := creds\<rparr>) = broker_debug b"
  by (simp_all add: config_debug_def broker_debug_def)

definition own_credential :: "crypto \<Rightarrow> bytes \<Rightarrow> bytes option \<Rightarrow> string option" where
  "own_credential cr key blob =
     (case Option.bind blob (broker_decrypt cr key) of
        None \<Rightarrow> None
      | Some v \<Rightarrow> if min_credential_len \<le> length (trim v) then Some (trim v) else None)"

definition client_credentials :: "crypto \<Rightarrow> broker \<Rightarrow> company_row \<Rightarrow> qbo_error + (string \<times> string)" where
  "client_credentials cr b row =
     (case (own_credential cr (broker_key b) (company_client_id row),
            own_credential cr (broker_key b) (company_client_secret row)) of
        (Some i, Some s) \<Rightarrow> Inr (i, s)
      | _ \<Rightarrow>
          ok_or (app_credentials b)
            (BrokerConfig ''no QuickBooks app credentials: set QBO_CLIENT_ID and QBO_CLIENT_SECRET''))"

section \<open>Refreshing\<close>

datatype token_reply = TokenSendFailed string | TokenBodyFailed string | TokenAnswer nat string

record token_request =
  token_endpoint :: string
  request_client_id :: string
  request_client_secret :: string
  request_body :: string

text \<open>
  What one call of \<open>access\<close> meets: statements that fail, the clock (\<open>None\<close> before 1970) when it
  starts and after the refresh, the generator's bytes, and Intuit's answer. A commit may take
  effect although its answer is lost.
\<close>

record broker_world =
  broker_crypto :: crypto
  broker_serde :: serde
  http_status_text :: "nat \<Rightarrow> string"
  begin_failure :: "sqlx_error option"
  select_failure :: "sqlx_error option"
  update_failure :: "sqlx_error option"
  commit_fault :: fault
  clock_start :: "nat option"
  clock_refreshed :: "nat option"
  random_access :: "bytes option"
  random_refresh :: "bytes option"
  intuit :: "token_request \<Rightarrow> token_reply"

record broker_state =
  companies :: "(int \<times> company_row) list"
  token_requests :: "token_request list"

definition unix_now :: "nat option \<Rightarrow> int" where
  "unix_now clock =
     (case clock of None \<Rightarrow> 0 | Some s \<Rightarrow> if int s \<le> i64_max then int s else i64_max)"

text \<open>64-bit addition and subtraction wrap (a release build does not check them).\<close>

definition wrap_i64 :: "int \<Rightarrow> int" where
  "wrap_i64 x = (x + 2 ^ 63) mod 2 ^ 64 - 2 ^ 63"

definition broker_percent_encode :: "string \<Rightarrow> string" where
  "broker_percent_encode value =
     concat (map (\<lambda>c.
       if CHR ''A'' \<le> c \<and> c \<le> CHR ''Z'' \<or> CHR ''a'' \<le> c \<and> c \<le> CHR ''z'' \<or> CHR ''0'' \<le> c \<and> c \<le> CHR ''9'' \<or>
          c \<in> {CHR ''-'', CHR ''.'', CHR ''_'', CHR ''~''}
       then [c] else percent_byte c) value)"

definition refresh_body :: "string \<Rightarrow> string" where
  "refresh_body tok = ''grant_type=refresh_token&refresh_token='' @ broker_percent_encode tok"

definition token_answer :: "broker_world \<Rightarrow> token_reply \<Rightarrow> qbo_error + token_set" where
  "token_answer w reply =
     (case reply of
        TokenSendFailed e \<Rightarrow> Inl (BrokerHttp (''QuickBooks token refresh: '' @ e))
      | TokenBodyFailed e \<Rightarrow> Inl (BrokerHttp (''QuickBooks token refresh: '' @ e))
      | TokenAnswer status body \<Rightarrow>
          if \<not> (200 \<le> status \<and> status < 300)
          then Inl (BrokerHttp (''QuickBooks token refresh: HTTP '' @ http_status_text w status @ '': '' @
                 take_chars 300 body))
          else
            (case serde_parse (broker_serde w) body of
               Inl e \<Rightarrow> Inl (BrokerHttp (''QuickBooks token refresh: bad response: '' @ e))
             | Inr doc \<Rightarrow>
                 ok_or (token_set_of doc)
                   (BrokerHttp (''QuickBooks token refresh: bad response: '' @
                      serde_shape_error (broker_serde w) body))))"

definition broker_refresh ::
  "broker_world \<Rightarrow> string \<Rightarrow> string \<Rightarrow> string \<Rightarrow> broker_state \<Rightarrow> (qbo_error + token_set) \<times> broker_state" where
  "broker_refresh w i s tok st =
     (let req = \<lparr>token_endpoint = token_url, request_client_id = i, request_client_secret = s, request_body = refresh_body tok\<rparr>
      in (token_answer w (intuit w req), st\<lparr>token_requests := token_requests st @ [req]\<rparr>))"

section \<open>Access\<close>

definition not_connected :: qbo_job_access where
  "not_connected = Unavailable ''QuickBooks is not connected for this company.''"

definition broker_connected :: "broker \<Rightarrow> string \<Rightarrow> string \<Rightarrow> qbo_job_access" where
  "broker_connected b realm tok = Connected realm tok (qbo_api_base (broker_environment b))"

definition needed_secs :: "broker \<Rightarrow> int" where
  "needed_secs b = (if int (valid_for b) \<le> i64_max then int (valid_for b) else i64_max)"

text \<open>The \<open>UPDATE\<close> of one company's tokens.\<close>

definition store_tokens ::
  "int \<Rightarrow> string \<Rightarrow> string \<Rightarrow> int \<Rightarrow> int \<Rightarrow> (int \<times> company_row) list \<Rightarrow> (int \<times> company_row) list" where
  "store_tokens company a r ae re rows =
     map (\<lambda>(i, row). (i, if i = company
       then row\<lparr>company_access := Some a, company_refresh := Some r,
                access_expires := Some ae, refresh_expires := Some re\<rparr> else row)) rows"

text \<open>From the spent refresh token to the committed row.\<close>

definition save_tokens ::
  "broker_world \<Rightarrow> broker \<Rightarrow> int \<Rightarrow> token_set \<Rightarrow> broker_state \<Rightarrow> (qbo_error + unit) \<times> broker_state" where
  "save_tokens w b company t st =
     (let now = unix_now (clock_refreshed w); cr = broker_crypto w; key = broker_key b in
      case broker_encrypt cr key (random_access w) (new_access t) of
        Inl e \<Rightarrow> (Inl e, st)
      | Inr a \<Rightarrow>
          (case broker_encrypt cr key (random_refresh w) (new_refresh t) of
             Inl e \<Rightarrow> (Inl e, st)
           | Inr r \<Rightarrow>
               (let st' = st\<lparr>companies := store_tokens company a r
                     (wrap_i64 (now + expires_in t)) (wrap_i64 (now + refresh_expires_in t)) (companies st)\<rparr>
                in case update_failure w of
                     Some e \<Rightarrow> (Inl (BrokerDatabase e), st)
                   | None \<Rightarrow>
                       (case commit_fault w of
                          Answered \<Rightarrow> (Inr (), st')
                        | Refused e \<Rightarrow> (Inl (BrokerDatabase e), st)
                        | AckLost e \<Rightarrow> (Inl (BrokerDatabase e), st')))))"

definition refresh_access ::
  "broker_world \<Rightarrow> broker \<Rightarrow> int \<Rightarrow> company_row \<Rightarrow> string \<Rightarrow> bytes \<Rightarrow> broker_state \<Rightarrow>
   (qbo_error + qbo_job_access) \<times> broker_state" where
  "refresh_access w b company row realm blob st =
     (case broker_decrypt (broker_crypto w) (broker_key b) blob of
        None \<Rightarrow> (Inl (Decrypt ''refresh token''), st)
      | Some tok \<Rightarrow>
          (case client_credentials (broker_crypto w) b row of
             Inl e \<Rightarrow> (Inl e, st)
           | Inr (i, s) \<Rightarrow>
               (case broker_refresh w i s tok st of
                  (Inl e, st1) \<Rightarrow> (Inl e, st1)
                | (Inr t, st1) \<Rightarrow>
                    (case save_tokens w b company t st1 of
                       (Inl e, st2) \<Rightarrow> (Inl e, st2)
                     | (Inr _, st2) \<Rightarrow> (Inr (broker_connected b realm (new_access t)), st2)))))"

definition stored_access :: "broker_world \<Rightarrow> broker \<Rightarrow> string \<Rightarrow> bytes \<Rightarrow> qbo_error + qbo_job_access" where
  "stored_access w b realm blob =
     (case broker_decrypt (broker_crypto w) (broker_key b) blob of
        None \<Rightarrow> Inl (Decrypt ''access token'')
      | Some tok \<Rightarrow>
          (case commit_fault w of
             Answered \<Rightarrow> Inr (broker_connected b realm tok)
           | Refused e \<Rightarrow> Inl (BrokerDatabase e)
           | AckLost e \<Rightarrow> Inl (BrokerDatabase e)))"

definition row_access ::
  "broker_world \<Rightarrow> broker \<Rightarrow> int \<Rightarrow> company_row \<Rightarrow> broker_state \<Rightarrow>
   (qbo_error + qbo_job_access) \<times> broker_state" where
  "row_access w b company row st =
     (if \<not> company_enabled row
      then (Inr (Unavailable ''QuickBooks is turned off for this company.''), st)
      else
        (let realm = (case company_realm row of None \<Rightarrow> [] | Some r \<Rightarrow> trim r) in
         case (company_access row, company_refresh row, access_expires row, refresh_expires row) of
           (Some access_blob, Some refresh_blob, Some ae, Some re) \<Rightarrow>
             if realm = [] then (Inr not_connected, st)
             else
               (let now = unix_now (clock_start w) in
                if needed_secs b \<le> wrap_i64 (ae - now) then (stored_access w b realm access_blob, st)
                else if re \<le> wrap_i64 (now + 60)
                then (Inr (Unavailable
                  (''The QuickBooks connection has expired; an admin needs to reconnect QuickBooks.'')), st)
                else refresh_access w b company row realm refresh_blob st)
         | _ \<Rightarrow> (Inr not_connected, st)))"

definition try_access ::
  "broker_world \<Rightarrow> broker \<Rightarrow> int \<Rightarrow> broker_state \<Rightarrow> (qbo_error + qbo_job_access) \<times> broker_state" where
  "try_access w b company st =
     (case begin_failure w of
        Some e \<Rightarrow> (Inl (BrokerDatabase e), st)
      | None \<Rightarrow>
          (case select_failure w of
             Some e \<Rightarrow> (Inl (BrokerDatabase e), st)
           | None \<Rightarrow>
               (case map_of (companies st) company of
                  None \<Rightarrow> (Inr not_connected, st)
                | Some row \<Rightarrow> row_access w b company row st)))"

definition broker_access ::
  "broker_world \<Rightarrow> broker \<Rightarrow> int \<Rightarrow> broker_state \<Rightarrow> qbo_job_access \<times> broker_state" where
  "broker_access w b company st =
     (case try_access w b company st of
        (Inr access, st') \<Rightarrow> (access, st')
      | (Inl e, st') \<Rightarrow> (Unavailable ''QuickBooks could not be reached right now; try again later.'', st'))"

end
