(* ===== verification/Config.thy ===== *)
theory Config
  imports TokenBroker
begin

text \<open>
  \<open>src/config.rs\<close>: the configuration read from environment variables. Parsing of numbers,
  booleans, modes and lists is modelled with the messages of the standard library; parsing of
  decimal numbers and socket addresses is a parameter.
\<close>

datatype env_value = NotPresent | NotUnicode | EnvValue string

datatype config_error = Missing string | Invalid string string

fun config_error_text :: "config_error \<Rightarrow> string" where
  "config_error_text (Missing name) = ''missing required environment variable '' @ name"
| "config_error_text (Invalid name reason) = ''invalid value for '' @ name @ '': '' @ reason"

text \<open>
  The process: its environment, the path of its executable (\<open>None\<close> if unknown), which paths are
  files, and the two parsers of the standard library.
\<close>

record process_env =
  env_vars :: "string \<Rightarrow> env_value"
  exe_path :: "path option"
  is_file :: "path \<Rightarrow> bool"
  debug_string :: "string \<Rightarrow> string"
  float_from_str :: "string \<Rightarrow> string + f64"
  socket_from_str :: "string \<Rightarrow> string + string"

section \<open>Reading one variable\<close>

definition config_raw :: "process_env \<Rightarrow> string \<Rightarrow> config_error + string option" where
  "config_raw env name =
     (case env_vars env name of
        EnvValue v \<Rightarrow> if trim v = [] then Inr None else Inr (Some v)
      | NotPresent \<Rightarrow> Inr None
      | NotUnicode \<Rightarrow> Inl (Invalid name ''not valid unicode''))"

definition config_required :: "process_env \<Rightarrow> string \<Rightarrow> config_error + string" where
  "config_required env name = bind_result (config_raw env name) (\<lambda>v. ok_or v (Missing name))"

definition config_optional ::
  "process_env \<Rightarrow> (string \<Rightarrow> string + 'a) \<Rightarrow> string \<Rightarrow> config_error + 'a option" where
  "config_optional env parse name =
     bind_result (config_raw env name) (\<lambda>v.
       case v of
         None \<Rightarrow> Inr None
       | Some t \<Rightarrow> map_err (Invalid name) (map_sum id Some (parse (trim t))))"

definition config_list :: "process_env \<Rightarrow> string \<Rightarrow> config_error + string list" where
  "config_list env name =
     bind_result (config_raw env name) (\<lambda>v.
       Inr (case v of
              None \<Rightarrow> []
            | Some t \<Rightarrow> filter (\<lambda>item. item \<noteq> []) (map trim (split_on CHR '','' t))))"

section \<open>Parsers\<close>

text \<open>
  Unsigned integers up to a bound: a plus sign is skipped, then digit by digit; the first
  character that is no digit or the first overflow decides the error.
\<close>

fun uint_scan :: "nat \<Rightarrow> nat \<Rightarrow> string \<Rightarrow> string + nat" where
  "uint_scan bound acc [] = Inr acc"
| "uint_scan bound acc (c # s) =
     (if \<not> is_ascii_digit c then Inl ''invalid digit found in string''
      else if bound < 10 * acc + (byte c - 48) then Inl ''number too large to fit in target type''
      else uint_scan bound (10 * acc + (byte c - 48)) s)"

definition uint_from_str :: "nat \<Rightarrow> string \<Rightarrow> string + nat" where
  "uint_from_str bound s =
     (if s = [] then Inl ''cannot parse integer from empty string''
      else if s = ''+'' \<or> s = ''-'' then Inl ''invalid digit found in string''
      else uint_scan bound 0 (if prefix ''+'' s then drop 1 s else s))"

definition nonzero_from_str :: "nat \<Rightarrow> string \<Rightarrow> string + nat" where
  "nonzero_from_str bound s =
     bind_result (uint_from_str bound s) (\<lambda>n.
       if n = 0 then Inl ''number would be zero for non-zero type'' else Inr n)"

definition bool_from_str :: "string \<Rightarrow> string + bool" where
  "bool_from_str s =
     (if s = ''true'' then Inr True
      else if s = ''false'' then Inr False
      else Inl ''provided string was not `true` or `false`'')"

fun unknown_mode_text :: "process_env \<Rightarrow> unknown_permission_mode \<Rightarrow> string" where
  "unknown_mode_text env (UnknownPermissionMode raw) =
     ''unknown permission mode '' @ debug_string env raw @ '': expected acceptEdits or bypassPermissions''"

fun unknown_effort_text :: "process_env \<Rightarrow> unknown_effort \<Rightarrow> string" where
  "unknown_effort_text env (UnknownEffort raw) =
     ''unknown effort level '' @ debug_string env raw @ '': expected low, medium, high, xhigh or max''"

definition u32_max :: nat where "u32_max = 2 ^ 32 - 1"

section \<open>The configuration\<close>

record config =
  database_url :: string
  db_max_connections :: nat
  workspace_root_path :: path
  poll_interval :: nat
  max_concurrent_jobs :: nat
  http_addr :: string
  requeue_pending_on_start :: bool
  claude_settings :: claude_config
  qbo_settings :: "qbo_config option"

definition config_qbo :: "process_env \<Rightarrow> config_error + qbo_config option" where
  "config_qbo env =
     bind_result (config_raw env ''AES_KEY'') (\<lambda>key.
       case key of
         None \<Rightarrow> Inr None
       | Some hex \<Rightarrow>
           bind_result (config_raw env ''QBO_CLIENT_ID'') (\<lambda>i.
           bind_result (config_raw env ''QBO_CLIENT_SECRET'') (\<lambda>s.
           bind_result (config_raw env ''QBO_ENV'') (\<lambda>e.
             Inr (Some \<lparr>aes_key_hex = hex, config_client_id = i, config_client_secret = s,
               config_environment = from_env_value (case e of None \<Rightarrow> [] | Some v \<Rightarrow> v)\<rparr>)))))"

text \<open>\<open>Path::with_file_name\<close> on the path of an executable.\<close>

definition with_file_name :: "path \<Rightarrow> string \<Rightarrow> path" where
  "with_file_name p name = rev (dropWhile (\<lambda>c. c \<noteq> CHR ''/'') (rev p)) @ name"

definition config_jobctl_mcp :: "process_env \<Rightarrow> config_error + path option" where
  "config_jobctl_mcp env =
     bind_result (config_optional env Inr ''JOBCTL_MCP_BIN'') (\<lambda>given.
       case given of
         Some p \<Rightarrow> Inr (Some p)
       | None \<Rightarrow>
           Inr (case exe_path env of
                  None \<Rightarrow> None
                | Some exe \<Rightarrow>
                    let p = with_file_name exe ''jobctl-mcp'' in if is_file env p then Some p else None))"

fun unwrap_or :: "'a \<Rightarrow> 'a option \<Rightarrow> 'a" where
  "unwrap_or d None = d"
| "unwrap_or d (Some x) = x"

definition claude_from_env :: "process_env \<Rightarrow> config_error + claude_config" where
  "claude_from_env env =
     bind_result (config_optional env Inr ''CLAUDE_BIN'') (\<lambda>bin.
     bind_result (config_optional env Inr ''CLAUDE_MODEL'') (\<lambda>mdl.
     bind_result (config_optional env (uint_from_str u32_max) ''CLAUDE_MAX_TURNS'') (\<lambda>turns.
     bind_result (config_optional env (float_from_str env) ''CLAUDE_MAX_BUDGET_USD'') (\<lambda>budget.
     bind_result (config_optional env (uint_from_str u64_max) ''CLAUDE_TIMEOUT_SECS'') (\<lambda>secs.
     bind_result (config_optional env (map_err (unknown_mode_text env) \<circ> permission_from_str)
       ''CLAUDE_PERMISSION_MODE'') (\<lambda>mode.
     bind_result (config_optional env (map_err (unknown_effort_text env) \<circ> effort_from_str) ''CLAUDE_EFFORT'') (\<lambda>eff.
     bind_result (config_list env ''CLAUDE_ALLOWED_DOMAINS'') (\<lambda>domains.
     bind_result (config_optional env bool_from_str ''CLAUDE_PERSIST_SESSIONS'') (\<lambda>persist.
     bind_result (config_optional env Inr ''CLAUDE_CONFIG_DIR'') (\<lambda>dir.
     bind_result (config_optional env Inr ''CLAUDE_MCP_CONFIG'') (\<lambda>mcp.
     bind_result (config_jobctl_mcp env) (\<lambda>jobctl.
     bind_result (config_optional env Inr ''AGENT_DATABASE_URL'') (\<lambda>url.
       Inr \<lparr>binary = unwrap_or ''claude'' bin, model = Some (unwrap_or ''opus'' mdl),
         max_turns = unwrap_or 50 turns, max_budget_usd = budget, timeout_secs = unwrap_or (30 * 60) secs,
         permission_mode = unwrap_or AcceptEdits mode, effort = unwrap_or LowEffort eff,
         allowed_domains = domains, persist_sessions = unwrap_or False persist, config_dir = dir,
         mcp_config = mcp, jobctl_mcp = jobctl, agent_database_url = url\<rparr>)))))))))))))"

definition usize_max :: nat where "usize_max = 2 ^ 64 - 1"

definition config_from_env :: "process_env \<Rightarrow> config_error + config" where
  "config_from_env env =
     bind_result (claude_from_env env) (\<lambda>cl.
     bind_result (config_required env ''DATABASE_URL'') (\<lambda>url.
     bind_result (config_optional env (uint_from_str u32_max) ''DB_MAX_CONNECTIONS'') (\<lambda>conns.
     bind_result (config_optional env Inr ''WORKSPACE_ROOT'') (\<lambda>root.
     bind_result (config_optional env (uint_from_str u64_max) ''POLL_INTERVAL_SECS'') (\<lambda>poll.
     bind_result (config_optional env (nonzero_from_str usize_max) ''MAX_CONCURRENT_JOBS'') (\<lambda>jobs.
     bind_result (config_optional env (socket_from_str env) ''HTTP_ADDR'') (\<lambda>addr.
     bind_result (config_optional env bool_from_str ''REQUEUE_PENDING_ON_START'') (\<lambda>requeue.
     bind_result (config_qbo env) (\<lambda>qbo.
       Inr \<lparr>database_url = url, db_max_connections = unwrap_or 5 conns,
         workspace_root_path = unwrap_or ''workspaces'' root, poll_interval = unwrap_or 5 poll,
         max_concurrent_jobs = unwrap_or 1 jobs, http_addr = unwrap_or ''127.0.0.1:8080'' addr,
         requeue_pending_on_start = unwrap_or True requeue, claude_settings = cl,
         qbo_settings = qbo\<rparr>)))))))))"

section \<open>Errors\<close>

definition config_vars :: "string list" where
  "config_vars =
     [''CLAUDE_BIN'', ''CLAUDE_MODEL'', ''CLAUDE_MAX_TURNS'', ''CLAUDE_MAX_BUDGET_USD'', ''CLAUDE_TIMEOUT_SECS'',
      ''CLAUDE_PERMISSION_MODE'', ''CLAUDE_EFFORT'', ''CLAUDE_ALLOWED_DOMAINS'', ''CLAUDE_PERSIST_SESSIONS'',
      ''CLAUDE_CONFIG_DIR'', ''CLAUDE_MCP_CONFIG'', ''JOBCTL_MCP_BIN'', ''AGENT_DATABASE_URL'',
      ''DATABASE_URL'', ''DB_MAX_CONNECTIONS'', ''WORKSPACE_ROOT'', ''POLL_INTERVAL_SECS'',
      ''MAX_CONCURRENT_JOBS'', ''HTTP_ADDR'', ''REQUEUE_PENDING_ON_START'', ''AES_KEY'', ''QBO_CLIENT_ID'',
      ''QBO_CLIENT_SECRET'', ''QBO_ENV'']"

definition is_set :: "process_env \<Rightarrow> string \<Rightarrow> bool" where
  "is_set env name \<longleftrightarrow>
     (case env_vars env name of NotPresent \<Rightarrow> False | NotUnicode \<Rightarrow> True | EnvValue v \<Rightarrow> trim v \<noteq> [])"

text \<open>An error blames a variable that is set, or the required one that is not.\<close>

definition blames :: "process_env \<Rightarrow> config_error + 'a \<Rightarrow> bool" where
  "blames env r \<longleftrightarrow>
     (\<forall>e. r = Inl e \<longrightarrow>
        e = Missing ''DATABASE_URL'' \<and> \<not> is_set env ''DATABASE_URL'' \<or>
        (\<exists>name reason. e = Invalid name reason \<and> name \<in> set config_vars \<and> is_set env name))"

lemma blames_Inr: "blames env (Inr x)"
  by (simp add: blames_def)

lemma blames_bind: "blames env r \<Longrightarrow> (\<And>x. blames env (f x)) \<Longrightarrow> blames env (bind_result r f)"
  by (cases r) (simp_all add: blames_def)

lemma blames_option: "blames env r \<Longrightarrow> (\<And>x. blames env (f x)) \<Longrightarrow> blames env (case v of None \<Rightarrow> r | Some x \<Rightarrow> f x)"
  by (cases v) simp_all

lemma config_raw_error: "config_raw env name = Inl e \<Longrightarrow> e = Invalid name ''not valid unicode'' \<and> is_set env name"
  by (auto simp: config_raw_def is_set_def split: env_value.splits if_splits)

lemma config_raw_value: "config_raw env name = Inr v \<Longrightarrow> (v \<noteq> None) = is_set env name"
  by (auto simp: config_raw_def is_set_def split: env_value.splits if_splits)

lemma blames_raw: "name \<in> set config_vars \<Longrightarrow> blames env (config_raw env name)"
  unfolding blames_def using config_raw_error by blast

lemma blames_optional:
  assumes "name \<in> set config_vars"
  shows "blames env (config_optional env parse name)"
proof (cases "config_raw env name")
  case (Inl e)
  then show ?thesis using blames_raw [OF assms, of env] by (simp add: config_optional_def blames_def)
next
  case (Inr v)
  then have "v \<noteq> None \<Longrightarrow> is_set env name" using config_raw_value by blast
  then show ?thesis
    using assms Inr by (cases v) (auto simp: config_optional_def blames_def)
qed

lemma blames_list: "name \<in> set config_vars \<Longrightarrow> blames env (config_list env name)"
  unfolding config_list_def by (intro blames_bind blames_raw blames_Inr)

lemma blames_database_url: "blames env (config_required env ''DATABASE_URL'')"
proof (cases "config_raw env ''DATABASE_URL''")
  case (Inl e)
  have "''DATABASE_URL'' \<in> set config_vars" by (simp add: config_vars_def)
  then show ?thesis using Inl blames_raw [of "''DATABASE_URL''" env] by (simp add: config_required_def blames_def)
next
  case (Inr v)
  then have "v = None \<Longrightarrow> \<not> is_set env ''DATABASE_URL''" using config_raw_value by blast
  then show ?thesis
    using Inr by (cases v) (auto simp: config_required_def blames_def)
qed

lemma config_var_members:
  "''CLAUDE_BIN'' \<in> set config_vars" "''CLAUDE_MODEL'' \<in> set config_vars"
  "''CLAUDE_MAX_TURNS'' \<in> set config_vars" "''CLAUDE_MAX_BUDGET_USD'' \<in> set config_vars"
  "''CLAUDE_TIMEOUT_SECS'' \<in> set config_vars" "''CLAUDE_PERMISSION_MODE'' \<in> set config_vars"
  "''CLAUDE_EFFORT'' \<in> set config_vars" "''CLAUDE_ALLOWED_DOMAINS'' \<in> set config_vars"
  "''CLAUDE_PERSIST_SESSIONS'' \<in> set config_vars" "''CLAUDE_CONFIG_DIR'' \<in> set config_vars"
  "''CLAUDE_MCP_CONFIG'' \<in> set config_vars" "''JOBCTL_MCP_BIN'' \<in> set config_vars"
  "''AGENT_DATABASE_URL'' \<in> set config_vars" "''DB_MAX_CONNECTIONS'' \<in> set config_vars"
  "''WORKSPACE_ROOT'' \<in> set config_vars" "''POLL_INTERVAL_SECS'' \<in> set config_vars"
  "''MAX_CONCURRENT_JOBS'' \<in> set config_vars" "''HTTP_ADDR'' \<in> set config_vars"
  "''REQUEUE_PENDING_ON_START'' \<in> set config_vars" "''AES_KEY'' \<in> set config_vars"
  "''QBO_CLIENT_ID'' \<in> set config_vars" "''QBO_CLIENT_SECRET'' \<in> set config_vars"
  "''QBO_ENV'' \<in> set config_vars"
  unfolding config_vars_def by simp_all

lemmas blames_parts = blames_Inr blames_bind blames_option blames_raw blames_optional blames_list
  blames_database_url config_var_members

lemma blames_qbo: "blames env (config_qbo env)"
  unfolding config_qbo_def by (intro blames_parts)

lemma blames_jobctl_mcp: "blames env (config_jobctl_mcp env)"
  unfolding config_jobctl_mcp_def by (intro blames_parts)

lemma blames_claude: "blames env (claude_from_env env)"
  unfolding claude_from_env_def by (intro blames_parts blames_jobctl_mcp)

lemma blames_config: "blames env (config_from_env env)"
  unfolding config_from_env_def by (intro blames_parts blames_claude blames_qbo)

section \<open>Blank variables\<close>

definition blank_unset :: "process_env \<Rightarrow> process_env" where
  "blank_unset env = env\<lparr>env_vars := (\<lambda>name.
     case env_vars env name of
       EnvValue v \<Rightarrow> if trim v = [] then NotPresent else EnvValue v
     | other \<Rightarrow> other)\<rparr>"

lemma config_raw_blank: "config_raw (blank_unset env) = config_raw env"
  by (rule ext) (simp add: config_raw_def blank_unset_def split: env_value.split)

lemma blank_unset_fields:
  "exe_path (blank_unset env) = exe_path env" "is_file (blank_unset env) = is_file env"
  "debug_string (blank_unset env) = debug_string env" "float_from_str (blank_unset env) = float_from_str env"
  "socket_from_str (blank_unset env) = socket_from_str env"
  by (simp_all add: blank_unset_def)

lemma unknown_text_blank:
  "unknown_mode_text (blank_unset env) = unknown_mode_text env"
  "unknown_effort_text (blank_unset env) = unknown_effort_text env"
proof -
  show "unknown_mode_text (blank_unset env) = unknown_mode_text env"
    by (rule ext, rename_tac u, case_tac u) (simp add: blank_unset_fields)
  show "unknown_effort_text (blank_unset env) = unknown_effort_text env"
    by (rule ext, rename_tac u, case_tac u) (simp add: blank_unset_fields)
qed

lemma config_reads_blank:
  "config_optional (blank_unset env) = (config_optional env :: _ \<Rightarrow> _ \<Rightarrow> _ + 'a option)"
  "config_list (blank_unset env) = config_list env"
  "config_required (blank_unset env) = config_required env"
  by (intro ext; simp add: config_optional_def config_list_def config_required_def config_raw_blank)+

section \<open>Ranges\<close>

lemma uint_scan_bound: "acc \<le> bound \<Longrightarrow> uint_scan bound acc s = Inr n \<Longrightarrow> n \<le> bound"
  by (induction bound acc s rule: uint_scan.induct) (auto split: if_splits)

lemma uint_from_str_bound: "uint_from_str bound s = Inr n \<Longrightarrow> n \<le> bound"
  by (auto simp: uint_from_str_def split: if_splits intro: uint_scan_bound [of 0])

lemma nonzero_from_str_bound: "nonzero_from_str bound s = Inr n \<Longrightarrow> 0 < n \<and> n \<le> bound"
  by (auto simp: nonzero_from_str_def bind_result_Inr_iff split: if_splits dest: uint_from_str_bound)

lemma config_optional_value:
  assumes "config_optional env parse name = Inr (Some x)"
  shows "\<exists>t. parse t = Inr x"
proof -
  have "map_sum id Some r = Inr (Some x) \<longleftrightarrow> r = Inr x" for r :: "string + 'a"
    by (cases r) simp_all
  then show ?thesis
    using assms by (auto simp: config_optional_def bind_result_Inr_iff split: option.splits)
qed

lemma unwrap_range:
  assumes "config_optional env parse name = Inr v" and "\<And>t x. parse t = Inr x \<Longrightarrow> P x" and "P d"
  shows "P (unwrap_or d v)"
proof (cases v)
  case (Some x)
  with assms(1) obtain t where "parse t = Inr x" using config_optional_value [of env parse name x] by blast
  then show ?thesis using assms(2) Some by simp
qed (simp add: assms(3))

lemma claude_turns:
  assumes "claude_from_env env = Inr cl"
  shows "max_turns cl \<le> u32_max"
proof -
  from assms obtain turns where "config_optional env (uint_from_str u32_max) ''CLAUDE_MAX_TURNS'' = Inr turns"
    "max_turns cl = unwrap_or 50 turns"
    by (auto simp: claude_from_env_def bind_result_Inr_iff)
  then show ?thesis
    using unwrap_range [of env "uint_from_str u32_max" _ turns "\<lambda>n. n \<le> u32_max" 50] uint_from_str_bound
    by (simp add: u32_max_def)
qed

lemma config_ranges:
  assumes "config_from_env env = Inr c"
  shows "0 < max_concurrent_jobs c \<and> max_concurrent_jobs c \<le> usize_max \<and>
      db_max_connections c \<le> u32_max \<and> max_turns (claude_settings c) \<le> u32_max \<and>
      trim (database_url c) \<noteq> []"
proof -
  from assms obtain cl url conns jobs where
    cl: "claude_from_env env = Inr cl" "claude_settings c = cl"
    and url: "config_required env ''DATABASE_URL'' = Inr url" "database_url c = url"
    and conns: "config_optional env (uint_from_str u32_max) ''DB_MAX_CONNECTIONS'' = Inr conns"
      "db_max_connections c = unwrap_or 5 conns"
    and jobs: "config_optional env (nonzero_from_str usize_max) ''MAX_CONCURRENT_JOBS'' = Inr jobs"
      "max_concurrent_jobs c = unwrap_or 1 jobs"
    by (auto simp: config_from_env_def bind_result_Inr_iff)
  have "trim url \<noteq> []"
    using url(1) by (auto simp: config_required_def config_raw_def bind_result_Inr_iff ok_or_def
        split: env_value.splits if_splits option.splits)
  moreover have "unwrap_or 5 conns \<le> u32_max"
    using unwrap_range [OF conns(1), of "\<lambda>n. n \<le> u32_max" 5] uint_from_str_bound by (simp add: u32_max_def)
  moreover have "0 < unwrap_or 1 jobs \<and> unwrap_or 1 jobs \<le> usize_max"
    using unwrap_range [OF jobs(1), of "\<lambda>n. 0 < n \<and> n \<le> usize_max" 1] nonzero_from_str_bound
    by (simp add: usize_max_def)
  ultimately show ?thesis using claude_turns [OF cl(1)] by (simp add: cl(2) url(2) conns(2) jobs(2))
qed

section \<open>Properties\<close>


definition empty_env :: process_env where
  "empty_env = \<lparr>env_vars = (\<lambda>_. NotPresent), exe_path = None, is_file = (\<lambda>_. False), debug_string = id,
     float_from_str = (\<lambda>_. Inr 0), socket_from_str = Inr\<rparr>"


end
