(* ===== verification/Startup.thy ===== *)
theory Startup
  imports WorkerStore Config
begin

text \<open>
  \<open>src/main.rs\<close>, first half: what \<open>run\<close> does before it waits for a signal. The configuration,
  the store with its orphaned rows, the workspace root with its stale directories, the token
  broker, the worker and the listener come in this order, and the first failure ends the
  process.
\<close>

section \<open>Failures and the host\<close>

datatype start_failure = StartError string | StartPanic

text \<open>\<open>Display\<close> of the errors that \<open>main\<close> logs.\<close>

fun store_error_text :: "store_error \<Rightarrow> string" where
  "store_error_text (Database e) = ''database error''"
| "store_error_text (InvalidStatus i e) = ''message '' @ show_message_id i @ '' has an invalid status''"
| "store_error_text (NotPending i) = ''message '' @ show_message_id i @ '' is not pending''"
| "store_error_text (InsertIdOutOfRange raw) = ''insert id '' @ show_nat (unat raw) @ '' is out of range''"

fun workspace_error_text :: "workspace_error \<Rightarrow> string" where
  "workspace_error_text (WorkspaceIo action p e) = action @ '' '' @ from_utf8_lossy p"

text \<open>
  The process: its environment after \<open>.env\<close>, and what the connection to the database, the file
  system, the HTTP client of the broker and the listening socket answer.
\<close>

record run_host =
  run_env :: process_env
  url_failure :: "string \<Rightarrow> sqlx_error option"
  connect_failure :: "string \<Rightarrow> nat \<Rightarrow> sqlx_error option"
  run_os :: os
  tls_failure :: "string option"
  bind_failure :: "string \<Rightarrow> io_error option"

section \<open>The steps of run\<close>

type_synonym 'a start_step = "database \<times> fs \<Rightarrow> (start_failure + 'a) \<times> database \<times> fs"

definition start_then :: "'a start_step \<Rightarrow> ('a \<Rightarrow> 'b start_step) \<Rightarrow> 'b start_step" where
  "start_then m f st = (case m st of (Inl e, st1) \<Rightarrow> (Inl e, st1) | (Inr x, st1) \<Rightarrow> f x st1)"

definition start_value :: "start_failure + 'a \<Rightarrow> 'a start_step" where
  "start_value r st = (r, st)"

definition start_store :: "'a store_op \<Rightarrow> 'a start_step" where
  "start_store f st =
     (case st of (db, fs) \<Rightarrow>
        case f db of (r, db1) \<Rightarrow> (map_err (\<lambda>e. StartError (store_error_text e)) r, db1, fs))"

definition start_files :: "(fs \<Rightarrow> (workspace_error + 'a) \<times> fs) \<Rightarrow> 'a start_step" where
  "start_files f st =
     (case st of (db, fs) \<Rightarrow>
        case f fs of (r, fs1) \<Rightarrow> (map_err (\<lambda>e. StartError (workspace_error_text e)) r, db, fs1))"

text \<open>
  The address is parsed, then the pool is built, which panics if it may hold no connection, then
  a connection is opened.
\<close>

definition store_connect :: "run_host \<Rightarrow> string \<Rightarrow> nat \<Rightarrow> start_failure + unit" where
  "store_connect host url conns =
     (case url_failure host url of
        Some e \<Rightarrow> Inl (StartError (store_error_text (Database e)))
      | None \<Rightarrow>
          if conns = 0 then Inl StartPanic
          else (case connect_failure host url conns of
                  None \<Rightarrow> Inr ()
                | Some e \<Rightarrow> Inl (StartError (store_error_text (Database e)))))"

definition requeue_orphans :: "config \<Rightarrow> nat start_step" where
  "requeue_orphans c =
     (if requeue_pending_on_start c then start_store requeue_pending else start_value (Inr 0))"

text \<open>
  A token is asked to be valid for five minutes longer than the time limit of a job; the sum of the two durations panics when it
  does not fit into 64 bits of seconds.
\<close>

definition job_margin :: nat where "job_margin = 5 * 60"

definition broker_secs :: "claude_config \<Rightarrow> start_failure + nat" where
  "broker_secs cl =
     (if timeout_secs cl + job_margin \<le> u64_max then Inr (timeout_secs cl + job_margin) else Inl StartPanic)"

text \<open>\<open>CliRunner::new\<close> and \<open>with_qbo\<close> of \<open>src/claude.rs\<close>: the settings of the jobs and the broker.\<close>

record job_runner_parts =
  cli_config :: claude_config
  cli_broker :: "broker option"

definition cli_runner_new :: "claude_config \<Rightarrow> job_runner_parts" where
  "cli_runner_new cl = \<lparr>cli_config = cl, cli_broker = None\<rparr>"

definition with_qbo :: "job_runner_parts \<Rightarrow> broker \<Rightarrow> job_runner_parts" where
  "with_qbo r b = r\<lparr>cli_broker := Some b\<rparr>"

definition job_runner :: "run_host \<Rightarrow> config \<Rightarrow> start_failure + job_runner_parts" where
  "job_runner host c =
     (let runner = cli_runner_new (claude_settings c) in
      case qbo_settings c of
        Some qbo \<Rightarrow>
          if jobctl_mcp (claude_settings c) \<noteq> None
          then bind_result (broker_secs (claude_settings c)) (\<lambda>secs.
               bind_result (map_err (\<lambda>e. StartError (qbo_error_text e)) (broker_new (tls_failure host) qbo secs)) (\<lambda>b.
                 Inr (with_qbo runner b)))
          else Inr runner
      | None \<Rightarrow> Inr runner)"

text \<open>
  \<open>Worker::new\<close>, and the loop before its first step. The semaphore takes at most
  \<open>usize::MAX >> 3\<close> permits and panics over more.
\<close>

definition max_permits :: nat where "max_permits = 2 ^ 61 - 1"

definition worker_new :: "database \<Rightarrow> fs \<Rightarrow> nat \<Rightarrow> start_failure + database worker_state" where
  "worker_new db fs n =
     (if max_permits < n then Inl StartPanic
      else Inr \<lparr>wdb = db, wfs = fs, permits = n, phase = Acquiring, tasks = [], shutdown = False, trouble = False\<rparr>)"

text \<open>\<open>http::bind\<close> and the text of its error.\<close>

definition http_bind :: "run_host \<Rightarrow> string \<Rightarrow> start_failure + unit" where
  "http_bind host addr =
     (case bind_failure host addr of
        None \<Rightarrow> Inr ()
      | Some e \<Rightarrow> Inl (StartError (''http listener error on '' @ addr)))"

record started =
  started_config :: config
  started_root :: workspace_root
  started_cli :: job_runner_parts
  started_worker :: "database worker_state"

text \<open>
  \<open>run\<close> up to the point where both tasks are there. The address is parsed already, so binding
  does not wait and the worker has not taken a step by then.
\<close>

definition start_up :: "run_host \<Rightarrow> started start_step" where
  "start_up host =
     start_then (start_value (map_err (\<lambda>e. StartError (config_error_text e)) (config_from_env (run_env host)))) (\<lambda>c.
     start_then (start_value (store_connect host (database_url c) (db_max_connections c))) (\<lambda>_.
     start_then (requeue_orphans c) (\<lambda>_.
     start_then (start_files (prepare (run_os host) (workspace_root_path c))) (\<lambda>root.
     start_then (start_files (sweep (run_os host) root)) (\<lambda>_.
     start_then (start_value (job_runner host c)) (\<lambda>jobs.
     start_then (\<lambda>(db, fs). (worker_new db fs (max_concurrent_jobs c), db, fs)) (\<lambda>worker.
     start_then (start_value (http_bind host (http_addr c))) (\<lambda>_.
       start_value (Inr \<lparr>started_config = c, started_root = root, started_cli = jobs,
         started_worker = worker\<rparr>)))))))))"

text \<open>The exit status of the process for what \<open>run\<close> returned.\<close>

fun run_status :: "start_failure + unit \<Rightarrow> nat" where
  "run_status (Inr u) = 0"
| "run_status (Inl (StartError t)) = 1"
| "run_status (Inl StartPanic) = 101"


section \<open>How a start ends\<close>

lemma start_then_Inr:
  "start_then m f st = (Inr y, st') \<longleftrightarrow> (\<exists>x st1. m st = (Inr x, st1) \<and> f x st1 = (Inr y, st'))"
  by (auto simp: start_then_def split: prod.splits sum.splits)

lemma start_value_Inr [simp]: "start_value r st = (Inr x, st') \<longleftrightarrow> r = Inr x \<and> st' = st"
  by (auto simp: start_value_def)

lemma start_store_Inr [simp]:
  "start_store f (db, fs) = (Inr x, st') \<longleftrightarrow> (\<exists>db'. f db = (Inr x, db') \<and> st' = (db', fs))"
  by (auto simp: start_store_def split: prod.splits)

lemma start_files_Inr [simp]:
  "start_files f (db, fs) = (Inr x, st') \<longleftrightarrow> (\<exists>fs'. f fs = (Inr x, fs') \<and> st' = (db, fs'))"
  by (auto simp: start_files_def split: prod.splits)

lemma requeue_orphans_Inr:
  assumes "requeue_orphans c (db, fs) = (Inr n, st')"
  obtains db' where "st' = (db', fs)"
    "if requeue_pending_on_start c then requeue_pending db = (Inr n, db') else db' = db"
  using assms by (cases "requeue_pending_on_start c") (auto simp: requeue_orphans_def)

lemma worker_new_Inr:
  "worker_new db fs n = Inr w \<longleftrightarrow> n \<le> max_permits \<and>
     w = \<lparr>wdb = db, wfs = fs, permits = n, phase = Acquiring, tasks = [], shutdown = False, trouble = False\<rparr>"
  by (auto simp: worker_new_def)

lemma start_up_parts:
  assumes "start_up host (db, fs) = (Inr st, db', fs')"
  obtains c root jobs n fs1 k w where
    "config_from_env (run_env host) = Inr c"
    "if requeue_pending_on_start c then requeue_pending db = (Inr n, db') else db' = db"
    "prepare (run_os host) (workspace_root_path c) fs = (Inr root, fs1)"
    "sweep (run_os host) root fs1 = (Inr k, fs')"
    "job_runner host c = Inr jobs"
    "worker_new db' fs' (max_concurrent_jobs c) = Inr w"
    "st = \<lparr>started_config = c, started_root = root, started_cli = jobs, started_worker = w\<rparr>"
proof -
  from assms obtain c n st1 root st2 k jobs w where
    c: "config_from_env (run_env host) = Inr c"
    and re: "requeue_orphans c (db, fs) = (Inr n, st1)"
    and pre: "start_files (prepare (run_os host) (workspace_root_path c)) st1 = (Inr root, st2)"
    and sw: "start_files (sweep (run_os host) root) st2 = (Inr k, db', fs')"
    and br: "job_runner host c = Inr jobs"
    and w: "worker_new db' fs' (max_concurrent_jobs c) = Inr w"
    and st: "st = \<lparr>started_config = c, started_root = root, started_cli = jobs, started_worker = w\<rparr>"
    unfolding start_up_def start_then_Inr start_value_Inr by (auto split: prod.splits)
  from requeue_orphans_Inr [OF re] obtain db1 where st1: "st1 = (db1, fs)"
    and re': "if requeue_pending_on_start c then requeue_pending db = (Inr n, db1) else db1 = db" .
  from pre obtain fs1 where pre': "prepare (run_os host) (workspace_root_path c) fs = (Inr root, fs1)" "st2 = (db1, fs1)"
    by (auto simp: st1)
  from sw have same: "db1 = db'" and sw': "sweep (run_os host) root fs1 = (Inr k, fs')"
    by (simp_all add: pre')
  show thesis by (rule that [OF c re' [unfolded same] pre'(1) sw' br w st])
qed

lemma broker_new_fields:
  "broker_new failure cfg secs = Inr b \<Longrightarrow> valid_for b = secs \<and> broker_environment b = config_environment cfg"
  by (auto simp: broker_new_def bind_result_Inr_iff split: option.splits)

lemma job_runner_Inr:
  assumes "job_runner host c = Inr jobs"
  shows "cli_broker jobs \<noteq> None \<longleftrightarrow> qbo_settings c \<noteq> None \<and> jobctl_mcp (claude_settings c) \<noteq> None"
    and "cli_broker jobs = Some b \<Longrightarrow> valid_for b = timeout_secs (claude_settings c) + job_margin \<and>
      (\<exists>qbo. qbo_settings c = Some qbo \<and> broker_environment b = config_environment qbo)"
  using assms broker_new_fields
  by (auto simp: job_runner_def cli_runner_new_def with_qbo_def Let_def bind_result_Inr_iff broker_secs_def split: option.splits if_splits)


section \<open>A clean start\<close>

lemma snd_prepare: "snd (prepare os p fs) = snd (create_chain os (dir_chain p) fs)"
  by (simp add: prepare_def split: prod.split sum.split)

lemma prepare_Inr:
  assumes "prepare os p fs = (Inr root, fs1)" and "distinct (map fst fs)"
  shows "distinct (map fst fs1)"
  using create_chain_distinct [OF assms(2), of os "dir_chain p"] snd_prepare [of os p fs] by (simp add: assms(1))

lemma swept_clean:
  assumes calm: "calm os" and uniq: "distinct (map fst fs)" and sw: "sweep os root fs = (r, fs')"
    and name: "name \<in> set (children (root_path root) fs')"
  shows "\<not> stale (root_path root) fs' name"
proof -
  have sh: "shrinks (swept (root_path root) fs) fs fs'"
    using sw sweep_loop_shrinks [of "root_path root" fs os 0 0 "children (root_path root) fs"] calm
    by (simp add: sweep_def calm_def)
  have "fs_lookup fs' (path_join (root_path root) name) \<noteq> None"
    using name by (auto simp: children_spec fs_lookup_def map_of_eq_None_iff)
  then have "fs_lookup fs (path_join (root_path root) name) \<noteq> None"
    using sh by (metis shrinks_def)
  then have "name \<in> set (children (root_path root) fs)"
    using name by (auto simp: children_spec fs_lookup_def map_of_eq_None_iff)
  then show ?thesis using sweep_removes_all_stale [OF calm uniq, of root] sw by auto
qed

lemma started_idle:
  assumes "start_up host (db, fs) = (Inr st, db', fs')" and "db_wf db"
  shows "runner_start db' (max_concurrent_jobs (started_config st)) (started_worker st)"
    and "0 < max_concurrent_jobs (started_config st)"
proof -
  from start_up_parts [OF assms(1)] obtain c root jobs n fs1 k w where
    c: "config_from_env (run_env host) = Inr c"
    and re: "if requeue_pending_on_start c then requeue_pending db = (Inr n, db') else db' = db"
    and "prepare (run_os host) (workspace_root_path c) fs = (Inr root, fs1)"
    and "sweep (run_os host) root fs1 = (Inr k, fs')"
    and "job_runner host c = Inr jobs"
    and w: "worker_new db' fs' (max_concurrent_jobs c) = Inr w"
    and st: "st = \<lparr>started_config = c, started_root = root, started_cli = jobs, started_worker = w\<rparr>" .
  have "db_wf db'"
    using re assms(2) keeps_snd [OF keeps_requeue_pending] by (auto split: if_splits)
  then show "runner_start db' (max_concurrent_jobs (started_config st)) (started_worker st)"
    using w by (simp add: st worker_start_def worker_new_Inr)
  show "0 < max_concurrent_jobs (started_config st)"
    using config_ranges [OF c] by (simp add: st)
qed

lemma started_rows:
  assumes "start_up host (db, fs) = (Inr st, db', fs')"
  shows "message_at db' i =
      (if requeue_pending_on_start (started_config st) \<and> is_pending db i
       then map_option (\<lambda>m. m\<lparr>msg_status := to_db New\<rparr>) (message_at db i)
       else message_at db i)"
    and "requeue_pending_on_start (started_config st) \<Longrightarrow> \<not> is_pending db' i"
proof -
  from start_up_parts [OF assms] obtain c root jobs n fs1 k w where
    "config_from_env (run_env host) = Inr c"
    and re: "if requeue_pending_on_start c then requeue_pending db = (Inr n, db') else db' = db"
    and "prepare (run_os host) (workspace_root_path c) fs = (Inr root, fs1)"
    and "sweep (run_os host) root fs1 = (Inr k, fs')"
    and "job_runner host c = Inr jobs"
    and "worker_new db' fs' (max_concurrent_jobs c) = Inr w"
    and st: "st = \<lparr>started_config = c, started_root = root, started_cli = jobs, started_worker = w\<rparr>" .
  show "message_at db' i =
      (if requeue_pending_on_start (started_config st) \<and> is_pending db i
       then map_option (\<lambda>m. m\<lparr>msg_status := to_db New\<rparr>) (message_at db i)
       else message_at db i)"
    using re requeued(2) [of db n db' i] by (cases "requeue_pending_on_start c") (simp_all add: st)
  show "\<not> is_pending db' i" if "requeue_pending_on_start (started_config st)"
    using re that requeued(3) [of db n db' i] by (simp add: st)
qed

text \<open>
  C8: when the runner has started, its worker is idle over a well-formed database, with as many
  permits as the configuration asks for, at least one and no more than a semaphore takes. If
  \<open>REQUEUE_PENDING_ON_START\<close> is set, the rows that were pending are new again and no row is
  pending; every other row is unchanged, and without the setting all rows are. If the operating
  system refuses nothing during the sweep, no directory of an earlier job is left in the
  workspace root. There is a token broker exactly if QuickBooks is configured and the MCP server
  was found; it asks for tokens that are valid for the time limit of a job and five minutes.
\<close>
theorem start_up_is_clean:
  assumes up: "start_up host (db, fs) = (Inr st, db', fs')" and wf: "db_wf db"
  shows "runner_start db' (max_concurrent_jobs (started_config st)) (started_worker st) \<and>
    0 < max_concurrent_jobs (started_config st) \<and> max_concurrent_jobs (started_config st) < 2 ^ 61 \<and>
    (\<forall>i. message_at db' i =
      (if requeue_pending_on_start (started_config st) \<and> is_pending db i
       then map_option (\<lambda>m. m\<lparr>msg_status := to_db New\<rparr>) (message_at db i)
       else message_at db i)) \<and>
    (requeue_pending_on_start (started_config st) \<longrightarrow> (\<forall>i. \<not> is_pending db' i)) \<and>
    (calm (run_os host) \<and> distinct (map fst fs) \<longrightarrow>
      (\<forall>name \<in> set (children (root_path (started_root st)) fs'). \<not> stale (root_path (started_root st)) fs' name)) \<and>
    (cli_broker (started_cli st) \<noteq> None \<longleftrightarrow>
      qbo_settings (started_config st) \<noteq> None \<and> jobctl_mcp (claude_settings (started_config st)) \<noteq> None) \<and>
    (\<forall>b. cli_broker (started_cli st) = Some b \<longrightarrow> valid_for b = timeout_secs (claude_settings (started_config st)) + 300)"
proof -
  from start_up_parts [OF up] obtain c root jobs n fs1 k w where
    "config_from_env (run_env host) = Inr c"
    and "if requeue_pending_on_start c then requeue_pending db = (Inr n, db') else db' = db"
    and pre: "prepare (run_os host) (workspace_root_path c) fs = (Inr root, fs1)"
    and sw: "sweep (run_os host) root fs1 = (Inr k, fs')"
    and br: "job_runner host c = Inr jobs"
    and w: "worker_new db' fs' (max_concurrent_jobs c) = Inr w"
    and st: "st = \<lparr>started_config = c, started_root = root, started_cli = jobs, started_worker = w\<rparr>" .
  note idle = started_idle [OF up wf]
  moreover note rows = started_rows [OF up]
  moreover have "max_concurrent_jobs c < 2 ^ 61" using w by (simp add: worker_new_Inr max_permits_def)
  moreover have "\<not> stale (root_path root) fs' name"
    if "calm (run_os host)" "distinct (map fst fs)" "name \<in> set (children (root_path root) fs')" for name
    by (rule swept_clean [OF that(1) prepare_Inr [OF pre that(2)] sw that(3)])
  ultimately show ?thesis
    using job_runner_Inr [OF br] by (simp add: st job_margin_def)
qed


section \<open>A start that fails\<close>

text \<open>
  What every step of a start respects: a row stays as it is or goes from pending to new, and a
  file that was there stays unless it lies in a \<open>job-*\<close> directory of the workspace root.
\<close>

definition job_file :: "run_host \<Rightarrow> path \<Rightarrow> bool" where
  "job_file host q \<longleftrightarrow>
     (\<exists>c root name. config_from_env (run_env host) = Inr c \<and>
        canonical (run_os host) (workspace_root_path c) = Inr root \<and> is_ours name \<and> below (path_join root name) q)"

definition requeues :: "message_row option \<Rightarrow> message_row option \<Rightarrow> bool" where
  "requeues x y \<longleftrightarrow>
     y = x \<or> (\<exists>m. x = Some m \<and> msg_status m = to_db Pending \<and> y = Some (m\<lparr>msg_status := to_db New\<rparr>))"

lemma requeues_refl [simp]: "requeues x x"
  by (simp add: requeues_def)

lemma requeues_trans: "requeues x y \<Longrightarrow> requeues y z \<Longrightarrow> requeues x z"
  by (auto simp: requeues_def)

definition harmless :: "run_host \<Rightarrow> database \<times> fs \<Rightarrow> database \<times> fs \<Rightarrow> bool" where
  "harmless host a b \<longleftrightarrow>
     (\<forall>i. requeues (message_at (fst a) i) (message_at (fst b) i)) \<and>
     (\<forall>q. fs_lookup (snd b) q = fs_lookup (snd a) q \<or> fs_lookup (snd a) q = None \<or> job_file host q)"

lemma harmless_refl [simp]: "harmless host a a"
  by (simp add: harmless_def)

lemma harmless_trans: "harmless host a b \<Longrightarrow> harmless host b c \<Longrightarrow> harmless host a c"
  by (auto simp: harmless_def intro: requeues_trans) metis+

lemma harmless_then:
  assumes "harmless host st (snd (m st))" and "\<And>x st1. m st = (Inr x, st1) \<Longrightarrow> harmless host st1 (snd (f x st1))"
  shows "harmless host st (snd (start_then m f st))"
proof -
  obtain r st1 where Pair: "m st = (r, st1)" by (cases "m st") auto
  then have first: "harmless host st st1" using assms(1) by simp
  show ?thesis
  proof (cases r)
    case (Inl e)
    then show ?thesis using Pair first by (simp add: start_then_def)
  next
    case (Inr x)
    then show ?thesis using Pair harmless_trans [OF first assms(2) [of x st1]] by (simp add: start_then_def)
  qed
qed

lemma harmless_value [simp]: "harmless host st (snd (start_value r st))"
  by (simp add: start_value_def)

lemma requeue_harmless: "requeues (message_at db i) (message_at (snd (requeue_pending db)) i)"
proof -
  have rows: "requeues (message_at d i) (message_at (snd (requeue_rows d)) i)" for d
    using message_at_update [of "\<lambda>m. m\<lparr>msg_status := None\<rparr>" "\<lambda>m. msg_status m = to_db Pending" d i]
    by (cases "message_at d i") (simp_all add: requeue_rows_def requeues_def)
  have popped: "message_at d i = message_at db i" if "pop_fault db = (f, d)" for f d
    using that by (simp add: message_at_def)
  obtain r db' where ex: "execute requeue_rows db = (r, db')" by (cases "execute requeue_rows db")
  then have "requeues (message_at db i) (message_at db' i)"
  proof (cases rule: execute_cases)
    case (refused e db1 f)
    then show ?thesis using popped by simp
  next
    case (lost e db1 f)
    then show ?thesis using rows [of db1] popped [OF lost(1)] by simp
  next
    case (answered db1)
    then show ?thesis using rows [of db1] popped [OF answered(1)] by simp
  qed
  moreover have "snd (requeue_pending db) = db'"
    using ex by (simp add: requeue_pending_def on_pool_def split: sum.split)
  ultimately show ?thesis by simp
qed


lemma requeue_orphans_harmless: "harmless host st (snd (requeue_orphans c st))"
proof (cases "requeue_pending_on_start c")
  case True
  obtain db fs where st: "st = (db, fs)" by (cases st) auto
  obtain r db' where "requeue_pending db = (r, db')" by (cases "requeue_pending db")
  with True requeue_harmless [of db] show ?thesis
    by (simp add: st requeue_orphans_def start_store_def harmless_def)
qed (simp add: requeue_orphans_def)

lemma prepare_harmless: "harmless host st (snd (start_files (prepare os p) st))"
proof -
  obtain db fs where st: "st = (db, fs)" by (cases st) auto
  obtain r fs1 where run: "prepare os p fs = (r, fs1)" by (cases "prepare os p fs")
  then have "fs_lookup fs1 q = fs_lookup fs q \<or> fs_lookup fs q = None" for q
    using create_chain_keeps [of fs q os "dir_chain p"] snd_prepare [of os p fs] by auto
  then show ?thesis by (auto simp: st start_files_def run harmless_def)
qed

lemma sweep_harmless:
  assumes "config_from_env (run_env host) = Inr c"
    and "canonical (run_os host) (workspace_root_path c) = Inr (root_path root)"
  shows "harmless host st (snd (start_files (sweep os root) st))"
proof -
  obtain db fs where fields: "st = (db, fs)" by (cases st) auto
  have "shrinks (swept (root_path root) fs) fs (snd (sweep os root fs))"
    using sweep_loop_shrinks [of "root_path root" fs os 0 0 "children (root_path root) fs"]
    by (simp add: sweep_def split: option.split)
  then have "fs_lookup (snd (sweep os root fs)) q = fs_lookup fs q \<or> job_file host q" for q
    unfolding shrinks_def swept_def job_file_def using assms by blast
  moreover obtain r fs1 where "sweep os root fs = (r, fs1)" by (cases "sweep os root fs")
  ultimately have "fs_lookup fs1 q = fs_lookup fs q \<or> fs_lookup fs q = None \<or> job_file host q" for q
    by (metis snd_conv)
  with \<open>sweep os root fs = (r, fs1)\<close> show ?thesis by (simp add: fields start_files_def harmless_def)
qed

lemma prepared_root: "prepare os p fs = (Inr root, fs1) \<Longrightarrow> canonical os p = Inr (root_path root)"
  by (auto simp: prepare_def split: prod.splits sum.splits)

lemma start_up_harmless: "harmless host st (snd (start_up host st))"
  unfolding start_up_def
proof (intro harmless_then harmless_value requeue_orphans_harmless prepare_harmless)
qed (auto intro!: sweep_harmless dest!: prepared_root split: prod.split)


lemma start_then_Inl:
  "start_then m f st = (Inl e, st') \<longleftrightarrow>
     m st = (Inl e, st') \<or> (\<exists>x st1. m st = (Inr x, st1) \<and> f x st1 = (Inl e, st'))"
  by (auto simp: start_then_def split: prod.splits sum.splits)

lemma start_thenE:
  assumes "start_then m f st = (Inl e, st')"
  obtains "m st = (Inl e, st')" | x st1 where "m st = (Inr x, st1)" "f x st1 = (Inl e, st')"
  using assms by (auto simp: start_then_Inl)

lemma start_steps_not_panic:
  "start_value (map_err (\<lambda>e. StartError (g e)) r) st \<noteq> (Inl StartPanic, st')"
  "requeue_orphans c st \<noteq> (Inl StartPanic, st')"
  "start_files f st \<noteq> (Inl StartPanic, st')"
  "start_value (http_bind host addr) st \<noteq> (Inl StartPanic, st')"
  by (auto simp: start_value_def requeue_orphans_def start_store_def start_files_def http_bind_def
      split: option.splits prod.splits if_splits)

lemma connect_panic: "start_value (store_connect host url n) st = (Inl StartPanic, st') \<Longrightarrow> n = 0"
  by (auto simp: start_value_def store_connect_def split: option.splits if_splits)

lemma worker_panic [simp]: "worker_new db fs n = Inl StartPanic \<longleftrightarrow> 2 ^ 61 \<le> n"
  by (simp add: worker_new_def max_permits_def)

lemma start_value_Inl: "start_value r st = (Inl e, st') \<longleftrightarrow> r = Inl e \<and> st' = st"
  by (auto simp: start_value_def)

lemma job_runner_panic:
  "start_value (job_runner host c) st = (Inl StartPanic, st') \<Longrightarrow>
   qbo_settings c \<noteq> None \<and> jobctl_mcp (claude_settings c) \<noteq> None \<and> u64_max < timeout_secs (claude_settings c) + 300"
  by (auto simp: start_value_def job_runner_def cli_runner_new_def with_qbo_def Let_def bind_result_Inl_iff broker_secs_def job_margin_def
      split: option.splits if_splits)

definition accepted_but_fatal :: "config \<Rightarrow> bool" where
  "accepted_but_fatal c \<longleftrightarrow>
     db_max_connections c = 0 \<or> 2 ^ 61 \<le> max_concurrent_jobs c \<or>
     qbo_settings c \<noteq> None \<and> jobctl_mcp (claude_settings c) \<noteq> None \<and>
     u64_max < timeout_secs (claude_settings c) + 300"

lemma start_up_panic:
  assumes "start_up host (db, fs) = (Inl StartPanic, st')"
  shows "\<exists>c. config_from_env (run_env host) = Inr c \<and> accepted_but_fatal c"
  using assms unfolding start_up_def
proof (elim start_thenE)
qed (auto simp: start_steps_not_panic start_value_Inl [of "Inr x" for x] accepted_but_fatal_def dest: connect_panic job_runner_panic)



section \<open>Concrete starts\<close>

definition quiet_host :: "(string \<Rightarrow> env_value) \<Rightarrow> run_host" where
  "quiet_host vars =
     \<lparr>run_env = empty_env\<lparr>env_vars := vars\<rparr>, url_failure = (\<lambda>_. None), connect_failure = (\<lambda>_ _. None), run_os = sample_os,
      tls_failure = None, bind_failure = (\<lambda>_. None)\<rparr>"

definition plain_vars :: "string \<Rightarrow> env_value" where
  "plain_vars name = (if name = ''DATABASE_URL'' then EnvValue ''mysql://db'' else NotPresent)"

definition endless_vars :: "string \<Rightarrow> env_value" where
  "endless_vars name =
     (if name = ''DATABASE_URL'' then EnvValue ''mysql://db''
      else if name = ''AES_KEY'' \<or> name = ''JOBCTL_MCP_BIN'' then EnvValue ''x''
      else if name = ''CLAUDE_TIMEOUT_SECS'' then EnvValue ''18446744073709551615''
      else NotPresent)"

lemmas read_config = config_from_env_def claude_from_env_def config_optional_def config_list_def config_raw_def
  config_required_def config_qbo_def config_jobctl_mcp_def ok_or_def quiet_host_def empty_env_def

lemma trimmed_values [simp]:
  "trim ''mysql://db'' = ''mysql://db''" "trim ''x'' = ''x''" "trim ''18446744073709551615'' = ''18446744073709551615''"
  by (simp_all add: trim_graph is_graph_def byte_def)

lemma endless_number: "uint_from_str u64_max ''18446744073709551615'' = Inr u64_max"
  by (simp add: uint_from_str_def u64_max_def is_ascii_digit_def byte_def)

lemma plain_config:
  "\<exists>c. config_from_env (run_env (quiet_host plain_vars)) = Inr c \<and> requeue_pending_on_start c \<and>
     workspace_root_path c = ''workspaces'' \<and> db_max_connections c \<noteq> 0 \<and> qbo_settings c = None \<and>
     max_concurrent_jobs c = 1"
  by (simp add: read_config plain_vars_def)

lemma endless_config:
  "\<exists>c qbo. config_from_env (run_env (quiet_host endless_vars)) = Inr c \<and> requeue_pending_on_start c \<and>
     workspace_root_path c = ''workspaces'' \<and> db_max_connections c \<noteq> 0 \<and> qbo_settings c = Some qbo \<and>
     jobctl_mcp (claude_settings c) \<noteq> None \<and> timeout_secs (claude_settings c) = u64_max"
  by (simp add: read_config endless_vars_def endless_number)


definition left_over :: fs where
  "left_over = [(''workspaces'', Directory), (''workspaces/job-1-5'', Directory)]"

lemma quiet_prepare: "prepare (run_os (quiet_host vars)) ''workspaces'' left_over = (Inr (WorkspaceRoot ''workspaces''), left_over)"
  by (simp add: prepare_def dir_chain_def ancestors_def upt_rec quiet_host_def sample_os_def left_over_def fs_lookup_def)

lemma quiet_sweep: "\<exists>k fs'. sweep (run_os (quiet_host vars)) (WorkspaceRoot ''workspaces'') left_over = (Inr k, fs')"
proof -
  have "calm (run_os (quiet_host vars))" "distinct (map fst left_over)"
    by (simp_all add: quiet_host_def calm_def sample_os_def left_over_def)
  then show ?thesis using sweep_removes_all_stale by blast
qed

lemma quiet_requeue:
  assumes "requeue_pending_on_start c"
  shows "\<exists>n db'. requeue_orphans c (sample_db (Some ''pending'') [], fs) = (Inr n, db', fs)"
proof -
  obtain r db' where run: "requeue_pending (sample_db (Some ''pending'') []) = (r, db')"
    by (cases "requeue_pending (sample_db (Some ''pending'') [])")
  from requeue_clears_pending [OF sample_db_wf _ run] run assms show ?thesis
    by (auto simp: requeue_orphans_def start_store_def)
qed

lemma start_value_run: "start_then (start_value (Inr x)) f = f x"
  by (rule ext) (simp add: start_then_def start_value_def)

lemma quiet_start:
  assumes c: "config_from_env (run_env (quiet_host vars)) = Inr c" "requeue_pending_on_start c"
    "workspace_root_path c = ''workspaces''" "db_max_connections c \<noteq> 0"
  obtains db' fs' where
    "start_up (quiet_host vars) (sample_db (Some ''pending'') [], left_over) =
       start_then (start_value (job_runner (quiet_host vars) c)) (\<lambda>jobs.
       start_then (\<lambda>(db, fs). (worker_new db fs (max_concurrent_jobs c), db, fs)) (\<lambda>worker.
         start_value (Inr \<lparr>started_config = c, started_root = WorkspaceRoot ''workspaces'',
           started_cli = jobs, started_worker = worker\<rparr>))) (db', fs')"
proof -
  obtain n db' where re: "requeue_orphans c (sample_db (Some ''pending'') [], left_over) = (Inr n, db', left_over)"
    using quiet_requeue [OF c(2)] by blast
  obtain k fs' where sw: "sweep (run_os (quiet_host vars)) (WorkspaceRoot ''workspaces'') left_over = (Inr k, fs')"
    using quiet_sweep by blast
  have conn: "store_connect (quiet_host vars) url (db_max_connections c) = Inr ()"
    "http_bind (quiet_host vars) addr = Inr ()" for url addr
    using c(4) by (simp_all add: store_connect_def http_bind_def quiet_host_def)
  show thesis
    by (rule that [of db' fs']) (simp add: start_up_def c start_value_run conn start_then_def [of "requeue_orphans c"]
        re start_files_def sw quiet_prepare start_then_def [of "start_files f" for f])
qed

lemma plain_start:
  obtains st db' fs' where
    "start_up (quiet_host plain_vars) (sample_db (Some ''pending'') [], left_over) = (Inr st, db', fs')"
    "requeue_pending_on_start (started_config st)" "permits (started_worker st) = 1" "cli_broker (started_cli st) = None"
proof -
  obtain c where c: "config_from_env (run_env (quiet_host plain_vars)) = Inr c" "requeue_pending_on_start c"
    "workspace_root_path c = ''workspaces''" "db_max_connections c \<noteq> 0" "qbo_settings c = None" "max_concurrent_jobs c = 1"
    using plain_config by blast
  obtain db' fs' where run: "start_up (quiet_host plain_vars) (sample_db (Some ''pending'') [], left_over) =
     start_then (start_value (job_runner (quiet_host plain_vars) c)) (\<lambda>jobs.
       start_then (\<lambda>(db, fs). (worker_new db fs (max_concurrent_jobs c), db, fs)) (\<lambda>worker.
         start_value (Inr \<lparr>started_config = c, started_root = WorkspaceRoot ''workspaces'',
           started_cli = jobs, started_worker = worker\<rparr>))) (db', fs')"
    using quiet_start [OF c(1-4)] by blast
  obtain w where w: "worker_new db' fs' 1 = Inr w" "permits w = 1"
    by (simp add: worker_new_def max_permits_def)
  define st where "st = \<lparr>started_config = c, started_root = WorkspaceRoot ''workspaces'',
    started_cli = cli_runner_new (claude_settings c), started_worker = w\<rparr>"
  have up: "start_up (quiet_host plain_vars) (sample_db (Some ''pending'') [], left_over) = (Inr st, db', fs')"
    by (simp add: run job_runner_def cli_runner_new_def Let_def c(5,6) start_value_run start_then_def
        start_value_def w(1) st_def del: One_nat_def)
  show thesis by (rule that [OF up]) (simp_all add: st_def w(2) cli_runner_new_def c(2))
qed

theorem start_up_is_clean_witness:
  "\<exists>st db' fs'. start_up (quiet_host plain_vars) (sample_db (Some ''pending'') [], left_over) = (Inr st, db', fs') \<and>
     permits (started_worker st) = 1 \<and> cli_broker (started_cli st) = None \<and>
     message_at db' 1 = map_option (\<lambda>m. m\<lparr>msg_status := to_db New\<rparr>) (message_at (sample_db (Some ''pending'') []) 1)"
proof -
  obtain st db' fs' where up:
    "start_up (quiet_host plain_vars) (sample_db (Some ''pending'') [], left_over) = (Inr st, db', fs')"
    and st: "requeue_pending_on_start (started_config st)" "permits (started_worker st) = 1" "cli_broker (started_cli st) = None"
    by (rule plain_start)
  note clean = start_up_is_clean [OF up sample_db_wf]
  have "is_pending (sample_db (Some ''pending'') []) 1" by (simp add: is_pending_iff)
  then have "message_at db' 1 = map_option (\<lambda>m. m\<lparr>msg_status := to_db New\<rparr>) (message_at (sample_db (Some ''pending'') []) 1)"
    using clean [THEN conjunct2, THEN conjunct2, THEN conjunct2, THEN conjunct1] st(1) by simp
  then show ?thesis using up st by blast
qed


end
