(* ===== verification/Http.thy ===== *)
theory Http
  imports StoreProps Claude
begin

text \<open>
  \<open>src/http.rs\<close>: the HTTP API. A request is its method, its path and what reading its
  body gives; the handler answers with a status and a JSON body and acts on the store.
  The server loop around it is Hyper's.
\<close>

datatype http_method = Get | Post | OtherMethod string

record request =
  req_method :: http_method
  req_path :: string
  req_body :: "string + bytes"

record response =
  resp_status :: nat
  resp_body :: "(string \<times> json) list"

datatype api_error = NotFound | BadRequest string | StoreFailed store_error

fun api_status :: "api_error \<Rightarrow> nat" where
  "api_status NotFound = 404"
| "api_status (BadRequest m) = 400"
| "api_status (StoreFailed e) = 500"

fun api_error_text :: "api_error \<Rightarrow> string" where
  "api_error_text NotFound = ''not found''"
| "api_error_text (BadRequest m) = ''bad request: '' @ m"
| "api_error_text (StoreFailed e) = ''internal error''"

definition max_body_bytes :: nat where "max_body_bytes = 256 * 1024"

section \<open>Requests\<close>

record create_job =
  create_chat_id :: chat_id
  create_content :: string

text \<open>\<open>#[derive(Deserialize)]\<close>: both fields required, an array gives them in order.\<close>

fun create_job_of :: "json \<Rightarrow> create_job option" where
  "create_job_of (JObject kvs) =
     (case (required_field kvs ''chat_id'' as_i64, required_field kvs ''content'' as_str) of
        (Some c, Some t) \<Rightarrow> Some \<lparr>create_chat_id = ChatId c, create_content = t\<rparr>
      | _ \<Rightarrow> None)"
| "create_job_of (JArray [c, t]) =
     (case (as_i64 c, as_str t) of
        (Some c, Some t) \<Rightarrow> Some \<lparr>create_chat_id = ChatId c, create_content = t\<rparr>
      | _ \<Rightarrow> None)"
| "create_job_of _ = None"

definition read_json :: "serde \<Rightarrow> (json \<Rightarrow> 'a option) \<Rightarrow> request \<Rightarrow> api_error + 'a" where
  "read_json serde decode req =
     (case req_body req of
        Inl e \<Rightarrow> Inl (BadRequest (''could not read body: '' @ e))
      | Inr bytes \<Rightarrow>
          if max_body_bytes < length bytes
          then Inl (BadRequest (''could not read body: length limit exceeded''))
          else (case serde_parse serde bytes of
                  Inl e \<Rightarrow> Inl (BadRequest (''invalid JSON body: '' @ e))
                | Inr doc \<Rightarrow>
                    (case decode doc of
                       None \<Rightarrow> Inl (BadRequest (''invalid JSON body: '' @ serde_shape_error serde bytes))
                     | Some x \<Rightarrow> Inr x)))"

definition jobs_prefix :: string where "jobs_prefix = ''/jobs/''"

definition parse_job_id :: "string \<Rightarrow> message_id option" where
  "parse_job_id path =
     (case strip_prefix jobs_prefix path of
        None \<Rightarrow> None
      | Some rest \<Rightarrow>
          (case parse_i64 rest of
             None \<Rightarrow> None
           | Some raw \<Rightarrow> if 0 < raw then Some (MessageId raw) else None))"

section \<open>Responses\<close>

record job_view =
  view_job :: job
  view_reply :: "string option"

definition view_fields :: "job_view \<Rightarrow> (string \<times> json) list" where
  "view_fields v = job_fields (view_job v) @ [(''reply'', json_opt JString (view_reply v))]"

definition load_view :: "message_id \<Rightarrow> database \<Rightarrow> (api_error + job_view) \<times> database" where
  "load_view i db =
     (case store_get i db of
        (Inl e, db1) \<Rightarrow> (Inl (StoreFailed e), db1)
      | (Inr None, db1) \<Rightarrow> (Inl NotFound, db1)
      | (Inr (Some j), db1) \<Rightarrow>
          (case job_reply_id j of
             None \<Rightarrow> (Inr \<lparr>view_job = j, view_reply = None\<rparr>, db1)
           | Some n \<Rightarrow>
               (case store_reply n db1 of
                  (Inl e, db2) \<Rightarrow> (Inl (StoreFailed e), db2)
                | (Inr reply, db2) \<Rightarrow> (Inr \<lparr>view_job = j, view_reply = reply\<rparr>, db2))))"

definition json_response :: "nat \<Rightarrow> (string \<times> json) list \<Rightarrow> response" where
  "json_response status body = \<lparr>resp_status = status, resp_body = body\<rparr>"

definition view_response :: "nat \<Rightarrow> (api_error + job_view) \<times> database \<Rightarrow> (api_error + response) \<times> database" where
  "view_response status r =
     (case r of
        (Inl e, db) \<Rightarrow> (Inl e, db)
      | (Inr v, db) \<Rightarrow> (Inr (json_response status (view_fields v)), db))"

section \<open>Routing\<close>

definition route :: "serde \<Rightarrow> request \<Rightarrow> database \<Rightarrow> (api_error + response) \<times> database" where
  "route serde req db =
     (if req_method req = Get \<and> req_path req = ''/health''
      then (Inr (json_response 200 [(''status'', JString ''ok'')]), db)
      else if req_method req = Post \<and> req_path req = ''/jobs''
      then (case read_json serde create_job_of req of
              Inl e \<Rightarrow> (Inl e, db)
            | Inr body \<Rightarrow>
                if trim (create_content body) = []
                then (Inl (BadRequest ''content must not be empty''), db)
                else (case store_insert (create_chat_id body) (create_content body) db of
                        (Inl e, db1) \<Rightarrow> (Inl (StoreFailed e), db1)
                      | (Inr i, db1) \<Rightarrow> view_response 201 (load_view i db1)))
      else if req_method req = Get \<and> prefix jobs_prefix (req_path req)
      then (case parse_job_id (req_path req) of
              None \<Rightarrow> (Inl NotFound, db)
            | Some i \<Rightarrow> view_response 200 (load_view i db))
      else (Inl NotFound, db))"

definition handle :: "serde \<Rightarrow> request \<Rightarrow> database \<Rightarrow> response \<times> database" where
  "handle serde req db =
     (case route serde req db of
        (Inr response, db') \<Rightarrow> (response, db')
      | (Inl err, db') \<Rightarrow>
          (json_response (api_status err) [(''error'', JString (api_error_text err))], db'))"

section \<open>Lemmas\<close>

text \<open>The path of a job is a codec for its id, on the ids the database can hold.\<close>

definition job_path :: "message_id \<Rightarrow> string" where
  "job_path i = jobs_prefix @ show_message_id i"

lemma parse_job_path: "0 < message_raw i \<Longrightarrow> in_i64 (message_raw i) \<Longrightarrow> parse_job_id (job_path i) = Some i"
  by (simp add: parse_job_id_def job_path_def show_message_id_def parse_i64_show_int)

lemma snd_load_view:
  "snd (load_view i db) = snd (store_get i db) \<or>
   (\<exists>n. snd (load_view i db) = snd (store_reply n (snd (store_get i db))))"
proof -
  obtain r db1 where get: "store_get i db = (r, db1)" by (cases "store_get i db")
  show ?thesis
  proof (cases "\<exists>j n. r = Inr (Some j) \<and> job_reply_id j = Some n")
    case True
    then obtain j n where "r = Inr (Some j)" "job_reply_id j = Some n" by blast
    with get have "snd (load_view i db) = snd (store_reply n db1)"
      by (simp add: load_view_def split: prod.split sum.split)
    with get show ?thesis by auto
  next
    case False
    with get have "snd (load_view i db) = db1"
      by (auto simp: load_view_def split: sum.split option.split)
    with get show ?thesis by simp
  qed
qed

lemma load_view_keeps: "keeps_star db (snd (load_view i db))"
  using snd_load_view [of i db] keeps_star_keeps [OF keeps_store_get [of db i]]
    keeps_star_trans [OF keeps_star_keeps [OF keeps_store_get [of db i]] keeps_star_keeps [OF keeps_store_reply]]
  by auto

lemma store_reply_messages: "messages (snd (store_reply n db)) = messages db"
proof -
  obtain x d where ex: "execute (select_reply (message_raw n)) db = (x, d)"
    by (cases "execute (select_reply (message_raw n)) db")
  then have "messages d = messages db" by (rule execute_read_only [rotated]) (simp add: select_reply_def)
  with ex show ?thesis by (simp add: store_reply_def)
qed

lemma load_view_messages: "messages (snd (load_view i db)) = messages db"
proof -
  have "messages (snd (store_get i db)) = messages db"
    using store_get_frame [of i db] by (cases "store_get i db") simp
  then show ?thesis using snd_load_view [of i db] store_reply_messages by auto
qed

lemma load_view_error: "fst (load_view i db) = Inl e \<Longrightarrow> \<exists>s. e = NotFound \<or> e = StoreFailed s"
  by (auto simp: load_view_def split: prod.splits sum.splits option.splits)

lemma snd_view_response [simp]: "snd (view_response status r) = snd r"
  by (auto simp: view_response_def split: prod.split sum.split)

lemma store_insert_answered:
  assumes ok: "faults db = []" and chat: "chat_raw chat \<in> set (map chat_pk (chats db))"
    and len: "length content \<le> text_max" and n: "next_message_id db \<le> int_max"
  obtains db' where "store_insert chat content db = (Inr (MessageId (int (next_message_id db))), db')"
    "faults db' = []"
    "insert_message (chat_raw chat) User content (Some 1) None db = (Inr (next_message_id db), db')"
proof -
  obtain db' where ins: "insert_message (chat_raw chat) User content (Some 1) None db = (Inr (next_message_id db), db')"
    using assms by (simp add: insert_message_def)
  moreover have "faults db' = []" using insert_message_frame [OF ins] ok by simp
  moreover have "store_insert chat content db = (Inr (MessageId (int (next_message_id db))), db')"
    using ins ok insert_id_small [OF n] by (simp add: store_insert_def on_pool_answered)
  ultimately show ?thesis by (intro that)
qed

text \<open>What a \<open>GET\<close> of a stored job answers, and a \<open>POST\<close> of a good one.\<close>

definition stored_view :: "database \<Rightarrow> message_row \<Rightarrow> job_status \<Rightarrow> job_view" where
  "stored_view db m t =
     (let j = job_with_status (joined_row db m) t in
      \<lparr>view_job = j,
       view_reply = (case job_reply_id j of
         None \<Rightarrow> None
       | Some n \<Rightarrow>
           (case message_at db (message_raw n) of
              None \<Rightarrow> None
            | Some r \<Rightarrow> if msg_sender r = Ai then Some (msg_content r) else None))\<rparr>)"

lemma load_view_answered:
  assumes "faults db = []" and "message_at db i = Some m" and "is_job_row m" and "msg_status m = to_db t"
  shows "load_view (MessageId i) db = (Inr (stored_view db m t), db)"
proof -
  have "store_reply n db = (Inr (case message_at db (message_raw n) of None \<Rightarrow> None
      | Some r \<Rightarrow> if msg_sender r = Ai then Some (msg_content r) else None), db)" for n
    using assms(1) by (simp add: store_reply_def on_pool_answered select_reply_def)
  then show ?thesis
    using store_get_answered [OF assms] by (simp add: load_view_def stored_view_def Let_def split: option.split)
qed

lemma get_handled:
  assumes get: "req_method req = Get" "req_path req = job_path (MessageId i)" and i: "0 < i" "in_i64 i"
    and row: "faults db = []" "message_at db i = Some m" "is_job_row m" "msg_status m = to_db t"
  shows "handle serde req db = (\<lparr>resp_status = 200, resp_body = view_fields (stored_view db m t)\<rparr>, db)"
proof -
  have "parse_job_id (job_path (MessageId i)) = Some (MessageId i)"
    using i by (intro parse_job_path) simp_all
  moreover have "prefix jobs_prefix (job_path (MessageId i))" by (simp add: job_path_def)
  moreover have "job_path (MessageId i) \<noteq> ''/health''" by (simp add: job_path_def jobs_prefix_def)
  ultimately show ?thesis
    using get load_view_answered [OF row] by (simp add: handle_def route_def view_response_def json_response_def)
qed

lemma post_handled:
  assumes wf: "db_wf db" and ok: "faults db = []"
    and req: "req_method req = Post" "req_path req = ''/jobs''"
    and body: "read_json serde create_job_of req = Inr \<lparr>create_chat_id = chat, create_content = content\<rparr>"
    and content: "trim content \<noteq> []" "length content \<le> text_max"
    and chat: "chat_raw chat \<in> set (map chat_pk (chats db))" and n: "next_message_id db \<le> int_max"
  obtains db' m where "handle serde req db = (\<lparr>resp_status = 201, resp_body = view_fields (stored_view db' m New)\<rparr>, db')"
    "message_at db' (int (next_message_id db)) = Some m" "is_job_row m" "msg_status m = to_db New" "msg_payload m = None"
    "msg_content m = content" "msg_id m = int (next_message_id db)" "faults db' = []" "db_wf db'"
    "next_message_id db' = Suc (next_message_id db)"
proof -
  let ?n = "int (next_message_id db)"
  let ?m = "\<lparr>msg_id = ?n, msg_chat = chat_raw chat, msg_sender = User, msg_content = content,
         msg_agentic = Some 1, msg_payload = None, msg_status = None\<rparr>"
  obtain db' where ins: "store_insert chat content db = (Inr (MessageId ?n), db')" "faults db' = []"
    "insert_message (chat_raw chat) User content (Some 1) None db = (Inr (next_message_id db), db')"
    using store_insert_answered [OF ok chat content(2) n] by blast
  have at: "message_at db' ?n = Some ?m" using message_at_insert(2) [OF wf ins(3)] by simp
  have row: "is_job_row ?m" "msg_status ?m = to_db New" by (simp_all add: is_job_row_def)
  have "load_view (MessageId ?n) db' = (Inr (stored_view db' ?m New), db')"
    by (rule load_view_answered [OF ins(2) at row])
  then have run: "handle serde req db = (\<lparr>resp_status = 201, resp_body = view_fields (stored_view db' ?m New)\<rparr>, db')"
    using req body content(1) ins(1) by (simp add: handle_def route_def view_response_def json_response_def)
  have "db_wf db'" using db_wf_insert [OF wf, of "chat_raw chat" User content "Some 1" None] ins(3) by simp
  moreover have "next_message_id db' = Suc (next_message_id db)"
    using ins(3) by (auto simp: insert_message_def split: if_splits)
  ultimately show ?thesis by (intro that [OF run at row _ _ _ ins(2)]) simp_all
qed

section \<open>Properties\<close>

text \<open>
  C25: a job posted with a non-blank content to an existing chat is answered 201 with its id
  and the status \<open>new\<close>, and a \<open>GET\<close> of \<open>/jobs/{id}\<close> then answers 200 with the very same
  body.
\<close>
theorem posted_job_can_be_fetched:
  assumes wf: "db_wf db" and ok: "faults db = []"
    and req: "req_method req = Post" "req_path req = ''/jobs''"
    and body: "read_json serde create_job_of req = Inr \<lparr>create_chat_id = chat, create_content = content\<rparr>"
    and content: "trim content \<noteq> []" "length content \<le> text_max"
    and chat: "chat_raw chat \<in> set (map chat_pk (chats db))" and n: "next_message_id db \<le> int_max"
    and get: "req_method again = Get" "req_path again = job_path (MessageId (int (next_message_id db)))"
  shows "\<exists>body db'. handle serde req db = (\<lparr>resp_status = 201, resp_body = body\<rparr>, db') \<and>
    map_of body ''id'' = Some (json_int (int (next_message_id db))) \<and>
    map_of body ''status'' = Some (JString ''new'') \<and> map_of body ''content'' = Some (JString content) \<and>
    handle serde again db' = (\<lparr>resp_status = 200, resp_body = body\<rparr>, db')"
proof -
  let ?n = "int (next_message_id db)"
  obtain db' m where run: "handle serde req db = (\<lparr>resp_status = 201, resp_body = view_fields (stored_view db' m New)\<rparr>, db')"
    and m: "message_at db' ?n = Some m" "is_job_row m" "msg_status m = to_db New" "msg_payload m = None"
      "msg_content m = content" "msg_id m = ?n" "faults db' = []"
    by (rule post_handled [OF wf ok req body content chat n])
  have "0 < ?n" "in_i64 ?n" using wf n by (auto simp: db_wf_def int_max_def i64_defs)
  from get_handled [OF get this m(7,1,2,3)] run m(4,5,6) show ?thesis
    by (intro exI [of _ "view_fields (stored_view db' m New)"] exI [of _ db'])
      (simp add: view_fields_def job_fields_def serialize_status_def stored_view_def Let_def)
qed

definition post_serde :: serde where
  "post_serde = \<lparr>serde_parse = (\<lambda>_. Inr (JObject [(''chat_id'', JNumber (PosInt 7)), (''content'', JString ''hi'')])),
     serde_shape_error = (\<lambda>_. ''shape''), serde_f64 = (\<lambda>_. 0)\<rparr>"

theorem posted_job_can_be_fetched_witness:
  "\<exists>body db'. handle post_serde \<lparr>req_method = Post, req_path = ''/jobs'', req_body = Inr ''b''\<rparr> (sample_db None []) =
      (\<lparr>resp_status = 201, resp_body = body\<rparr>, db') \<and>
    handle post_serde \<lparr>req_method = Get, req_path = job_path (MessageId 3), req_body = Inr []\<rparr> db' =
      (\<lparr>resp_status = 200, resp_body = body\<rparr>, db')"
proof -
  have body: "read_json post_serde create_job_of \<lparr>req_method = Post, req_path = ''/jobs'', req_body = Inr ''b''\<rparr> =
      Inr \<lparr>create_chat_id = ChatId 7, create_content = ''hi''\<rparr>"
    by (simp add: read_json_def post_serde_def max_body_bytes_def i64_max_def)
  have "trim ''hi'' \<noteq> []" by code_simp
  from posted_job_can_be_fetched [OF sample_db_wf [of None "[]"] _ _ _ body this, where again =
      "\<lparr>req_method = Get, req_path = job_path (MessageId 3), req_body = Inr []\<rparr>"]
  show ?thesis by (auto simp: text_max_def int_max_def)
qed

lemma route_cases:
  obtains (pure) r where "route serde req db = (r, db)" "\<And>e. r \<noteq> Inl (StoreFailed e)"
      "\<And>resp. r = Inr resp \<Longrightarrow> resp_status resp = 200"
    | (read) i where "route serde req db = view_response 200 (load_view i db)"
    | (refused) c t e db1 where "req_method req = Post" "store_insert c t db = (Inl e, db1)"
        "route serde req db = (Inl (StoreFailed e), db1)"
    | (posted) c t i db1 where "req_method req = Post" "store_insert c t db = (Inr i, db1)"
        "route serde req db = view_response 201 (load_view i db1)"
proof (cases "req_method req = Post \<and> req_path req = ''/jobs''")
  case False
  then have "(\<exists>i. route serde req db = view_response 200 (load_view i db)) \<or>
      route serde req db = (Inl NotFound, db) \<or>
      route serde req db = (Inr (json_response 200 [(''status'', JString ''ok'')]), db)"
    unfolding route_def if_not_P [OF False] by (auto split: option.split)
  then show ?thesis
  proof (elim disjE exE)
    assume "route serde req db = (Inl NotFound, db)"
    then show ?thesis by (rule pure) simp_all
  next
    assume "route serde req db = (Inr (json_response 200 [(''status'', JString ''ok'')]), db)"
    then show ?thesis by (rule pure) (auto simp: json_response_def)
  qed (rule read)
next
  case True
  then have get: "req_method req \<noteq> Get" by simp
  show ?thesis
  proof (cases "read_json serde create_job_of req")
    case (Inl e)
    have "e \<noteq> StoreFailed s" for s
      using Inl by (auto simp: read_json_def split: sum.splits if_splits option.splits)
    with Inl True get show ?thesis by (intro pure [of "Inl e"]) (simp_all add: route_def)
  next
    case (Inr body)
    show ?thesis
    proof (cases "trim (create_content body) = []")
      case True
      with Inr get \<open>req_method req = Post \<and> req_path req = ''/jobs''\<close> show ?thesis
        by (intro pure [of "Inl (BadRequest ''content must not be empty'')"]) (simp_all add: route_def)
    next
      case False
      obtain r db1 where ins: "store_insert (create_chat_id body) (create_content body) db = (r, db1)"
        by (cases "store_insert (create_chat_id body) (create_content body) db")
      show ?thesis
      proof (cases r)
        case (Inl e)
        with ins False Inr get True show ?thesis by (intro refused [OF _ ins [unfolded Inl]]) (simp_all add: route_def)
      next
        case (Inr i)
        with ins False \<open>read_json serde create_job_of req = Inr body\<close> get True show ?thesis
          by (intro posted [OF _ ins [unfolded Inr]]) (simp_all add: route_def)
      qed
    qed
  qed
qed

lemma view_response_status:
  "view_response st (load_view i db) = (r, db') \<Longrightarrow>
   (\<forall>resp. r = Inr resp \<longrightarrow> resp_status resp = st) \<and> (\<forall>e. r = Inl e \<longrightarrow> api_status e \<in> {404, 500})"
  using load_view_error [of i db]
  by (cases "load_view i db") (fastforce simp: view_response_def json_response_def split: sum.splits)

lemma handle_route:
  "route serde req db = (r, db') \<Longrightarrow>
   snd (handle serde req db) = db' \<and>
   resp_status (fst (handle serde req db)) = (case r of Inl e \<Rightarrow> api_status e | Inr resp \<Rightarrow> resp_status resp)"
  by (simp add: handle_def json_response_def split: sum.split)

lemma view_answer:
  assumes run: "view_response n (load_view i db) = (r, db')"
    and st: "status = (case r of Inl e \<Rightarrow> api_status e | Inr resp \<Rightarrow> resp_status resp)"
  shows "status \<in> {n, 404, 500}" and "db' = snd (load_view i db)"
proof -
  show "status \<in> {n, 404, 500}"
  proof (cases r)
    case (Inl e)
    then have "api_status e \<in> {404, 500}" using view_response_status [OF run] by simp
    then show ?thesis using st Inl by auto
  next
    case (Inr resp)
    then have "resp_status resp = n" using view_response_status [OF run] by simp
    then show ?thesis using st Inr by simp
  qed
  show "db' = snd (load_view i db)" using arg_cong [OF run, of snd] by simp
qed

text \<open>
  C31: whatever the request, the handler answers with one of the five documented statuses,
  keeps the database well formed and moves rows only along the lifecycle; a request that is
  answered 400 changes nothing, and only a \<open>POST\<close> changes a message.
\<close>
theorem api_is_safe:
  assumes "db_wf db" and "handle serde req db = (response, db')"
  shows "resp_status response \<in> {200, 201, 400, 404, 500} \<and> db_wf db' \<and> evolves\<^sup>*\<^sup>* db db' \<and>
    (resp_status response = 400 \<longrightarrow> db' = db) \<and>
    (req_method req \<noteq> Post \<longrightarrow> messages db' = messages db)"
proof -
  obtain r db0 where rt: "route serde req db = (r, db0)" by (cases "route serde req db")
  have db0: "db0 = db'" and st: "resp_status response = (case r of Inl e \<Rightarrow> api_status e | Inr resp \<Rightarrow> resp_status resp)"
    using handle_route [OF rt] assms(2) by simp_all
  have star: "keeps_star db db' \<Longrightarrow> db_wf db' \<and> evolves\<^sup>*\<^sup>* db db'" using assms(1) by (simp add: keeps_star_def)
  show ?thesis
  proof (cases rule: route_cases [of serde req db])
    case (pure r')
    then have same: "db' = db" "r = r'" using rt db0 by simp_all
    have "resp_status response \<in> {200, 201, 400, 404, 500}"
    proof (cases r)
      case (Inl e)
      then show ?thesis using st by (cases e) simp_all
    next
      case (Inr resp)
      then have "resp_status resp = 200" using pure(3) same(2) by simp
      then show ?thesis using st Inr by simp
    qed
    then show ?thesis using same(1) star by simp
  next
    case (read i)
    then have run: "view_response 200 (load_view i db) = (r, db')" using rt db0 by simp
    note db' = view_answer(2) [OF run st]
    have "resp_status response \<in> {200, 404, 500}" by (rule view_answer(1) [OF run st])
    moreover have "db_wf db' \<and> evolves\<^sup>*\<^sup>* db db'" by (rule star) (simp only: db' load_view_keeps)
    moreover have "messages db' = messages db" by (simp only: db' load_view_messages)
    ultimately show ?thesis by (elim insertE) simp_all
  next
    case (refused c t e db1)
    then have "db' = db1" "r = Inl (StoreFailed e)" using rt db0 by simp_all
    then show ?thesis
      using refused(1) st star keeps_star_keeps [OF keeps_store_insert [of db c t]] refused(2) by simp
  next
    case (posted c t i db1)
    then have run: "view_response 201 (load_view i db1) = (r, db')" using rt db0 by simp
    have "db' = snd (load_view i db1)" by (rule view_answer(2) [OF run st])
    moreover have "keeps_star db db1" using keeps_star_keeps [OF keeps_store_insert [of db c t]] posted(2) by simp
    ultimately have "keeps_star db db'" using keeps_star_trans [OF _ load_view_keeps] by simp
    then have "db_wf db' \<and> evolves\<^sup>*\<^sup>* db db'" by (rule star)
    moreover have "resp_status response \<in> {201, 404, 500}" by (rule view_answer(1) [OF run st])
    ultimately show ?thesis using posted(1) by (elim insertE) simp_all
  qed
qed

theorem api_is_safe_witness:
  "\<exists>response db'. handle post_serde \<lparr>req_method = OtherMethod ''PUT'', req_path = ''/jobs'', req_body = Inr []\<rparr>
      (sample_db None []) = (response, db') \<and> resp_status response \<in> {200, 201, 400, 404, 500} \<and>
    messages db' = messages (sample_db None [])"
proof -
  let ?req = "\<lparr>req_method = OtherMethod ''PUT'', req_path = ''/jobs'', req_body = Inr []\<rparr>"
  obtain response db' where run: "handle post_serde ?req (sample_db None []) = (response, db')"
    by (cases "handle post_serde ?req (sample_db None [])")
  from api_is_safe [OF sample_db_wf run] run show ?thesis by simp
qed

text \<open>
  The id in a job's path: \<open>GET\<close> paths are exactly read back for positive ids, and
  whatever \<open>parse_job_id\<close> accepts is a positive 64-bit id.
\<close>
theorem job_path_round_trip:
  "(0 < message_raw i \<and> in_i64 (message_raw i) \<longleftrightarrow> parse_job_id (job_path i) = Some i) \<and>
   (parse_job_id path = Some j \<longrightarrow> 0 < message_raw j \<and> in_i64 (message_raw j) \<and> prefix jobs_prefix path)"
proof -
  have sound: "0 < message_raw j \<and> in_i64 (message_raw j) \<and> prefix jobs_prefix path"
    if "parse_job_id path = Some j" for path j
    using that parse_i64_range
    by (auto simp: parse_job_id_def strip_prefix_Some_iff split: option.splits if_splits)
  then show ?thesis using parse_job_path by blast
qed

theorem job_path_round_trip_witness: "parse_job_id (job_path (MessageId 12)) = Some (MessageId 12)"
  using job_path_round_trip [of "MessageId 12"] by (simp add: i64_defs)

end
