(* ===== verification/Service.thy ===== *)
theory Service
  imports Startup Http
begin

text \<open>
  The running process: the accept loop of \<open>src/http.rs\<close> (\<open>serve\<close>) and the second half of
  \<open>src/main.rs\<close>, where the worker and the API share the store and the shutdown token until a
  signal comes, and the process ends when both have; how a cancelled process winds down.
\<close>

section \<open>The accept loop\<close>

text \<open>
  \<open>serve\<close> accepts until it sees the cancelled token, then waits for the open connections. A
  failed \<open>accept\<close> changes nothing. Each connection serves its requests; what a request does to
  the store is a sequence of calls (\<open>handled_by_calls\<close>), and other tasks run between them.
\<close>

datatype server_phase = Listening | Finishing | Closed

record http_server =
  server_phase :: server_phase
  open_connections :: nat

definition server_new :: http_server where
  "server_new = \<lparr>server_phase = Listening, open_connections = 0\<rparr>"

text \<open>A step on the server and the store, given whether the token is cancelled.\<close>

inductive serve_step :: "bool \<Rightarrow> http_server \<times> database \<Rightarrow> http_server \<times> database \<Rightarrow> bool" for cancelled :: bool where
  accepted: "server_phase v = Listening \<Longrightarrow>
    serve_step cancelled (v, db) (v\<lparr>open_connections := Suc (open_connections v)\<rparr>, db)"
| accept_failed: "server_phase v = Listening \<Longrightarrow> serve_step cancelled (v, db) (v, db)"
| store_call: "0 < open_connections v \<Longrightarrow> store_others db db' \<Longrightarrow> serve_step cancelled (v, db) (v, db')"
| closed: "open_connections v = Suc n \<Longrightarrow> serve_step cancelled (v, db) (v\<lparr>open_connections := n\<rparr>, db)"
| break_accept: "server_phase v = Listening \<Longrightarrow> cancelled \<Longrightarrow>
    serve_step cancelled (v, db) (v\<lparr>server_phase := Finishing\<rparr>, db)"
| drained: "server_phase v = Finishing \<Longrightarrow> open_connections v = 0 \<Longrightarrow>
    serve_step cancelled (v, db) (v\<lparr>server_phase := Closed\<rparr>, db)"

inductive_cases serve_stepE: "serve_step cancelled (v, db) (v', db')"

section \<open>The process\<close>

record service =
  service_worker :: "database worker_state"
  service_http :: http_server
  exit_code :: "nat option"

definition service_new :: "started \<Rightarrow> service" where
  "service_new st = \<lparr>service_worker = started_worker st, service_http = server_new, exit_code = None\<rparr>"

text \<open>
  The tasks take turns; a signal cancels the token that both see; \<open>run\<close> returns when both tasks
  have, and \<open>main\<close> exits.
\<close>

inductive service_step :: "workspace_root \<Rightarrow> service \<Rightarrow> service \<Rightarrow> bool" for root :: workspace_root where
  work: "runner_step root (service_worker p) w \<Longrightarrow> shutdown w = shutdown (service_worker p) \<Longrightarrow>
    service_step root p (p\<lparr>service_worker := w\<rparr>)"
| serve: "serve_step (shutdown (service_worker p)) (service_http p, wdb (service_worker p)) (v, db) \<Longrightarrow>
    service_step root p (p\<lparr>service_http := v, service_worker := (service_worker p)\<lparr>wdb := db\<rparr>\<rparr>)"
| got_signal: "service_step root p (p\<lparr>service_worker := (service_worker p)\<lparr>shutdown := True\<rparr>\<rparr>)"
| leave: "shutdown (service_worker p) \<Longrightarrow> phase (service_worker p) = Stopped \<Longrightarrow>
    server_phase (service_http p) = Closed \<Longrightarrow>
    service_step root p (p\<lparr>exit_code := Some (run_status (Inr ()))\<rparr>)"

section \<open>Requests are sequences of calls\<close>

lemma store_others_api: "api_call c \<Longrightarrow> store_others db (call_effect c db)"
  by (auto simp: store_others_def)

lemma load_view_calls: "store_others\<^sup>*\<^sup>* db (snd (load_view i db))"
proof -
  have get: "store_others db (snd (store_get i db))"
    using store_others_api [of "GetCall i" db] by (simp add: api_call_def)
  have "store_others d (snd (store_reply n d))" for n d
    using store_others_api [of "ReplyCall n" d] by (simp add: api_call_def)
  then show ?thesis using snd_load_view [of i db] get by (metis r_into_rtranclp rtranclp.rtrancl_into_rtrancl)
qed

lemma handled_by_calls: "store_others\<^sup>*\<^sup>* db (snd (handle serde req db))"
proof -
  have ins: "store_others db (snd (store_insert c t db))" for c t
    using store_others_api [of "InsertCall c t" db] by (simp add: api_call_def)
  have "store_others\<^sup>*\<^sup>* db (snd (route serde req db))"
  proof (cases "req_method req = Post \<and> req_path req = ''/jobs''")
    case True
    then show ?thesis
      using load_view_calls ins
      by (auto simp: route_def split: prod.split sum.split)
        (metis converse_rtranclp_into_rtranclp r_into_rtranclp snd_conv)+
  next
    case False
    then show ?thesis using load_view_calls by (auto simp: route_def split: option.split)
  qed
  moreover have "snd (handle serde req db) = snd (route serde req db)"
    by (simp add: handle_def split: prod.split sum.split)
  ultimately show ?thesis by simp
qed


section \<open>The process runs the worker's loop\<close>

text \<open>
  A simulation: seen from the worker, a step of the process is a step of its own loop or of
  somebody else on the store, so everything proved of the loop holds of the process.
\<close>

lemma serve_step_others: "serve_step c (v, db) (v', db') \<Longrightarrow> db' = db \<or> store_others db db'"
  by (auto elim: serve_stepE)

lemma worker_simulates:
  assumes "service_step root p q"
  shows "runner_step root (service_worker p) (service_worker q) \<or> service_worker q = service_worker p"
  using assms
proof (cases rule: service_step.cases)
  case (serve v db)
  then show ?thesis
    using serve_step_others [OF serve(2)] worker_step.elsewhere [of store_others "service_worker p" db] by auto
qed (auto intro: worker_step.request_shutdown)

lemma stopped_stays: "runner_step root s t \<Longrightarrow> phase s = Stopped \<Longrightarrow> phase t = Stopped"
  by (erule worker_step.cases) auto

lemma phase_stays: "runner_step root s t \<or> t = s \<Longrightarrow> phase s = Stopped \<Longrightarrow> phase t = Stopped"
  using stopped_stays by auto

definition server_inv :: "bool \<Rightarrow> http_server \<Rightarrow> bool" where
  "server_inv cancelled v \<longleftrightarrow>
     (server_phase v \<noteq> Listening \<longrightarrow> cancelled) \<and> (server_phase v = Closed \<longrightarrow> open_connections v = 0)"

lemma server_inv_step: "serve_step c (v, db) (v', db') \<Longrightarrow> server_inv c v \<Longrightarrow> server_inv c v'"
  by (auto elim!: serve_stepE simp: server_inv_def)

lemma closed_stays: "serve_step c (v, db) (v', db') \<Longrightarrow> server_phase v = Closed \<Longrightarrow> server_phase v' = Closed"
  by (auto elim: serve_stepE)

definition service_inv :: "(database worker_state \<Rightarrow> bool) \<Rightarrow> service \<Rightarrow> bool" where
  "service_inv runs p \<longleftrightarrow>
     runs (service_worker p) \<and> server_inv (shutdown (service_worker p)) (service_http p) \<and>
     (\<forall>c. exit_code p = Some c \<longrightarrow>
        c = 0 \<and> phase (service_worker p) = Stopped \<and> server_phase (service_http p) = Closed)"

abbreviation started_runner :: "started \<Rightarrow> database worker_state \<Rightarrow> bool" where
  "started_runner st \<equiv>
     reachable (runner_start (wdb (started_worker st)) (permits (started_worker st))) (runner_step (started_root st))"

text \<open>A process that started well, over a well-formed database.\<close>

definition service_start :: "started \<Rightarrow> service \<Rightarrow> bool" where
  "service_start st p \<longleftrightarrow>
     p = service_new st \<and>
     runner_start (wdb (started_worker st)) (permits (started_worker st)) (started_worker st)"

lemma service_inv_step:
  assumes step: "service_step (started_root st) p q" and inv: "service_inv (started_runner st) p"
  shows "service_inv (started_runner st) q"
proof -
  note parts = inv [unfolded service_inv_def]
  have sim: "runner_step (started_root st) (service_worker p) (service_worker q) \<or> service_worker q = service_worker p"
    by (rule worker_simulates [OF step])
  then have runs: "started_runner st (service_worker q)"
    using parts by (metis reachable_step)
  have stays: "phase (service_worker p) = Stopped \<Longrightarrow> phase (service_worker q) = Stopped"
    by (rule phase_stays [OF sim])
  from step show ?thesis
  proof (cases rule: service_step.cases)
    case (work w)
    then show ?thesis using runs stays parts by (simp add: service_inv_def)
  next
    case (serve v db)
    then show ?thesis using runs stays parts server_inv_step [OF serve(2)] closed_stays [OF serve(2)]
      by (simp add: service_inv_def)
  next
    case got_signal
    then show ?thesis using runs stays parts by (simp add: service_inv_def server_inv_def)
  next
    case leave
    then show ?thesis using runs parts by (simp add: service_inv_def)
  qed
qed

interpretation service: safe_system "service_start st" "service_step (started_root st)" "service_inv (started_runner st)"
  for st
proof unfold_locales
  show "service_start st p \<Longrightarrow> service_inv (started_runner st) p" for p
    by (auto simp: service_start_def service_inv_def service_new_def server_inv_def server_new_def intro: reachable_start)
  show "service_step (started_root st) p q \<Longrightarrow> service_inv (started_runner st) p \<Longrightarrow> service_inv (started_runner st) q"
    for p q by (rule service_inv_step)
qed


section \<open>Properties of the process\<close>

lemma started_service:
  assumes up: "start_up host (db, fs) = (Inr st, db', fs')" and wf: "db_wf db"
    and run: "reachable (\<lambda>q. q = service_new st) (service_step (started_root st)) p"
  shows "service_inv (started_runner st) p"
    and "wdb (started_worker st) = db'" "permits (started_worker st) = max_concurrent_jobs (started_config st)"
proof -
  note idle = started_idle(1) [OF up wf]
  then show same: "wdb (started_worker st) = db'" "permits (started_worker st) = max_concurrent_jobs (started_config st)"
    by (simp_all add: worker_start_def)
  have "reachable (service_start st) (service_step (started_root st)) p"
    using run
  proof (induction rule: reachable.induct)
    case (reachable_start q)
    then show ?case using idle same by (intro reachable.reachable_start) (simp add: service_start_def)
  next
    case (reachable_step q r)
    then show ?case by (blast intro: reachable.reachable_step)
  qed
  then show "service_inv (started_runner st) p" by (rule service.reachable_inv)
qed

text \<open>
  C5: from a clean start to the exit, the table says what the process does: after a start that
  requeued the orphaned rows, under every interleaving of the worker's tasks, the API's
  connections and other programs that insert messages, at most \<open>max_concurrent_jobs\<close> jobs are in
  flight and, unless a store call has failed or a task has panicked, the pending rows are
  exactly the messages of the jobs in flight; and a process that has exited did so with status 0,
  with no job and no connection left.
\<close>
theorem table_reflects_the_runner:
  assumes up: "start_up host (db, fs) = (Inr st, db', fs')" and wf: "db_wf db"
    and requeue: "requeue_pending_on_start (started_config st)"
    and run: "reachable (\<lambda>q. q = service_new st) (service_step (started_root st)) p"
  shows "length (live (tasks (service_worker p))) \<le> max_concurrent_jobs (started_config st) \<and>
    (\<not> trouble (service_worker p) \<longrightarrow>
       (\<forall>i. is_pending (wdb (service_worker p)) i \<longleftrightarrow> MessageId i \<in> set (live_ids (service_worker p)))) \<and>
    (exit_code p = Some code \<longrightarrow>
       code = 0 \<and> tasks (service_worker p) = [] \<and> open_connections (service_http p) = 0)"
proof -
  note inv = started_service [OF up wf run]
  have runner: "runner_store.worker_inv db' (max_concurrent_jobs (started_config st)) (service_worker p)"
    using inv by (intro runner.reachable_inv [where root = "started_root st"]) (simp add: service_inv_def)
  have "\<not> pending_id db' i" for i
    using started_rows(2) [OF up requeue] by (simp add: pending_id_def)
  with runner have "is_pending (wdb (service_worker p)) i \<longleftrightarrow> MessageId i \<in> set (live_ids (service_worker p))"
    if "\<not> trouble (service_worker p)" for i
    using that unfolding runner_store.worker_inv_def pending_id_def by (metis message_id.sel)
  moreover have "length (live (tasks (service_worker p))) \<le> max_concurrent_jobs (started_config st)"
    using runner by (auto simp: runner_store.worker_inv_def)
  moreover have "code = 0 \<and> tasks (service_worker p) = [] \<and> open_connections (service_http p) = 0"
    if "exit_code p = Some code"
    using inv(1) runner that by (auto simp: service_inv_def server_inv_def runner_store.worker_inv_def)
  ultimately show ?thesis by blast
qed


section \<open>A signal ends the process\<close>

text \<open>
  What is left to happen once the token is cancelled: a \<open>select!\<close> over the token takes that
  branch, which ends the loop and cancels every job that runs; the claim in flight is answered,
  whatever the answer is, and its job still becomes a task; a task creates its workspace,
  removes it, records its outcome and is joined; and the loop returns when no task is left. No
  step waits for a job, for the poll interval or for a free slot.
\<close>

inductive winding :: "workspace_root \<Rightarrow> database worker_state \<Rightarrow> database worker_state \<Rightarrow> bool"
  for root :: workspace_root where
  wind_acquire: "phase s = Acquiring \<Longrightarrow> winding root s (s\<lparr>phase := Draining\<rparr>)"
| wind_sleep: "phase s = Sleeping \<Longrightarrow> winding root s (s\<lparr>phase := Draining\<rparr>)"
| wind_spawn: "phase s = Claiming \<Longrightarrow> store_claims (wdb s) (Inr (Some j)) db \<Longrightarrow>
    winding root s (s\<lparr>phase := Acquiring, wdb := db, tasks := tasks s @ [Spawned j]\<rparr>)"
| wind_no_job: "phase s = Claiming \<Longrightarrow> store_claims (wdb s) (Inr None) db \<Longrightarrow>
    winding root s (s\<lparr>phase := Sleeping, wdb := db, permits := Suc (permits s)\<rparr>)"
| wind_error: "phase s = Claiming \<Longrightarrow> store_claims (wdb s) (Inl e) db \<Longrightarrow>
    winding root s (s\<lparr>phase := Sleeping, wdb := db, permits := Suc (permits s), trouble := True\<rparr>)"
| wind_started: "k < length (tasks s) \<Longrightarrow> tasks s ! k = Spawned j \<Longrightarrow>
    create os clock root (job_id j) (wfs s) = (Inr w, fs) \<Longrightarrow>
    winding root s (s\<lparr>wfs := fs, tasks := (tasks s)[k := Running j w]\<rparr>)"
| wind_not_started: "k < length (tasks s) \<Longrightarrow> tasks s ! k = Spawned j \<Longrightarrow>
    create os clock root (job_id j) (wfs s) = (Inl e, fs) \<Longrightarrow>
    winding root s
      (s\<lparr>wfs := fs, tasks := (tasks s)[k := Recording j (failed (chain (workspace_error_texts e)))]\<rparr>)"
| wind_cancelled: "k < length (tasks s) \<Longrightarrow> tasks s ! k = Running j w \<Longrightarrow> remove os w (wfs s) = (x, fs) \<Longrightarrow>
    winding root s (s\<lparr>wfs := fs,
      tasks := (tasks s)[k := Recording j (failed ''runner shut down before the job finished'')]\<rparr>)"
| wind_recorded: "k < length (tasks s) \<Longrightarrow> tasks s ! k = Recording j out \<Longrightarrow>
    store_finishes (wdb s) (job_id j) out r db \<Longrightarrow>
    winding root s
      (s\<lparr>wdb := db, tasks := (tasks s)[k := Over], permits := Suc (permits s),
         trouble := (trouble s \<or> r \<noteq> Inr ())\<rparr>)"
| wind_joined: "phase s \<noteq> Stopped \<Longrightarrow> Over \<in> set (tasks s) \<Longrightarrow>
    winding root s (s\<lparr>tasks := remove1 Over (tasks s)\<rparr>)"
| wind_stop: "phase s = Draining \<Longrightarrow> tasks s = [] \<Longrightarrow> winding root s (s\<lparr>phase := Stopped\<rparr>)"

text \<open>
  The server stops accepting, its open connections close one by one, and the process leaves when
  both tasks have returned.
\<close>

inductive wind_down :: "workspace_root \<Rightarrow> service \<Rightarrow> service \<Rightarrow> bool" for root :: workspace_root where
  down_work: "winding root (service_worker p) w \<Longrightarrow> wind_down root p (p\<lparr>service_worker := w\<rparr>)"
| down_accept: "server_phase (service_http p) = Listening \<Longrightarrow>
    wind_down root p (p\<lparr>service_http := (service_http p)\<lparr>server_phase := Finishing\<rparr>\<rparr>)"
| down_close: "open_connections (service_http p) = Suc n \<Longrightarrow>
    wind_down root p (p\<lparr>service_http := (service_http p)\<lparr>open_connections := n\<rparr>\<rparr>)"
| down_drained: "server_phase (service_http p) = Finishing \<Longrightarrow> open_connections (service_http p) = 0 \<Longrightarrow>
    wind_down root p (p\<lparr>service_http := (service_http p)\<lparr>server_phase := Closed\<rparr>\<rparr>)"
| down_leave: "phase (service_worker p) = Stopped \<Longrightarrow> server_phase (service_http p) = Closed \<Longrightarrow>
    exit_code p \<noteq> Some 0 \<Longrightarrow> wind_down root p (p\<lparr>exit_code := Some 0\<rparr>)"

text \<open>With the token cancelled these are steps of the process.\<close>

lemma winding_steps: "winding root s t \<Longrightarrow> shutdown s \<Longrightarrow> runner_step root s t \<and> shutdown t"
proof (induction rule: winding.induct)
  case (wind_cancelled k s j w os x fs)
  then show ?case using worker_step.ended [of k s j w ShutDown os x fs] by simp
qed (auto intro: worker_step.intros)

lemma served_down:
  assumes "serve_step (shutdown (service_worker p)) (service_http p, wdb (service_worker p)) (v, wdb (service_worker p))"
  shows "service_step root p (p\<lparr>service_http := v\<rparr>)"
  using service_step.serve [OF assms, of root] by simp

lemma wind_down_steps:
  assumes "wind_down root p q" and "shutdown (service_worker p)"
  shows "service_step root p q \<and> shutdown (service_worker q)"
  using assms
proof (cases rule: wind_down.cases)
  case (down_work w)
  then show ?thesis using winding_steps [of root] assms(2) by (auto intro: service_step.work)
next
  case down_leave
  then show ?thesis using service_step.leave [of p root] assms(2) by simp
qed (use assms(2) in \<open>auto intro!: served_down serve_step.break_accept serve_step.closed serve_step.drained\<close>)

lemma wind_down_runs:
  assumes "(wind_down root)\<^sup>*\<^sup>* p q" and "shutdown (service_worker p)"
  shows "(service_step root)\<^sup>*\<^sup>* p q \<and> shutdown (service_worker q)"
  using assms
proof (induction rule: rtranclp_induct)
  case (step q r)
  then have "service_step root q r \<and> shutdown (service_worker r)" using wind_down_steps by simp
  then show ?case using step by (blast intro: rtranclp.rtrancl_into_rtrancl)
qed simp

text \<open>What is left to do: each step takes something off it.\<close>

fun task_weight :: "task \<Rightarrow> nat" where
  "task_weight Over = 1"
| "task_weight (Recording j out) = 2"
| "task_weight (Running j w) = 3"
| "task_weight (Spawned j) = 4"

fun phase_weight :: "phase \<Rightarrow> nat" where
  "phase_weight Stopped = 0"
| "phase_weight Draining = 1"
| "phase_weight Acquiring = 2"
| "phase_weight Sleeping = 2"
| "phase_weight Claiming = 7"

definition weight :: "database worker_state \<Rightarrow> nat" where
  "weight s = sum_list (map task_weight (tasks s)) + phase_weight (phase s)"

fun server_weight :: "server_phase \<Rightarrow> nat" where
  "server_weight Listening = 2"
| "server_weight Finishing = 1"
| "server_weight Closed = 0"

definition left_to_do :: "service \<Rightarrow> nat" where
  "left_to_do p = weight (service_worker p) + server_weight (server_phase (service_http p)) +
     open_connections (service_http p) + (if exit_code p = Some 0 then 0 else 1)"

lemma task_weight_update:
  assumes "k < length ts"
  shows "sum_list (map task_weight (ts[k := t])) + task_weight (ts ! k) =
    sum_list (map task_weight ts) + task_weight t"
  using assms
proof (induction ts arbitrary: k)
  case (Cons a ts)
  then show ?case by (cases k) (auto simp: add.commute add.left_commute)
qed simp

lemma task_weight_joined:
  "Over \<in> set ts \<Longrightarrow> sum_list (map task_weight (remove1 Over ts)) < sum_list (map task_weight ts)"
  by (induction ts) auto

lemma winding_lighter: "winding root s t \<Longrightarrow> weight t < weight s"
proof (induction rule: winding.induct)
  case (wind_started k s j os clock w fs)
  then show ?case using task_weight_update [of k "tasks s" "Running j w"] by (simp add: weight_def)
next
  case (wind_not_started k s j os clock e fs)
  then show ?case
    using task_weight_update [of k "tasks s" "Recording j (failed (chain (workspace_error_texts e)))"]
    by (simp add: weight_def)
next
  case (wind_cancelled k s j w os x fs)
  then show ?case
    using task_weight_update [of k "tasks s" "Recording j (failed ''runner shut down before the job finished'')"]
    by (simp add: weight_def)
next
  case (wind_recorded k s j out r db)
  then show ?case using task_weight_update [of k "tasks s" Over] by (simp add: weight_def)
next
  case (wind_joined s)
  then show ?case using task_weight_joined [of "tasks s"] by (simp add: weight_def)
qed (simp_all add: weight_def)

lemma wind_down_lighter: "wind_down root p q \<Longrightarrow> left_to_do q < left_to_do p"
  by (induction rule: wind_down.induct) (auto simp: left_to_do_def dest: winding_lighter)

lemma wind_down_run_bound:
  "\<forall>n. wind_down root (run n) (run (Suc n)) \<Longrightarrow> left_to_do (run n) + n \<le> left_to_do (run 0)"
proof (induction n)
  case (Suc n)
  then have "left_to_do (run (Suc n)) < left_to_do (run n)" by (blast intro: wind_down_lighter)
  then show ?case using Suc by simp
qed simp

text \<open>While something is left to do, there is a step.\<close>

lemma task_winds: "phase s \<noteq> Stopped \<Longrightarrow> tasks s \<noteq> [] \<Longrightarrow> \<exists>t. winding root s t"
proof (cases "tasks s")
  case (Cons a ts)
  assume running: "phase s \<noteq> Stopped"
  have head: "0 < length (tasks s)" "tasks s ! 0 = a" by (simp_all add: Cons)
  show ?thesis
  proof (cases a)
    case (Spawned j)
    obtain x fs where "create sample_os None root (job_id j) (wfs s) = (x, fs)"
      by (cases "create sample_os None root (job_id j) (wfs s)")
    then show ?thesis
      using wind_started [OF head(1)] wind_not_started [OF head(1)] head(2) Spawned by (cases x) blast+
  next
    case (Running j w)
    obtain x fs where "remove sample_os w (wfs s) = (x, fs)" by (cases "remove sample_os w (wfs s)")
    then show ?thesis using wind_cancelled [OF head(1)] head(2) Running by blast
  next
    case (Recording j out)
    obtain r db where "store_finishes (wdb s) (job_id j) out r db"
      by (cases "finish (job_id j) out (wdb s)") (auto simp: store_finishes_def)
    then show ?thesis using wind_recorded [OF head(1)] head(2) Recording by blast
  next
    case Over
    then show ?thesis using wind_joined [OF running] Cons by fastforce
  qed
qed simp

lemma claim_winds: "phase s = Claiming \<Longrightarrow> \<exists>t. winding root s t"
proof -
  assume p: "phase s = Claiming"
  obtain r db where "claim_next no_rivals (wdb s) = (r, db)" by (cases "claim_next no_rivals (wdb s)")
  then have claims: "store_claims (wdb s) r db" using no_rivals_inserts by (auto simp: store_claims_def)
  show ?thesis
  proof (cases r)
    case (Inr found)
    then show ?thesis using wind_spawn [OF p] wind_no_job [OF p] claims by (cases found) blast+
  qed (use wind_error [OF p] claims in blast)
qed

lemma worker_winds: "phase s \<noteq> Stopped \<Longrightarrow> \<exists>t. winding root s t"
proof (cases "phase s")
  case Draining
  then show ?thesis using task_winds [of s root] wind_stop [of s root] by (cases "tasks s = []") auto
qed (auto intro: claim_winds wind_acquire wind_sleep)

lemma wind_down_progress:
  assumes "exit_code p \<noteq> Some 0"
  shows "\<exists>q. wind_down root p q"
proof (cases "phase (service_worker p) = Stopped")
  case True
  show ?thesis
  proof (cases "server_phase (service_http p)")
    case Finishing
    then show ?thesis using down_close [of p _ root] down_drained [of p root]
      by (cases "open_connections (service_http p)") blast+
  qed (use True assms down_accept down_leave in blast)+
qed (use worker_winds down_work in blast)

lemma process_ends:
  assumes "shutdown (service_worker p)"
  shows "\<exists>q. (service_step root)\<^sup>*\<^sup>* p q \<and> exit_code q = Some 0"
  using assms
proof (induction "left_to_do p" arbitrary: p rule: less_induct)
  case less
  show ?case
  proof (cases "exit_code p = Some 0")
    case False
    then obtain q where q: "wind_down root p q" using wind_down_progress by blast
    note step = wind_down_steps [OF q less.prems]
    obtain r where "(service_step root)\<^sup>*\<^sup>* q r" "exit_code r = Some 0"
      using less.hyps [OF wind_down_lighter [OF q]] step by blast
    then show ?thesis using step by (blast intro: converse_rtranclp_into_rtranclp)
  qed blast
qed

text \<open>
  C10: a signal ends the process. Once the token is cancelled, whatever the loop, the jobs in
  flight and the open connections are doing, the process finishes what is left without waiting
  for any job, for the poll interval or for a free slot: the steps of \<open>wind_down\<close> are steps
  of the process, they cannot go on for ever, and wherever they have led the next one is possible
  until the process has exited with status 0. The claim in flight and the open connections are
  taken to come to an end, and a \<open>select!\<close> that sees the cancelled token to take that branch.
\<close>
theorem signal_ends_the_process:
  assumes "shutdown (service_worker p)"
  shows "\<not> (\<exists>run. run 0 = p \<and> (\<forall>n. wind_down root (run n) (run (Suc n)))) \<and>
    (\<forall>q. (wind_down root)\<^sup>*\<^sup>* p q \<longrightarrow>
       (service_step root)\<^sup>*\<^sup>* p q \<and> (exit_code q = Some 0 \<or> (\<exists>r. wind_down root q r)))"
proof -
  have False if "\<forall>n. wind_down root (run n) (run (Suc n))" for run
    using wind_down_run_bound [of root run "Suc (left_to_do (run 0))"] that by simp
  then show ?thesis using wind_down_runs [OF _ assms] wind_down_progress by blast
qed

text \<open>A job that never answers, a connection that is open, a claim in flight, and the signal.\<close>

definition busy_service :: service where
  "busy_service =
     \<lparr>service_worker = \<lparr>wdb = sample_db None [], wfs = [(''root'', Directory), (''root/job-1'', Directory)],
        permits = 0, phase = Claiming,
        tasks = [Running sample_job (Workspace ''root/job-1''), Over],
        shutdown = True, trouble = False\<rparr>,
      service_http = \<lparr>server_phase = Listening, open_connections = 1\<rparr>, exit_code = None\<rparr>"

theorem signal_ends_the_process_witness:
  "shutdown (service_worker busy_service) \<and>
   \<not> (\<exists>run. run 0 = busy_service \<and>
      (\<forall>n. wind_down (WorkspaceRoot ''root'') (run n) (run (Suc n)))) \<and>
   (\<exists>r. wind_down (WorkspaceRoot ''root'') busy_service r)"
proof -
  have down: "shutdown (service_worker busy_service)" and here: "exit_code busy_service \<noteq> Some 0"
    by (simp_all add: busy_service_def)
  note ends = signal_ends_the_process [OF down, of "WorkspaceRoot ''root''"]
  have "\<exists>r. wind_down (WorkspaceRoot ''root'') busy_service r"
    using ends [THEN conjunct2, rule_format, of busy_service] here by blast
  with down ends show ?thesis by blast
qed

lemma runs_reachable: "step\<^sup>*\<^sup>* s t \<Longrightarrow> reachable start step s \<Longrightarrow> reachable start step t"
  by (induction rule: rtranclp_induct) (auto intro: reachable_step)

theorem table_reflects_the_runner_witness:
  "\<exists>st db' fs' p. start_up (quiet_host plain_vars) (sample_db (Some ''pending'') [], left_over) = (Inr st, db', fs') \<and>
     reachable (\<lambda>q. q = service_new st) (service_step (started_root st)) p \<and> exit_code p = Some 0 \<and>
     tasks (service_worker p) = [] \<and> open_connections (service_http p) = 0"
proof -
  obtain st db' fs' where up:
    "start_up (quiet_host plain_vars) (sample_db (Some ''pending'') [], left_over) = (Inr st, db', fs')"
    and re: "requeue_pending_on_start (started_config st)" by (rule plain_start)
  let ?new = "service_new st"
  let ?sig = "?new\<lparr>service_worker := (service_worker ?new)\<lparr>shutdown := True\<rparr>\<rparr>"
  obtain p where p: "(service_step (started_root st))\<^sup>*\<^sup>* ?sig p" "exit_code p = Some 0"
    using process_ends [of ?sig "started_root st"] by auto
  have "reachable (\<lambda>q. q = ?new) (service_step (started_root st)) ?new"
    by (rule reachable_start) simp
  then have "reachable (\<lambda>q. q = ?new) (service_step (started_root st)) ?sig"
    by (rule reachable_step) (rule service_step.got_signal)
  then have run: "reachable (\<lambda>q. q = ?new) (service_step (started_root st)) p"
    by (rule runs_reachable [OF p(1)])
  from table_reflects_the_runner [OF up sample_db_wf re run, of 0] up run p(2) show ?thesis by blast
qed

end
