(* ===== verification/QboReport.thy ===== *)
theory QboReport
  imports QboValues
begin

text \<open>
  \<open>crates/jobctl/src/qbo.rs\<close>, the computations on QuickBooks reports: the rows of a report
  flattened, zero rows omitted, the rows and classes of a sales rep, and the customers
  behind a rep's sales with their invoices.
\<close>

section \<open>Rows\<close>

datatype row_kind = Section | Data | SectionTotal | GrandTotal

fun row_kind_text :: "row_kind \<Rightarrow> string" where
  "row_kind_text Section = ''section''"
| "row_kind_text Data = ''data''"
| "row_kind_text SectionTotal = ''section_total''"
| "row_kind_text GrandTotal = ''grand_total''"

record row =
  row_name :: string
  row_amount :: "f64 option"
  row_depth :: nat
  row_kind :: row_kind
  row_entity :: "string option"

definition row_json :: "row \<Rightarrow> json" where
  "row_json r =
     json_object
       ([(''name'', JString (row_name r)), (''amount'', json_opt json_f64 (row_amount r)),
         (''depth'', json_int (int (row_depth r))), (''kind'', JString (row_kind_text (row_kind r)))] @
        (case row_entity r of None \<Rightarrow> [] | Some i \<Rightarrow> [(''entityId'', JString i)]))"

definition is_zero_row :: "row \<Rightarrow> bool" where
  "is_zero_row r \<longleftrightarrow> (case row_amount r of None \<Rightarrow> True | Some x \<Rightarrow> f64_is_zero x)"

definition is_not_specified :: "row \<Rightarrow> bool" where
  "is_not_specified r \<longleftrightarrow>
     row_kind r = Data \<and> eq_ignore_ascii_case (trim (row_name r)) ''not specified''"

record report =
  report_rows :: "row list"
  report_total :: "f64 option"
  start_period :: "string option"
  end_period :: "string option"
  report_currency :: "string option"

section \<open>Reading a report\<close>

fun json_list :: "json \<Rightarrow> json list" where
  "json_list (JArray items) = items"
| "json_list JNull = []"
| "json_list other = [other]"

definition named_amount :: "platform \<Rightarrow> json \<Rightarrow> (string \<times> f64 option \<times> string option) option" where
  "named_amount pf holder =
     (case json_list (json_index holder ''ColData'') of
        [] \<Rightarrow> None
      | first # cols \<Rightarrow>
          (case qbo_text pf (json_index first ''value'') of
             None \<Rightarrow> None
           | Some name \<Rightarrow>
               Some (trim name,
                     (case cols of [] \<Rightarrow> None | col # _ \<Rightarrow> qbo_number pf (json_index col ''value'')),
                     qbo_text pf (json_index first ''id''))))"

definition report_row :: "platform \<Rightarrow> json \<Rightarrow> nat \<Rightarrow> row_kind \<Rightarrow> row list" where
  "report_row pf holder depth kind =
     (case named_amount pf holder of
        None \<Rightarrow> []
      | Some (name, amount, entity) \<Rightarrow>
          [\<lparr>row_name = name, row_amount = amount, row_depth = depth, row_kind = kind,
            row_entity = (if kind = Data then entity else None)\<rparr>])"

lemma json_get_size: "json_get v k = Some x \<Longrightarrow> size x < size v"
proof (cases v)
  case (JObject kvs)
  assume "json_get v k = Some x"
  then have "(k, x) \<in> set kvs" using JObject by (simp add: map_of_SomeD)
  then have "size x < size_list (size_prod (\<lambda>_. 0) size) kvs + 1"
    by (induction kvs) auto
  then show ?thesis using JObject by (simp add: size_list_estimation)
qed simp_all

lemma json_list_size: "r \<in> set (json_list v) \<Longrightarrow> size r \<le> size v"
proof (cases v)
  case (JArray items)
  assume "r \<in> set (json_list v)"
  then have "size r \<le> size_list size items" using JArray by (simp add: size_list_estimation')
  then show ?thesis using JArray by simp
qed auto

lemma nested_rows_size:
  assumes "r \<in> set (json_list v)" and "json_get (json_index r ''Rows'') ''Row'' = Some x"
  shows "size x < size v"
proof -
  obtain rows where rows: "json_get r ''Rows'' = Some rows" "json_get rows ''Row'' = Some x"
    using assms(2) by (cases "json_get r ''Rows''") (auto simp: json_index_def)
  have "size x < size rows" "size rows < size r" using rows by (auto intro: json_get_size)
  then show ?thesis using json_list_size [OF assms(1)] by simp
qed

text \<open>The rows of one element of a \<open>Row\<close> list; \<open>nested\<close> are those below it.\<close>

definition own_rows :: "platform \<Rightarrow> nat \<Rightarrow> json \<Rightarrow> row list option \<Rightarrow> row list" where
  "own_rows pf depth r nested =
     (if \<not> is_object r then []
      else if as_str (json_index r ''group'') = Some ''GrandTotal''
      then report_row pf (json_index r ''Summary'') depth GrandTotal
      else
        (if json_get r ''Header'' \<noteq> None then report_row pf (json_index r ''Header'') depth Section else []) @
        (case nested of
           Some rows \<Rightarrow> rows
         | None \<Rightarrow> if json_get r ''ColData'' \<noteq> None then report_row pf r depth Data else []) @
        (if json_get r ''Summary'' \<noteq> None
         then report_row pf (json_index r ''Summary'') depth SectionTotal else []))"

function parse_rows :: "platform \<Rightarrow> json \<Rightarrow> nat \<Rightarrow> row list" where
  "parse_rows pf v depth =
     concat (map (\<lambda>r.
       own_rows pf depth r
         (case json_get (json_index r ''Rows'') ''Row'' of
            None \<Rightarrow> None
          | Some inner \<Rightarrow>
              Some (parse_rows pf inner (if json_get r ''Header'' \<noteq> None then Suc depth else depth))))
       (json_list v))"
  by pat_completeness auto
termination by (relation "measure (\<lambda>(pf, v, depth). size v)") (auto intro: nested_rows_size)

declare parse_rows.simps [simp del]

definition parse_report :: "platform \<Rightarrow> json \<Rightarrow> report" where
  "parse_report pf payload =
     (let header = json_index payload ''Header'';
          rows = parse_rows pf (json_index (json_index payload ''Rows'') ''Row'') 0
      in \<lparr>report_rows = rows,
          report_total = Option.bind (find (\<lambda>r. row_kind r = GrandTotal) (rev rows)) row_amount,
          start_period = qbo_text pf (json_index header ''StartPeriod''),
          end_period = qbo_text pf (json_index header ''EndPeriod''),
          report_currency = qbo_text pf (json_index header ''Currency'')\<rparr>)"

section \<open>Omitting zero rows\<close>

text \<open>The inner loop: what a section keeps, and the rows after it.\<close>

fun take_section :: "row list \<Rightarrow> row list \<times> row list" where
  "take_section [] = ([], [])"
| "take_section (r # rs) =
     (if row_kind r = Section \<or> row_kind r = GrandTotal \<or> is_not_specified r then ([], r # rs)
      else
        (let kept = (if row_kind r = Section \<or> \<not> is_zero_row r then [r] else []) in
         if row_kind r = SectionTotal then (kept, rs)
         else (case take_section rs of (chunk, rest) \<Rightarrow> (kept @ chunk, rest))))"

lemma take_section_length: "length (snd (take_section rs)) \<le> length rs"
  by (induction rs) (auto simp: Let_def split: prod.split)

record omit_state =
  omit_result :: "row list"
  omit_not_specified :: "row option"
  omit_grand_total :: "row option"

function omit_loop :: "row list \<Rightarrow> omit_state \<Rightarrow> omit_state" where
  "omit_loop [] st = st"
| "omit_loop (r # rs) st =
     (if row_kind r = GrandTotal then omit_loop rs (st\<lparr>omit_grand_total := Some r\<rparr>)
      else if is_not_specified r then omit_loop rs (st\<lparr>omit_not_specified := Some r\<rparr>)
      else if row_kind r = Section
      then (let chunk = r # fst (take_section rs) in
            omit_loop (snd (take_section rs))
              (if list_ex (\<lambda>r. row_kind r = Data) chunk
               then st\<lparr>omit_result := omit_result st @ chunk\<rparr> else st))
      else if row_kind r = Data \<and> \<not> is_zero_row r
      then omit_loop rs (st\<lparr>omit_result := omit_result st @ [r]\<rparr>)
      else omit_loop rs st)"
  by pat_completeness auto
termination
  by (relation "measure (\<lambda>(rs, st). length rs)") (auto simp: le_imp_less_Suc take_section_length)

definition omit_zero_rows :: "row list \<Rightarrow> row list" where
  "omit_zero_rows rows =
     (let st = omit_loop rows \<lparr>omit_result = [], omit_not_specified = None, omit_grand_total = None\<rparr> in
      omit_result st @
      (case omit_not_specified st of None \<Rightarrow> [] | Some r \<Rightarrow> if is_zero_row r then [] else [r]) @
      (case omit_grand_total st of None \<Rightarrow> [] | Some r \<Rightarrow> [r]))"

section \<open>Sales representatives\<close>

text \<open>\<open>split_whitespace().next()\<close> of a trimmed text.\<close>

fun first_word :: "string \<Rightarrow> string" where
  "first_word [] = []"
| "first_word (c # s) = (if trim_start (c # s) = c # s then c # first_word s else [])"

definition matches_rep :: "platform \<Rightarrow> string \<Rightarrow> string \<Rightarrow> bool" where
  "matches_rep pf r rep =
     (let r' = name_key pf r; rep' = name_key pf rep; first = first_word (trim rep') in
      r' \<noteq> [] \<and> rep' \<noteq> [] \<and>
      (r' = rep' \<or> prefix (rep' @ ''/'') r' \<or>
       (3 \<le> char_count first \<and> (r' = first \<or> prefix (first @ ''/'') r'))))"

definition sum_for_rep :: "platform \<Rightarrow> row list \<Rightarrow> string \<Rightarrow> f64" where
  "sum_for_rep pf rows rep =
     f64_total pf (List.map_filter row_amount
       (filter (\<lambda>r. row_kind r = Data \<and> matches_rep pf (row_name r) rep) rows))"

section \<open>What is kept\<close>

text \<open>
  Which rows of a report are to stay, each judged by itself, with the rows before it (nearest
  first) and after it. A data row stays if it has an amount; \<open>not specified\<close> rows stand apart.
  A header stays if one of the data rows right after it does. A section's total stays if it has
  an amount and ends such a section.
\<close>

definition is_kept :: "row \<Rightarrow> bool" where
  "is_kept r \<longleftrightarrow> row_kind r = Data \<and> \<not> is_zero_row r \<and> \<not> is_not_specified r"

definition is_plain :: "row \<Rightarrow> bool" where
  "is_plain r \<longleftrightarrow> row_kind r = Data \<and> \<not> is_not_specified r"

fun starts_section :: "row list \<Rightarrow> bool" where
  "starts_section [] = False"
| "starts_section (h # hs) = (row_kind h = Section)"

definition stays :: "row list \<Rightarrow> row \<Rightarrow> row list \<Rightarrow> bool" where
  "stays before r after =
     (case row_kind r of
        Data \<Rightarrow> is_kept r
      | Section \<Rightarrow> list_ex is_kept (takeWhile is_plain after)
      | SectionTotal \<Rightarrow> \<not> is_zero_row r \<and> list_ex is_kept (takeWhile is_plain before) \<and>
          starts_section (dropWhile is_plain before)
      | GrandTotal \<Rightarrow> False)"

fun rows_that_stay :: "row list \<Rightarrow> row list \<Rightarrow> row list" where
  "rows_that_stay before [] = []"
| "rows_that_stay before (r # rs) = (if stays before r rs then [r] else []) @ rows_that_stay (r # before) rs"

text \<open>The inner loop takes the data rows of a section and its total.\<close>

lemma take_section_parts:
  "take_section rs =
     (case dropWhile is_plain rs of
        [] \<Rightarrow> (filter is_kept (takeWhile is_plain rs), [])
      | t # rest \<Rightarrow>
          if row_kind t = SectionTotal
          then (filter is_kept (takeWhile is_plain rs) @ (if is_zero_row t then [] else [t]), rest)
          else (filter is_kept (takeWhile is_plain rs), t # rest))"
proof (induction rs)
  case (Cons r rs)
  show ?case
  proof (cases "is_plain r")
    case True
    then have "row_kind r = Data" "\<not> is_not_specified r" "is_kept r \<longleftrightarrow> \<not> is_zero_row r"
      by (simp_all add: is_plain_def is_kept_def)
    then show ?thesis using Cons True by (cases "dropWhile is_plain rs") (simp_all add: Let_def del: dropWhile_eq_Nil_conv)
  next
    case False
    moreover have "is_not_specified r \<Longrightarrow> row_kind r = Data" by (simp add: is_not_specified_def)
    ultimately show ?thesis by (cases "row_kind r") (auto simp: is_plain_def)
  qed
qed simp

lemma plain_rows_stay:
  "list_all is_plain ds \<Longrightarrow>
   rows_that_stay before (ds @ rest) = filter is_kept ds @ rows_that_stay (rev ds @ before) rest"
proof (induction ds arbitrary: before)
  case (Cons d ds)
  then have "stays before d (ds @ rest) \<longleftrightarrow> is_kept d" by (simp add: stays_def is_plain_def)
  then show ?case using Cons by simp
qed simp

text \<open>The outer loop is never in the middle of a section.\<close>

definition outside :: "row list \<Rightarrow> row list \<Rightarrow> bool" where
  "outside before rs \<longleftrightarrow>
     starts_section (dropWhile is_plain before) \<longrightarrow>
     (case rs of [] \<Rightarrow> True | r # _ \<Rightarrow> \<not> is_plain r \<and> row_kind r \<noteq> SectionTotal)"

lemma omit_loop_stays:
  "outside before rs \<Longrightarrow> omit_result (omit_loop rs st) = omit_result st @ rows_that_stay before rs"
proof (induction rs st arbitrary: before rule: omit_loop.induct)
  case (2 r rs st)
  consider (grand) "row_kind r = GrandTotal" | (apart) "is_not_specified r" "row_kind r = Data"
    | (head) "row_kind r = Section" "\<not> is_not_specified r" | (plain) "is_plain r" "row_kind r = Data" "\<not> is_not_specified r"
    | (total) "row_kind r = SectionTotal" "\<not> is_not_specified r"
    by (cases "row_kind r") (auto simp: is_plain_def is_not_specified_def)
  then show ?case
  proof cases
    case grand
    then have "outside (r # before) rs" by (simp add: outside_def is_plain_def)
    then show ?thesis using 2(1) [OF grand] grand by (simp add: stays_def)
  next
    case apart
    then have "outside (r # before) rs" by (simp add: outside_def is_plain_def)
    then show ?thesis using 2(2) apart by (simp add: stays_def is_kept_def)
  next
    case plain
    then have out: "\<not> starts_section (dropWhile is_plain before)" using 2(6) by (auto simp: outside_def)
    then have "outside (r # before) rs" using plain by (simp add: outside_def)
    then show ?thesis using 2(4,5) plain by (simp add: stays_def is_kept_def)
  next
    case total
    then have out: "\<not> starts_section (dropWhile is_plain before)" using 2(6) by (auto simp: outside_def)
    have "outside (r # before) rs" using total by (simp add: outside_def is_plain_def)
    then show ?thesis using 2(5) total out by (simp add: stays_def)
  next
    case head
    define ds where "ds = takeWhile is_plain rs"
    have plain: "list_all is_plain ds" by (auto simp: ds_def list_all_iff dest: set_takeWhileD)
    have kept: "list_ex (\<lambda>r. row_kind r = Data) (r # filter is_kept ds @ xs) \<longleftrightarrow> list_ex is_kept ds"
      if "\<forall>x \<in> set xs. row_kind x \<noteq> Data" for xs
      using that head(1) by (auto simp: list_ex_iff is_kept_def)
    have header: "stays before r rs \<longleftrightarrow> list_ex is_kept ds" by (simp add: stays_def head(1) ds_def)
    have rows: "rows_that_stay before (r # rs) =
        (if list_ex is_kept ds then [r] else []) @ filter is_kept ds @
        rows_that_stay (rev ds @ r # before) (dropWhile is_plain rs)"
      using plain_rows_stay [OF plain, of "r # before" "dropWhile is_plain rs"] header
      by (simp add: ds_def)
    have none: "\<not> list_ex is_kept ds \<Longrightarrow> filter is_kept ds = []" by (auto simp: filter_empty_conv list_ex_iff)
    have run: "omit_loop (r # rs) st = omit_loop (snd (take_section rs))
        (if list_ex (\<lambda>r. row_kind r = Data) (r # fst (take_section rs))
         then st\<lparr>omit_result := omit_result st @ r # fst (take_section rs)\<rparr> else st)"
      using head by simp
    have ih: "outside b (snd (take_section rs)) \<Longrightarrow> omit_result (omit_loop (r # rs) st) =
        omit_result (if list_ex (\<lambda>r. row_kind r = Data) (r # fst (take_section rs))
           then st\<lparr>omit_result := omit_result st @ r # fst (take_section rs)\<rparr> else st) @
        rows_that_stay b (snd (take_section rs))" for b
      using 2(3) [OF _ head(2,1) refl, of b] head(1) unfolding run by simp
    show ?thesis
    proof (cases "dropWhile is_plain rs")
      case Nil
      then have sec: "take_section rs = (filter is_kept ds, [])"
        by (simp add: take_section_parts ds_def del: dropWhile_eq_Nil_conv)
      show ?thesis using ih [of "[]"] kept [of "[]"] none rows Nil by (simp add: sec outside_def del: dropWhile_eq_Nil_conv)
    next
      case (Cons t rest)
      then have t: "\<not> is_plain t" by (metis hd_dropWhile list.distinct(1) list.sel(1))
      show ?thesis
      proof (cases "row_kind t = SectionTotal")
        case True
        let ?total = "if is_zero_row t then [] else [t]"
        have sec: "take_section rs = (filter is_kept ds @ ?total, rest)"
          using Cons True by (simp add: take_section_parts ds_def)
        have "takeWhile is_plain (rev ds @ r # before) = rev ds" "dropWhile is_plain (rev ds @ r # before) = r # before"
          using plain head(1) by (auto simp: list_all_iff takeWhile_append dropWhile_append is_plain_def)
        then have "stays (rev ds @ r # before) t rest \<longleftrightarrow> \<not> is_zero_row t \<and> list_ex is_kept ds"
          using head(1) by (auto simp: stays_def True list_ex_iff)
        moreover have "outside (t # rev ds @ r # before) rest" using t True by (simp add: outside_def)
        ultimately show ?thesis
          using ih [of "t # rev ds @ r # before"] kept [of ?total] none rows Cons True by (simp add: sec)
      next
        case False
        then have sec: "take_section rs = (filter is_kept ds, t # rest)"
          using Cons by (simp add: take_section_parts ds_def)
        have "outside (rev ds @ r # before) (t # rest)" using t False by (simp add: outside_def)
        then show ?thesis
          using ih [of "rev ds @ r # before"] kept [of "[]"] none rows Cons by (simp add: sec)
      qed
    qed
  qed
qed simp

lemma take_section_others:
  assumes "\<And>r. P r \<Longrightarrow> row_kind r = GrandTotal \<or> is_not_specified r"
  shows "filter P (snd (take_section rs)) = filter P rs"
proof (induction rs)
  case (Cons r rs)
  then show ?case using assms [of r] by (auto simp: Let_def split: prod.split)
qed simp

definition last_row :: "(row \<Rightarrow> bool) \<Rightarrow> row option \<Rightarrow> row list \<Rightarrow> row option" where
  "last_row P before rs = (case filter P rs of [] \<Rightarrow> before | hits \<Rightarrow> Some (last hits))"

lemma omit_loop_last:
  "omit_grand_total (omit_loop rs st) = last_row (\<lambda>r. row_kind r = GrandTotal) (omit_grand_total st) rs \<and>
   omit_not_specified (omit_loop rs st) = last_row is_not_specified (omit_not_specified st) rs"
proof (induction rs st rule: omit_loop.induct)
  case (2 r rs st)
  have "is_not_specified r \<Longrightarrow> row_kind r = Data" by (simp add: is_not_specified_def)
  then show ?case
    using 2 take_section_others [of "\<lambda>r. row_kind r = GrandTotal" rs] take_section_others [of is_not_specified rs]
    by (auto simp: last_row_def Let_def split: list.splits)
qed (simp add: last_row_def)

lemma kept_rows_stay: "filter is_kept (rows_that_stay before rs) = filter is_kept rs"
  by (induction before rs rule: rows_that_stay.induct) (auto simp: stays_def is_kept_def split: row_kind.split)

section \<open>Properties\<close>

text \<open>
  C39: what omitting zero rows leaves of a report. Every row is judged by itself, in order: the
  data rows with an amount stay, a header stays with one of them right after it, a section's
  total with an amount stays at the end of such a section. Of the \<open>not specified\<close> rows only the
  last one can follow, if it has an amount, so an earlier one is lost with its amount; and the
  last grand total comes at the end, whatever its amount.
\<close>
theorem zero_rows_are_omitted:
  "omit_zero_rows rows =
     rows_that_stay [] rows @
     (case filter is_not_specified rows of [] \<Rightarrow> [] | hits \<Rightarrow> if is_zero_row (last hits) then [] else [last hits]) @
     (case filter (\<lambda>r. row_kind r = GrandTotal) rows of [] \<Rightarrow> [] | hits \<Rightarrow> [last hits]) \<and>
   filter is_kept (rows_that_stay [] rows) = filter is_kept rows"
proof -
  let ?st = "omit_loop rows \<lparr>omit_result = [], omit_not_specified = None, omit_grand_total = None\<rparr>"
  have "omit_result ?st = rows_that_stay [] rows" by (simp add: omit_loop_stays [of "[]"] outside_def)
  then show ?thesis
    by (simp add: omit_zero_rows_def Let_def omit_loop_last last_row_def kept_rows_stay split: list.split)
qed

text \<open>
  A section of zero rows, one with an amount, a total outside any section, and two rows that are
  not specified.
\<close>

definition sample_line :: "string \<Rightarrow> f64 \<Rightarrow> row_kind \<Rightarrow> row" where
  "sample_line name amount kind =
     \<lparr>row_name = name, row_amount = Some amount, row_depth = 0, row_kind = kind, row_entity = None\<rparr>"

definition five :: f64 where "five = 0x4014000000000000"

theorem zero_rows_are_omitted_witness:
  "omit_zero_rows
     [sample_line ''East'' 0 Section, sample_line ''Ann'' 0 Data, sample_line ''Total East'' 0 SectionTotal,
      sample_line ''West'' 0 Section, sample_line ''Ben'' five Data, sample_line ''Cid'' 0 Data,
      sample_line ''Total West'' five SectionTotal, sample_line ''Total'' five SectionTotal,
      sample_line ''Not Specified'' five Data, sample_line ''not specified'' five Data,
      sample_line ''TOTAL'' five GrandTotal] =
   [sample_line ''West'' 0 Section, sample_line ''Ben'' five Data, sample_line ''Total West'' five SectionTotal,
    sample_line ''not specified'' five Data, sample_line ''TOTAL'' five GrandTotal]"
proof -
  have zero: "f64_is_zero 0" "\<not> f64_is_zero five"
    by (simp_all add: f64_is_zero_def f64_magnitude_def five_def)
  have lower: "ascii_lower (CHR ''N'') = CHR ''n''" "ascii_lower (CHR ''S'') = CHR ''s''"
    "ascii_lower (CHR ''n'') = CHR ''n''" "ascii_lower (CHR ''s'') = CHR ''s''" "ascii_lower (CHR ''o'') = CHR ''o''"
    "ascii_lower (CHR ''t'') = CHR ''t''" "ascii_lower (CHR '' '') = CHR '' ''" "ascii_lower (CHR ''p'') = CHR ''p''"
    "ascii_lower (CHR ''e'') = CHR ''e''" "ascii_lower (CHR ''c'') = CHR ''c''" "ascii_lower (CHR ''i'') = CHR ''i''"
    "ascii_lower (CHR ''f'') = CHR ''f''" "ascii_lower (CHR ''d'') = CHR ''d''"
    by (simp_all add: ascii_lower_def is_ascii_upper_def byte_def char_of_def bit_numeral_rec bit_0)
  have trims: "trim ''Ann'' = ''Ann''" "trim ''Ben'' = ''Ben''" "trim ''Cid'' = ''Cid''"
    "trim ''Not Specified'' = ''Not Specified''" "trim ''not specified'' = ''not specified''"
    by (simp_all add: trim_graph is_graph_def byte_def)
  show ?thesis
    by (subst zero_rows_are_omitted [THEN conjunct1])
      (simp add: sample_line_def stays_def is_kept_def is_plain_def is_zero_row_def is_not_specified_def zero trims
        eq_ignore_ascii_case_def lower)
qed

end
