(* ===== verification/QboSales.thy ===== *)
theory QboSales
  imports QboReport
begin

text \<open>
  \<open>crates/jobctl/src/qbo.rs\<close>: the classes of a sales rep with their descendants, the
  customers behind the rep's sales, and the orders they are listed in.
\<close>

section \<open>Classes\<close>

record qbo_class =
  class_id :: string
  class_name :: string
  class_full_name :: string
  class_parent :: "string option"

definition class_parse :: "platform \<Rightarrow> json \<Rightarrow> qbo_class option" where
  "class_parse pf v =
     (case qbo_text pf (json_index v ''Id'') of
        None \<Rightarrow> None
      | Some i \<Rightarrow>
          (case qbo_text pf (json_index v ''Name'') of
             None \<Rightarrow> None
           | Some name \<Rightarrow>
               Some \<lparr>class_id = i, class_name = name,
                 class_full_name =
                   (case qbo_text pf (json_index v ''FullyQualifiedName'') of None \<Rightarrow> name | Some n \<Rightarrow> n),
                 class_parent = qbo_text pf (json_index (json_index v ''ParentRef'') ''value'')\<rparr>))"

text \<open>What is before the last separator, if there is one.\<close>

definition before_last :: "char \<Rightarrow> string \<Rightarrow> string option" where
  "before_last d s = map_option (\<lambda>(after, before). rev before) (split_once d (rev s))"

definition class_names :: "platform \<Rightarrow> qbo_class list \<Rightarrow> (string \<times> string) list" where
  "class_names pf classes = map_collect (map (\<lambda>c. (name_key pf (class_full_name c), class_id c)) classes)"

definition infer_parent :: "platform \<Rightarrow> (string \<times> string) list \<Rightarrow> qbo_class \<Rightarrow> qbo_class" where
  "infer_parent pf by_name c =
     (case (class_parent c, before_last CHR '':'' (class_full_name c)) of
        (None, Some parent) \<Rightarrow>
          if parent = [] then c
          else (case map_of by_name (name_key pf parent) of
                  Some i \<Rightarrow> if i \<noteq> class_id c then c\<lparr>class_parent := Some i\<rparr> else c
                | None \<Rightarrow> c)
      | _ \<Rightarrow> c)"

definition resolve_parents :: "platform \<Rightarrow> qbo_class list \<Rightarrow> qbo_class list" where
  "resolve_parents pf classes = map (infer_parent pf (class_names pf classes)) classes"

definition class_matches :: "platform \<Rightarrow> string \<Rightarrow> qbo_class \<Rightarrow> bool" where
  "class_matches pf rep c \<longleftrightarrow>
     matches_rep pf (class_name c) rep \<or> matches_rep pf (class_full_name c) rep \<or>
     matches_rep pf (last (split_on CHR '':'' (class_full_name c))) rep"

definition children_of :: "qbo_class list \<Rightarrow> string list \<Rightarrow> string list" where
  "children_of classes matched =
     map class_id
       (filter (\<lambda>c. (case class_parent c of None \<Rightarrow> False | Some p \<Rightarrow> p \<in> set matched)
                    \<and> class_id c \<notin> set matched) classes)"

lemma children_of_new: "c \<in> set (children_of classes matched) \<Longrightarrow> c \<in> class_id ` set classes \<and> c \<notin> set matched"
  by (auto simp: children_of_def)

text \<open>The loop ends: each round matches a class that was not matched before.\<close>

function class_closure :: "qbo_class list \<Rightarrow> string list \<Rightarrow> string list" where
  "class_closure classes matched =
     (if children_of classes matched = [] then matched
      else class_closure classes (matched @ children_of classes matched))"
  by pat_completeness auto
termination
proof (relation "measure (\<lambda>(classes, matched). card (class_id ` set classes - set matched))")
  fix classes matched
  assume "children_of classes matched \<noteq> []"
  then obtain c where "c \<in> set (children_of classes matched)" by (cases "children_of classes matched") auto
  then have "class_id ` set classes - set (matched @ children_of classes matched)
      \<subset> class_id ` set classes - set matched"
    using children_of_new [of c classes matched] by auto
  then show "((classes, matched @ children_of classes matched), classes, matched)
      \<in> measure (\<lambda>(classes, matched). card (class_id ` set classes - set matched))"
    by (simp add: psubset_card_mono)
qed simp

declare class_closure.simps [simp del]

definition class_ids_for_rep :: "platform \<Rightarrow> qbo_class list \<Rightarrow> string \<Rightarrow> string list" where
  "class_ids_for_rep pf classes rep =
     (if trim rep = [] then []
      else class_closure classes (map class_id (filter (class_matches pf rep) classes)))"

section \<open>Orders\<close>

text \<open>Dates ascending, missing ones last.\<close>

definition by_date :: "string \<Rightarrow> string \<Rightarrow> ordering" where
  "by_date a b =
     (if a = [] \<and> b \<noteq> [] then Greater
      else if a \<noteq> [] \<and> b = [] then Less
      else cmp_of a b)"

definition natural :: "string \<Rightarrow> string \<Rightarrow> ordering" where
  "natural a b =
     (case (parse_unsigned u64_max a, parse_unsigned u64_max b) of
        (Some x, Some y) \<Rightarrow> cmp_of x y
      | _ \<Rightarrow> cmp_of a b)"

section \<open>Customers and their invoices\<close>

record customer_sales =
  sales_name :: string
  sales_amount :: f64
  sales_customer_id :: "string option"
  sales_invoices :: "json list"

definition customer_sales_json :: "customer_sales \<Rightarrow> json" where
  "customer_sales_json c =
     json_object
       [(''name'', JString (sales_name c)), (''amount'', json_f64 (sales_amount c)),
        (''qboCustomerId'', json_opt JString (sales_customer_id c)),
        (''invoices'', JArray (sales_invoices c))]"

definition customer_of_row :: "row \<Rightarrow> customer_sales option" where
  "customer_of_row r =
     (case row_amount r of
        None \<Rightarrow> None
      | Some x \<Rightarrow>
          if f64_is_zero x then None
          else Some \<lparr>sales_name = row_name r, sales_amount = x, sales_customer_id = row_entity r,
                     sales_invoices = []\<rparr>)"

definition by_amount :: "customer_sales \<Rightarrow> customer_sales \<Rightarrow> ordering" where
  "by_amount a b =
     then_with (total_cmp (sales_amount b) (sales_amount a)) (cmp_of (sales_name a) (sales_name b))"

definition customer_sales_rows :: "report \<Rightarrow> customer_sales list" where
  "customer_sales_rows rep =
     sort_by by_amount
       (List.map_filter customer_of_row (filter (\<lambda>r. row_kind r = Data) (report_rows rep)))"

definition str_or_empty :: "json \<Rightarrow> string \<Rightarrow> string" where
  "str_or_empty v k = (case as_str (json_index v k) of None \<Rightarrow> [] | Some s \<Rightarrow> s)"

definition invoice_of_customer :: "platform \<Rightarrow> customer_sales \<Rightarrow> json \<Rightarrow> bool" where
  "invoice_of_customer pf c v \<longleftrightarrow>
     (sales_customer_id c \<noteq> None \<and>
        qbo_text pf (json_index (json_index v ''CustomerRef'') ''value'') = sales_customer_id c) \<or>
     (case qbo_text pf (json_index (json_index v ''CustomerRef'') ''name'') of
        None \<Rightarrow> False
      | Some n \<Rightarrow> eq_ignore_ascii_case (trim n) (trim (sales_name c)))"

definition invoice_entry :: "platform \<Rightarrow> json \<Rightarrow> json" where
  "invoice_entry pf v =
     json_object
       [(''id'', json_opt JString (qbo_text pf (json_index v ''Id''))),
        (''docNumber'', json_opt JString (qbo_text pf (json_index v ''DocNumber''))),
        (''totalAmt'', json_opt json_f64 (qbo_number pf (json_index v ''TotalAmt''))),
        (''balance'', json_opt json_f64 (qbo_number pf (json_index v ''Balance''))),
        (''txnDate'', json_opt JString (qbo_text pf (json_index v ''TxnDate'')))]"

definition invoice_cmp :: "json \<Rightarrow> json \<Rightarrow> ordering" where
  "invoice_cmp a b =
     then_with (by_date (str_or_empty a ''txnDate'') (str_or_empty b ''txnDate''))
       (natural (str_or_empty a ''docNumber'') (str_or_empty b ''docNumber''))"

definition with_invoices :: "platform \<Rightarrow> json list \<Rightarrow> customer_sales \<Rightarrow> customer_sales" where
  "with_invoices pf invoices c =
     c\<lparr>sales_invoices :=
        sort_by invoice_cmp (map (invoice_entry pf) (filter (invoice_of_customer pf c) invoices))\<rparr>"

definition first_date :: "customer_sales \<Rightarrow> string" where
  "first_date c = (case sales_invoices c of [] \<Rightarrow> [] | v # _ \<Rightarrow> str_or_empty v ''txnDate'')"

definition by_first_invoice :: "customer_sales \<Rightarrow> customer_sales \<Rightarrow> ordering" where
  "by_first_invoice a b =
     then_with (by_date (first_date a) (first_date b)) (cmp_of (sales_name a) (sales_name b))"

definition attach_invoices :: "platform \<Rightarrow> customer_sales list \<Rightarrow> json list \<Rightarrow> customer_sales list" where
  "attach_invoices pf customers invoices =
     sort_by by_first_invoice (map (with_invoices pf invoices) customers)"

section \<open>The closure is reachability\<close>

definition child_of :: "qbo_class list \<Rightarrow> string \<Rightarrow> string \<Rightarrow> bool" where
  "child_of classes p i \<longleftrightarrow> (\<exists>c \<in> set classes. class_parent c = Some p \<and> class_id c = i)"

lemma children_of_iff:
  "i \<in> set (children_of classes matched) \<longleftrightarrow> (\<exists>p \<in> set matched. child_of classes p i) \<and> i \<notin> set matched"
proof -
  have parent: "(case class_parent c of None \<Rightarrow> False | Some p \<Rightarrow> p \<in> M) \<longleftrightarrow> (\<exists>p \<in> M. class_parent c = Some p)"
    for c :: qbo_class and M by (cases "class_parent c") auto
  show ?thesis
    unfolding children_of_def child_of_def parent set_map set_filter image_iff by blast
qed

lemma closed_under_children:
  assumes "children_of classes matched = []" and "(child_of classes)\<^sup>*\<^sup>* m i" and "m \<in> set matched"
  shows "i \<in> set matched"
  using assms(2,3)
proof (induction rule: rtranclp_induct)
  case (step j k)
  show ?case
  proof (rule ccontr)
    assume "k \<notin> set matched"
    then have "k \<in> set (children_of classes matched)" using step children_of_iff by blast
    then show False using assms(1) by simp
  qed
qed simp

lemma class_closure_reaches:
  "i \<in> set (class_closure classes matched) \<longleftrightarrow> (\<exists>m \<in> set matched. (child_of classes)\<^sup>*\<^sup>* m i)"
proof (induction classes matched rule: class_closure.induct)
  case (1 classes matched)
  show ?case
  proof (cases "children_of classes matched = []")
    case True
    have same: "class_closure classes matched = matched"
      by (subst class_closure.simps) (simp add: True)
    show ?thesis
      unfolding same
    proof
      assume "i \<in> set matched"
      then show "\<exists>m \<in> set matched. (child_of classes)\<^sup>*\<^sup>* m i" by (rule bexI [rotated]) (rule rtranclp.rtrancl_refl)
    next
      assume "\<exists>m \<in> set matched. (child_of classes)\<^sup>*\<^sup>* m i"
      then show "i \<in> set matched" using closed_under_children [OF True] by (elim bexE)
    qed
  next
    case False
    have "i \<in> set (class_closure classes matched) \<longleftrightarrow>
        (\<exists>m \<in> set (matched @ children_of classes matched). (child_of classes)\<^sup>*\<^sup>* m i)"
      unfolding class_closure.simps [of classes matched] if_not_P [OF False] by (rule 1 [OF False])
    also have "\<dots> \<longleftrightarrow> (\<exists>m \<in> set matched. (child_of classes)\<^sup>*\<^sup>* m i)"
    proof
      assume "\<exists>m \<in> set (matched @ children_of classes matched). (child_of classes)\<^sup>*\<^sup>* m i"
      then obtain m where m: "m \<in> set matched \<or> m \<in> set (children_of classes matched)"
        "(child_of classes)\<^sup>*\<^sup>* m i" unfolding set_append by blast
      show "\<exists>m \<in> set matched. (child_of classes)\<^sup>*\<^sup>* m i"
      proof (cases "m \<in> set matched")
        case True
        then show ?thesis using m(2) by (rule bexI [rotated])
      next
        case False
        then obtain p where "p \<in> set matched" "child_of classes p m"
          using m(1) unfolding children_of_iff by blast
        then show ?thesis using converse_rtranclp_into_rtranclp [OF _ m(2)] by (intro bexI [of _ p])
      qed
    qed (auto simp only: set_append)
    finally show ?thesis .
  qed
qed

lemma class_closure_distinct:
  "distinct (map class_id classes) \<Longrightarrow> distinct matched \<Longrightarrow> distinct (class_closure classes matched)"
proof (induction classes matched rule: class_closure.induct)
  case (1 classes matched)
  have "distinct (children_of classes matched)"
    using 1(2) by (simp add: children_of_def distinct_map_filter)
  then have "distinct (matched @ children_of classes matched)"
    using 1(3) children_of_iff [of _ classes matched] by auto
  with 1 show ?case
    by (cases "children_of classes matched = []") (simp_all add: class_closure.simps [of classes matched])
qed

section \<open>The orders are comparisons\<close>

lemma cmp_of_comparison: "comparison (cmp_of :: 'a::linorder \<Rightarrow> 'a \<Rightarrow> ordering)"
  by (rule linorder_cmp.comparison_axioms)

lemma by_date_comparison: "comparison by_date"
proof -
  have eq: "by_date = (\<lambda>a b. then_with (cmp_of (a = []) (b = [])) (cmp_of a b))"
    by (intro ext) (simp add: by_date_def cmp_of_def)
  show ?thesis unfolding eq
    by (intro comparison_then_with comparison_key [OF cmp_of_comparison] cmp_of_comparison)
qed

interpretation dates: comparison by_date
  by (rule by_date_comparison)

lemma by_amount_comparison: "comparison by_amount"
  unfolding by_amount_def
  by (intro comparison_then_with comparison_flip [OF comparison_key [OF total_cmp_comparison]]
      comparison_key [OF cmp_of_comparison])

lemma by_first_invoice_comparison: "comparison by_first_invoice"
  unfolding by_first_invoice_def
  by (intro comparison_then_with comparison_key [OF by_date_comparison] comparison_key [OF cmp_of_comparison])

interpretation amounts: comparison by_amount
  by (rule by_amount_comparison)

interpretation first_invoices: comparison by_first_invoice
  by (rule by_first_invoice_comparison)

section \<open>Properties\<close>

text \<open>
  C35: the class ids of a sales rep are the ids of the matching classes and of all their
  descendants, and nothing else, even when the parent links form a cycle; each id once when
  the classes have different ids.
\<close>
theorem rep_classes_are_the_descendants:
  assumes "trim rep \<noteq> []"
  shows "(i \<in> set (class_ids_for_rep pf classes rep) \<longleftrightarrow>
      (\<exists>c \<in> set classes. class_matches pf rep c \<and> (child_of classes)\<^sup>*\<^sup>* (class_id c) i)) \<and>
    (distinct (map class_id classes) \<longrightarrow> distinct (class_ids_for_rep pf classes rep))"
proof -
  let ?m = "map class_id (filter (class_matches pf rep) classes)"
  have ids: "class_ids_for_rep pf classes rep = class_closure classes ?m"
    using assms by (simp add: class_ids_for_rep_def)
  have ex: "(\<exists>m \<in> set ?m. P m) \<longleftrightarrow> (\<exists>c \<in> set classes. class_matches pf rep c \<and> P (class_id c))" for P
    by auto
  have "distinct (map class_id classes) \<Longrightarrow> distinct ?m" by (simp add: distinct_map_filter)
  then show ?thesis
    using class_closure_distinct [of classes ?m] unfolding ids class_closure_reaches ex by blast
qed

definition sample_classes :: "qbo_class list" where
  "sample_classes =
     [\<lparr>class_id = ''1'', class_name = ''ann'', class_full_name = ''ann'', class_parent = Some ''2''\<rparr>,
      \<lparr>class_id = ''2'', class_name = ''x'', class_full_name = ''x'', class_parent = Some ''1''\<rparr>]"

lemma trim_ann: "trim ''ann'' = ''ann''"
  by (simp add: trim_graph is_graph_def byte_def)

theorem rep_classes_are_the_descendants_witness:
  "''2'' \<in> set (class_ids_for_rep sample_platform sample_classes ''ann'')"
proof -
  have "class_matches sample_platform ''ann'' (sample_classes ! 0)"
    by (simp add: class_matches_def sample_classes_def matches_rep_def name_key_def sample_platform_def
        trim_ann Let_def ascii_lower_def is_ascii_upper_def byte_def)
  moreover have "child_of sample_classes ''1'' ''2''" by (simp add: child_of_def sample_classes_def)
  ultimately show ?thesis
    using rep_classes_are_the_descendants [of "''ann''" "''2''" sample_platform sample_classes] trim_ann
    by (auto simp: sample_classes_def)
qed

text \<open>
  The customers behind a rep's sales are those with an amount that is not zero, each as
  often as the report has it, the largest amount first and equal amounts by name; attaching
  invoices keeps the customers and lists them by the date of their first invoice, the ones
  without invoices last.
\<close>
theorem customers_are_listed_in_order:
  "mset (customer_sales_rows rep) =
     mset (List.map_filter customer_of_row (filter (\<lambda>r. row_kind r = Data) (report_rows rep))) \<and>
   sorted_wrt (\<lambda>a b. by_amount a b \<noteq> Greater) (customer_sales_rows rep) \<and>
   mset (attach_invoices pf customers invoices) = mset (map (with_invoices pf invoices) customers) \<and>
   sorted_wrt (\<lambda>a b. by_first_invoice a b \<noteq> Greater) (attach_invoices pf customers invoices)"
  by (simp add: customer_sales_rows_def attach_invoices_def amounts.sorted_sort_by first_invoices.sorted_sort_by)

text \<open>
  The order of document numbers is not transitive: 9 is before 10, 10 before \<open>1a\<close>, and
  \<open>1a\<close> before 9, so it is not a comparison and \<open>sort_by\<close> may not sort by it.
\<close>
theorem natural_is_not_an_order:
  "natural ''9'' ''10'' = Less \<and> natural ''10'' ''1a'' = Less \<and> natural ''1a'' ''9'' = Less \<and>
   \<not> comparison natural"
proof -
  have num: "parse_unsigned u64_max ''9'' = Some 9" "parse_unsigned u64_max ''10'' = Some 10"
    "parse_unsigned u64_max ''1a'' = None"
    by (simp_all add: parse_unsigned_def is_ascii_digit_def byte_def u64_max_def Let_def)
  have c: "natural ''9'' ''10'' = Less" "natural ''10'' ''1a'' = Less" "natural ''1a'' ''9'' = Less"
    by (simp_all add: natural_def num cmp_of_def)
  have "\<not> comparison natural"
  proof
    assume n: "comparison natural"
    have "natural ''9'' ''1a'' \<noteq> Greater" using comparison.cmp_trans [OF n, of "''9''" "''10''" "''1a''"] c by simp
    moreover have "natural ''9'' ''1a'' = reverse_ordering (natural ''1a'' ''9'')"
      by (rule comparison.cmp_swap [OF n])
    ultimately show False using c by simp
  qed
  with c show ?thesis by blast
qed

end
