(* ===== verification/QboCatalogue.thy ===== *)
theory QboCatalogue
  imports QboSales
begin

text \<open>
  \<open>crates/jobctl/src/qbo.rs\<close>: who asks (\<open>Scope\<close>), the session a job gets from its
  environment, and the catalogue of tools with its access rule. What the code takes from the
  platform (JSON text, \<open>Debug\<close> text, status lines) and from outside (QuickBooks' answers, the
  CRM database) is the record \<open>world\<close>.
\<close>

section \<open>The world\<close>

datatype http_reply = SendFailed string | BodyFailed string | Answer nat string

record http_request =
  request_url :: string
  bearer :: string

text \<open>The CRM's tables, the columns the tools read.\<close>

record crm_customer =
  crm_id :: int
  crm_company :: int
  crm_name :: "string option"
  crm_qbo_id :: "int option"
  crm_email_id :: "int option"
  crm_deleted :: bool

record crm_email =
  email_pk :: int
  email_customer :: int
  email_text :: "string option"

record crm_user =
  user_pk :: int
  user_company :: int
  user_name :: "string option"

record crm_tables =
  crm_customers :: "crm_customer list"
  crm_emails :: "crm_email list"
  crm_users :: "crm_user list"

text \<open>
  \<open>http_answer\<close> may depend on every earlier request; \<open>crm_answer n\<close> is what statement \<open>n\<close>
  meets: an error of the driver, or the tables as they are at that time.
\<close>

record world =
  world_platform :: platform
  json_text :: "json \<Rightarrow> string"
  json_parse :: "string \<Rightarrow> json option"
  debug_text :: "string \<Rightarrow> string"
  status_text :: "nat \<Rightarrow> string"
  client_error :: "string option"
  http_answer :: "http_request list \<Rightarrow> http_request \<Rightarrow> http_reply"
  crm_answer :: "nat \<Rightarrow> sqlx_error + crm_tables"

section \<open>Sessions\<close>

record scope =
  scope_company_id :: int
  scope_user_id :: int
  scope_is_admin :: bool

record session =
  company_url :: string
  session_token :: string
  session_scope :: scope

definition trim_slashes :: "string \<Rightarrow> string" where
  "trim_slashes s = rev (dropWhile (\<lambda>c. c = CHR ''/'') (rev s))"

definition session_new ::
  "world \<Rightarrow> string \<Rightarrow> string \<Rightarrow> string \<Rightarrow> scope \<Rightarrow> jobctl_error + session" where
  "session_new w api_base realm_id tok sc =
     (if \<not> is_entity_id realm_id
      then Inl (ConfigError (''invalid QuickBooks realm id '' @ debug_text w realm_id))
      else (case client_error w of
              Some e \<Rightarrow> Inl (HttpError (''cannot build HTTP client: '' @ e))
            | None \<Rightarrow>
                Inr \<lparr>company_url = trim_slashes api_base @ ''/v3/company/'' @ realm_id,
                     session_token = tok, session_scope = sc\<rparr>))"

text \<open>A variable of the environment that is set and not blank.\<close>

definition env_var :: "(string \<Rightarrow> string option) \<Rightarrow> string \<Rightarrow> string option" where
  "env_var env name =
     (case env name of None \<Rightarrow> None | Some v \<Rightarrow> if trim v = [] then None else Some v)"

definition env_required :: "(string \<Rightarrow> string option) \<Rightarrow> string \<Rightarrow> jobctl_error + string" where
  "env_required env name = ok_or (env_var env name) (ConfigError (name @ '' is not set''))"

definition env_id :: "(string \<Rightarrow> string option) \<Rightarrow> string \<Rightarrow> jobctl_error + int" where
  "env_id env name =
     bind_result (env_required env name)
       (\<lambda>v. ok_or (parse_i64 (trim v)) (ConfigError (name @ '' is not a number'')))"

definition session_from_env ::
  "world \<Rightarrow> (string \<Rightarrow> string option) \<Rightarrow> jobctl_error + session option" where
  "session_from_env w env =
     (case env_var env ''QBO_ACCESS_TOKEN'' of
        None \<Rightarrow> Inr None
      | Some tok \<Rightarrow>
          bind_result (env_required env ''QBO_REALM_ID'') (\<lambda>realm_id.
          bind_result (env_required env ''QBO_API_BASE'') (\<lambda>api_base.
          bind_result (env_id env ''QBO_COMPANY_ID'') (\<lambda>company.
          bind_result (env_id env ''QBO_USER_ID'') (\<lambda>user.
          bind_result
            (session_new w api_base realm_id tok
              \<lparr>scope_company_id = company, scope_user_id = user,
               scope_is_admin = (env_var env ''QBO_REQUESTER_IS_ADMIN'' = Some ''1'')\<rparr>)
            (\<lambda>se. Inr (Some se)))))))"

section \<open>The catalogue\<close>

record tool_spec =
  tool_name :: string
  admin_only :: bool
  tool_description :: string
  tool_properties :: "(string \<times> json) list"
  tool_required :: "string list"

text \<open>The schemas are JSON constants; their members are written as the parsed values.\<close>

definition schema_entry :: "string \<Rightarrow> string \<Rightarrow> json" where
  "schema_entry t d = json_object [(''type'', JString t), (''description'', JString d)]"

definition date_range :: "(string \<times> json) list" where
  "date_range =
       [(''start_date'', schema_entry ''string'' (''first day, YYYY-MM-DD'')),
        (''end_date'', schema_entry ''string'' (''last day, YYYY-MM-DD (inclusive)''))]"

definition search_customers_tool :: tool_spec where
  "search_customers_tool =
     \<lparr>tool_name = ''search_customers'', admin_only = False,
      tool_description =
        ''Find QuickBooks customers whose display name contains `name` (up to 25). Each '' @
        ''result lists the CRM customers (`customers.id`) linked to it through '' @
        ''`customers.qbo_id`.'',
      tool_properties =
       [(''name'', schema_entry ''string'' (''part of the customer's name''))],
      tool_required = [''name'']\<rparr>"

definition customer_invoices_tool :: tool_spec where
  "customer_invoices_tool =
     \<lparr>tool_name = ''customer_invoices'', admin_only = False,
      tool_description =
        ''All QuickBooks invoices of one customer, newest first, with number, dates, '' @
        ''total, open balance and project address. Pass `customer_id` (a CRM '' @
        ''`customers.id`; if it is not linked yet it is matched in QuickBooks by email, '' @
        ''then name) or `qbo_customer_id`.'',
      tool_properties =
       [(''customer_id'', schema_entry ''integer'' (''CRM customers.id'')),
        (''qbo_customer_id'', schema_entry ''string'' (''QuickBooks customer Id''))],
      tool_required = []\<rparr>"

definition invoice_tool :: tool_spec where
  "invoice_tool =
     \<lparr>tool_name = ''invoice'', admin_only = False,
      tool_description =
        ''One QuickBooks invoice in full: line items, amounts, taxes, balance, due '' @
        ''date, addresses, memo, email status and linked payments.'',
      tool_properties =
       [(''invoice_id'', schema_entry ''string'' (''QuickBooks invoice Id (not the DocNumber)''))],
      tool_required = [''invoice_id'']\<rparr>"

definition sales_rep_tool :: tool_spec where
  "sales_rep_tool =
     \<lparr>tool_name = ''sales_rep'', admin_only = False,
      tool_description =
        ''A sales rep's QuickBooks sales for a date range, the way the app's sales goal '' @
        ''widget computes them: the ClassSales amount of the classes named after the '' @
        ''rep, and the customers (with their invoices) behind it. `rep_name` defaults '' @
        ''to the asking user; only admins may name another rep.'',
      tool_properties =
       [(''start_date'', schema_entry ''string'' (''first day, YYYY-MM-DD'')),
        (''end_date'', schema_entry ''string'' (''last day, YYYY-MM-DD (inclusive)'')),
        (''rep_name'', schema_entry ''string'' (''sales rep name as in users.name''))],
      tool_required = [''start_date'', ''end_date'']\<rparr>"

definition invoices_in_range_tool :: tool_spec where
  "invoices_in_range_tool =
     \<lparr>tool_name = ''invoices_in_range'', admin_only = True,
      tool_description =
        ''Every invoice dated within a range (oldest first) with customer, total and '' @
        ''open balance, plus the count and sums. Admins only.'',
      tool_properties = date_range,
      tool_required = [''start_date'', ''end_date'']\<rparr>"

definition class_sales_tool :: tool_spec where
  "class_sales_tool =
     \<lparr>tool_name = ''class_sales'', admin_only = True,
      tool_description =
        ''The QuickBooks Sales by Class report (sales per sales rep class) for a date '' @
        ''range, without zero rows. Admins only.'',
      tool_properties = date_range,
      tool_required = [''start_date'', ''end_date'']\<rparr>"

definition query_tool :: tool_spec where
  "query_tool =
     \<lparr>tool_name = ''query'', admin_only = True,
      tool_description =
        ''Run a read-only QuickBooks query-language statement and return the raw '' @
        ''QueryResponse, e.g. `select * from Invoice where Balance > '0' ORDERBY '' @
        ''DueDate MAXRESULTS 100`, `select * from Payment where TxnDate >= '2026-01-01'`, '' @
        ''`select count(*) from Invoice`. Entities: Invoice, Payment, Customer, '' @
        ''Estimate, SalesReceipt, CreditMemo, Item, Class, Bill, Vendor, ... Admins '' @
        ''only.'',
      tool_properties =
       [(''query'', schema_entry ''string'' (''a SELECT statement''))],
      tool_required = [''query'']\<rparr>"

definition report_tool :: tool_spec where
  "report_tool =
     \<lparr>tool_name = ''report'', admin_only = True,
      tool_description =
        ''Fetch any QuickBooks report as raw JSON, e.g. ProfitAndLoss, BalanceSheet, '' @
        ''AgedReceivables, AgedReceivableDetail, CustomerSales, CustomerBalance, '' @
        ''ItemSales, ClassSales, TransactionList. `params` are the report's query '' @
        ''parameters, e.g. {\"start_date\": \"2026-01-01\", \"end_date\": \"2026-03-31\", '' @
        ''\"accounting_method\": \"Accrual\"}. Admins only.'',
      tool_properties =
       [(''report'', schema_entry ''string'' (''report name, e.g. ProfitAndLoss'')),
        (''params'', schema_entry ''object'' (''report query parameters''))],
      tool_required = [''report'']\<rparr>"

definition tool_specs :: "tool_spec list" where
  "tool_specs =
     [search_customers_tool, customer_invoices_tool, invoice_tool, sales_rep_tool,
      invoices_in_range_tool, class_sales_tool, query_tool, report_tool]"


definition tool_entry :: "tool_spec \<Rightarrow> json" where
  "tool_entry t =
     json_object
       [(''name'', JString (''qbo_'' @ tool_name t)),
        (''description'', JString (tool_description t)),
        (''inputSchema'',
         json_object
           [(''type'', JString ''object''), (''properties'', json_object (tool_properties t)),
            (''required'', JArray (map JString (tool_required t)))])]"

definition qbo_tools :: "bool \<Rightarrow> json list" where
  "qbo_tools admin = map tool_entry (filter (\<lambda>t. admin \<or> \<not> admin_only t) tool_specs)"

definition authorize :: "session \<Rightarrow> string \<Rightarrow> (jobctl_error + unit) option" where
  "authorize se name =
     (case find (\<lambda>t. tool_name t = name) tool_specs of
        None \<Rightarrow> None
      | Some t \<Rightarrow>
          Some (if admin_only t \<and> \<not> scope_is_admin (session_scope se)
                then Inl (Denied ''only admins can use this QuickBooks tool'')
                else Inr ()))"

section \<open>Lemmas\<close>

lemmas tool_defs = search_customers_tool_def customer_invoices_tool_def invoice_tool_def
  sales_rep_tool_def invoices_in_range_tool_def class_sales_tool_def query_tool_def report_tool_def

lemma tool_names:
  "map (\<lambda>t. (tool_name t, admin_only t)) tool_specs =
     [(''search_customers'', False), (''customer_invoices'', False), (''invoice'', False),
      (''sales_rep'', False), (''invoices_in_range'', True), (''class_sales'', True),
      (''query'', True), (''report'', True)]"
  by (simp add: tool_specs_def tool_defs)

lemma distinct_tool_names: "distinct (map tool_name tool_specs)"
  by (simp add: tool_specs_def tool_defs)

lemma find_by_name:
  "distinct (map f xs) \<Longrightarrow> find (\<lambda>t. f t = n) xs = Some t \<longleftrightarrow> t \<in> set xs \<and> f t = n"
  by (induction xs) auto

lemma authorize_granted_iff:
  "authorize se name = Some (Inr ()) \<longleftrightarrow>
     (\<exists>t \<in> set tool_specs. tool_name t = name \<and> (scope_is_admin (session_scope se) \<or> \<not> admin_only t))"
proof (cases "find (\<lambda>t. tool_name t = name) tool_specs")
  case None
  then have "\<forall>t \<in> set tool_specs. tool_name t \<noteq> name" by (simp add: find_None_iff)
  then show ?thesis using None by (simp add: authorize_def)
next
  case (Some t)
  then have t: "t \<in> set tool_specs" "tool_name t = name"
    using find_by_name [OF distinct_tool_names] by auto
  have "u = t" if "u \<in> set tool_specs" "tool_name u = name" for u
    using that Some find_by_name [OF distinct_tool_names, of name u] by simp
  with t have "(\<exists>u \<in> set tool_specs. tool_name u = name \<and> P u) \<longleftrightarrow> P t" for P by blast
  then show ?thesis by (auto simp: authorize_def Some)
qed

lemma authorize_None_iff: "authorize se name = None \<longleftrightarrow> name \<notin> tool_name ` set tool_specs"
proof -
  have "authorize se name = None \<longleftrightarrow> find (\<lambda>t. tool_name t = name) tool_specs = None"
    by (simp add: authorize_def split: option.split)
  then show ?thesis by (auto simp: find_None_iff)
qed

lemma tool_entry_name: "json_index (tool_entry t) ''name'' = JString (''qbo_'' @ tool_name t)"
  by (simp add: tool_entry_def)

section \<open>Properties\<close>

text \<open>
  The tools listed for a requester are exactly the ones the session lets them run, an
  unknown name is refused as unknown, and a known tool that is not listed is denied.
\<close>
theorem listed_tools_are_the_authorized:
  "(JString (''qbo_'' @ name) \<in> (\<lambda>t. json_index t ''name'') ` set (qbo_tools (scope_is_admin (session_scope se))))
     = (authorize se name = Some (Inr ())) \<and>
   (authorize se name = None) =
     (JString (''qbo_'' @ name) \<notin> (\<lambda>t. json_index t ''name'') ` set (qbo_tools True))"
  by (auto simp: authorize_granted_iff authorize_None_iff qbo_tools_def image_iff tool_entry_name)

text \<open>
  A session made from the environment acts for the company, user and role of the
  variables, with their token, and its address is the configured server with the company's
  numeric account id; there is no session without a token, and no error then either.
\<close>
theorem session_is_the_environments:
  assumes "session_from_env w env = Inr (Some se)"
  shows "env_var env ''QBO_ACCESS_TOKEN'' = Some (session_token se) \<and>
    env_id env ''QBO_COMPANY_ID'' = Inr (scope_company_id (session_scope se)) \<and>
    env_id env ''QBO_USER_ID'' = Inr (scope_user_id (session_scope se)) \<and>
    scope_is_admin (session_scope se) = (env ''QBO_REQUESTER_IS_ADMIN'' = Some ''1'') \<and>
    (\<exists>base realm. env ''QBO_API_BASE'' = Some base \<and> env ''QBO_REALM_ID'' = Some realm \<and>
       company_url se = trim_slashes base @ ''/v3/company/'' @ realm \<and>
       realm \<noteq> [] \<and> list_all is_ascii_digit realm)"
proof -
  have var: "env name = Some v" if "env_required env name = Inr v" for name v
    using that by (auto simp: env_required_def env_var_def split: option.splits if_splits)
  have one: "env_var env n = Some ''1'' \<longleftrightarrow> env n = Some ''1''" for n
  proof -
    have "trim ''1'' \<noteq> []" by (simp add: trim_graph is_graph_def byte_def)
    then show ?thesis by (auto simp: env_var_def split: option.splits)
  qed
  from assms obtain tok where tok: "env_var env ''QBO_ACCESS_TOKEN'' = Some tok"
    by (cases "env_var env ''QBO_ACCESS_TOKEN''") (simp_all add: session_from_env_def)
  from assms obtain realm base c u where r: "env_required env ''QBO_REALM_ID'' = Inr realm"
      and b: "env_required env ''QBO_API_BASE'' = Inr base"
      and c: "env_id env ''QBO_COMPANY_ID'' = Inr c" and u: "env_id env ''QBO_USER_ID'' = Inr u"
      and new: "session_new w base realm tok
        \<lparr>scope_company_id = c, scope_user_id = u,
         scope_is_admin = (env_var env ''QBO_REQUESTER_IS_ADMIN'' = Some ''1'')\<rparr> = Inr se"
    by (simp add: session_from_env_def tok bind_result_Inr_iff) blast
  from new have "is_entity_id realm" and se: "se = \<lparr>company_url = trim_slashes base @ ''/v3/company/'' @ realm,
      session_token = tok, session_scope = \<lparr>scope_company_id = c, scope_user_id = u,
         scope_is_admin = (env_var env ''QBO_REQUESTER_IS_ADMIN'' = Some ''1'')\<rparr>\<rparr>"
    by (simp_all add: session_new_def split: if_splits option.splits)
  then have "realm \<noteq> []" "list_all is_ascii_digit realm" by (auto simp: is_entity_id_def)
  then show ?thesis unfolding se using tok c u var [OF r] var [OF b] one by simp
qed

definition sample_world :: world where
  "sample_world = \<lparr>world_platform = sample_platform, json_text = (\<lambda>_. ''{}''), json_parse = (\<lambda>_. Some JNull),
     debug_text = id, status_text = show_nat, client_error = None,
     http_answer = (\<lambda>_ _. Answer 200 ''{}''),
     crm_answer = (\<lambda>_. Inr \<lparr>crm_customers = [], crm_emails = [], crm_users = []\<rparr>)\<rparr>"

definition sample_env :: "string \<Rightarrow> string option" where
  "sample_env = map_of [(''QBO_ACCESS_TOKEN'', ''t''), (''QBO_REALM_ID'', ''9''), (''QBO_API_BASE'', ''https://h/''),
     (''QBO_COMPANY_ID'', ''7''), (''QBO_USER_ID'', ''3'')]"

definition sample_session :: session where
  "sample_session = \<lparr>company_url = ''https://h/v3/company/9'', session_token = ''t'',
     session_scope = \<lparr>scope_company_id = 7, scope_user_id = 3, scope_is_admin = False\<rparr>\<rparr>"

theorem session_is_the_environments_witness:
  "\<exists>base. sample_env ''QBO_API_BASE'' = Some base \<and>
     company_url sample_session = trim_slashes base @ ''/v3/company/9''"
proof -
  have t: "trim ''t'' = ''t''" "trim ''9'' = ''9''" "trim ''https://h/'' = ''https://h/''"
    "trim ''7'' = ''7''" "trim ''3'' = ''3''"
    by (simp_all add: trim_graph is_graph_def byte_def)
  have n: "parse_i64 ''7'' = Some 7" "parse_i64 ''3'' = Some 3"
    by (simp_all add: parse_i64_def i64_defs is_ascii_digit_def byte_def Let_def)
  have "session_from_env sample_world sample_env = Inr (Some sample_session)"
    by (simp add: session_from_env_def env_required_def env_id_def env_var_def sample_env_def t n
        session_new_def sample_world_def sample_session_def is_entity_id_def is_ascii_digit_def
        byte_def trim_slashes_def)
  from session_is_the_environments [OF this] show ?thesis
    by (auto simp: sample_env_def)
qed

end
