(* ===== verification/QboTools.thy ===== *)
theory QboTools
  imports QboCatalogue
begin

text \<open>
  \<open>crates/jobctl/src/qbo.rs\<close>, \<open>Session\<close>'s operations: the requests to QuickBooks, the lookups
  in the CRM and the tools. An operation runs from the requests sent and the statements
  executed so far to those after it, and gives an error or a value.
\<close>

section \<open>Operations\<close>

record tool_state =
  sent :: "http_request list"
  statements :: nat

type_synonym 'a tool = "tool_state \<Rightarrow> (jobctl_error + 'a) \<times> tool_state"

definition tool_result :: "jobctl_error + 'a \<Rightarrow> 'a tool" where
  "tool_result r = (\<lambda>st. (r, st))"

abbreviation tool_ok :: "'a \<Rightarrow> 'a tool" where "tool_ok x \<equiv> tool_result (Inr x)"
abbreviation tool_err :: "jobctl_error \<Rightarrow> 'a tool" where "tool_err e \<equiv> tool_result (Inl e)"

definition tool_bind :: "'a tool \<Rightarrow> ('a \<Rightarrow> 'b tool) \<Rightarrow> 'b tool" where
  "tool_bind m f =
     (\<lambda>st. case m st of (Inl e, st') \<Rightarrow> (Inl e, st') | (Inr x, st') \<Rightarrow> f x st')"

text \<open>One statement on the CRM's tables.\<close>

definition crm_query :: "world \<Rightarrow> (crm_tables \<Rightarrow> 'a) \<Rightarrow> 'a tool" where
  "crm_query w q =
     (\<lambda>st. (case crm_answer w (statements st) of Inl e \<Rightarrow> Inl (DbError e) | Inr t \<Rightarrow> Inr (q t),
            st\<lparr>statements := Suc (statements st)\<rparr>))"

section \<open>The QuickBooks API\<close>

definition minor_version :: string where "minor_version = ''75''"
definition page_size :: nat where "page_size = 1000"
definition max_pages :: nat where "max_pages = 10"

definition query_string :: "(string \<times> string) list \<Rightarrow> string" where
  "query_string params =
     concat (map (\<lambda>(k, v). percent_encode k @ ''='' @ percent_encode v @ ''&'') params)
       @ ''minorversion='' @ minor_version"

definition get_url :: "session \<Rightarrow> string \<Rightarrow> (string \<times> string) list \<Rightarrow> string" where
  "get_url se path params = company_url se @ ''/'' @ path @ ''?'' @ query_string params"

definition is_success :: "nat \<Rightarrow> bool" where
  "is_success status \<longleftrightarrow> 200 \<le> status \<and> status < 300"

definition get_payload :: "world \<Rightarrow> string \<Rightarrow> nat \<Rightarrow> string \<Rightarrow> jobctl_error + json" where
  "get_payload w path status body =
     (if status = 401
      then Inl (HttpError
        (''QuickBooks rejected the access token; ask the user to try again, and an admin '' @
         ''to reconnect QuickBooks if it keeps happening''))
      else (case json_parse w body of
              None \<Rightarrow>
                Inl (HttpError (''QuickBooks '' @ path @ '': HTTP '' @ status_text w status @ '': '' @
                       sql_truncate body 500))
            | Some payload \<Rightarrow>
                (case json_get payload ''Fault'' of
                   Some fault \<Rightarrow> Inl (HttpError (''QuickBooks '' @ path @ '': '' @ json_text w fault))
                 | None \<Rightarrow>
                     if \<not> is_success status
                     then Inl (HttpError (''QuickBooks '' @ path @ '': HTTP '' @ status_text w status @
                            '': '' @ json_text w payload))
                     else Inr payload)))"

definition qbo_get :: "world \<Rightarrow> session \<Rightarrow> string \<Rightarrow> (string \<times> string) list \<Rightarrow> json tool" where
  "qbo_get w se path params =
     (\<lambda>st. let req = \<lparr>request_url = get_url se path params, bearer = session_token se\<rparr> in
       (case http_answer w (sent st) req of
          SendFailed e \<Rightarrow> Inl (HttpError (''QuickBooks '' @ path @ '': '' @ e))
        | BodyFailed e \<Rightarrow> Inl (HttpError (''QuickBooks '' @ path @ '': '' @ e))
        | Answer status body \<Rightarrow> get_payload w path status body,
        st\<lparr>sent := sent st @ [req]\<rparr>))"

definition run_query :: "world \<Rightarrow> session \<Rightarrow> string \<Rightarrow> json tool" where
  "run_query w se q = qbo_get w se ''query'' [(''query'', q)]"

definition customers_query :: "string \<Rightarrow> string" where
  "customers_query name =
     ''select Id, DisplayName, PrimaryEmailAddr from Customer where DisplayName like '' @ [quote] @
     ''%'' @ qbo_escape name @ ''%'' @ [quote] @ '' maxresults 25''"

definition customers_by_name :: "world \<Rightarrow> session \<Rightarrow> string \<Rightarrow> qbo_customer list tool" where
  "customers_by_name w se name =
     tool_bind (run_query w se (customers_query name)) (\<lambda>payload.
       tool_ok (List.map_filter (customer_parse (world_platform w)) (entities payload ''Customer'')))"

definition email_query :: "string \<Rightarrow> string" where
  "email_query email =
     ''select * from Customer WHERE PrimaryEmailAddr = '' @ [quote] @ qbo_escape email @ [quote]"

definition resolve_customer ::
  "world \<Rightarrow> session \<Rightarrow> string \<Rightarrow> string \<Rightarrow> (string \<times> string) option tool" where
  "resolve_customer w se name email =
     tool_bind
       (if email = [] then tool_ok None
        else tool_bind (run_query w se (email_query email)) (\<lambda>payload.
          tool_ok (Option.bind (only_one (entities payload ''Customer''))
            (customer_parse (world_platform w)))))
       (\<lambda>found.
         case found of
           Some c \<Rightarrow> tool_ok (Some (cust_id c, ''email''))
         | None \<Rightarrow>
             if name = [] then tool_ok None
             else tool_bind (customers_by_name w se name) (\<lambda>matches.
               tool_ok (map_option (\<lambda>i. (i, ''name''))
                 (pick_by_name (world_platform w) matches name email))))"

definition newest_first :: "json \<Rightarrow> json \<Rightarrow> ordering" where
  "newest_first a b = cmp_of (str_or_empty b ''txnDate'') (str_or_empty a ''txnDate'')"

definition customer_invoices_query :: "string \<Rightarrow> string" where
  "customer_invoices_query i =
     ''select Id, DocNumber, TxnDate, DueDate, TotalAmt, Balance, CurrencyRef, ShipAddr, '' @
     ''CustomerRef from Invoice where CustomerRef = '' @ [quote] @ qbo_escape i @ [quote] @
     '' MAXRESULTS 1000''"

definition invoices_for_customer :: "world \<Rightarrow> session \<Rightarrow> string \<Rightarrow> json list tool" where
  "invoices_for_customer w se i =
     tool_bind (run_query w se (customer_invoices_query i)) (\<lambda>payload.
       tool_ok (sort_by newest_first
         (map (invoice_summary (world_platform w)) (entities payload ''Invoice''))))"

definition invoices_query :: "string \<Rightarrow> string \<Rightarrow> nat \<Rightarrow> string" where
  "invoices_query start_date end_date page =
     ''select Id, DocNumber, TxnDate, DueDate, TotalAmt, Balance, CurrencyRef, '' @
     ''CustomerRef from Invoice where TxnDate >= '' @ [quote] @ start_date @ [quote] @
     '' and TxnDate <= '' @ [quote] @ end_date @ [quote] @
     '' ORDERBY TxnDate STARTPOSITION '' @ show_nat (page * page_size + 1) @
     '' MAXRESULTS '' @ show_nat page_size"

fun invoices_loop ::
  "world \<Rightarrow> session \<Rightarrow> string \<Rightarrow> string \<Rightarrow> nat list \<Rightarrow> json list \<Rightarrow> json list tool" where
  "invoices_loop w se start_date end_date [] found = tool_ok found"
| "invoices_loop w se start_date end_date (page # pages) found =
     tool_bind (run_query w se (invoices_query start_date end_date page)) (\<lambda>payload.
       let batch = entities payload ''Invoice'' in
       if length batch < page_size then tool_ok (found @ batch)
       else invoices_loop w se start_date end_date pages (found @ batch))"

definition invoices_between :: "world \<Rightarrow> session \<Rightarrow> string \<Rightarrow> string \<Rightarrow> json list tool" where
  "invoices_between w se start_date end_date =
     invoices_loop w se start_date end_date [0..<max_pages] []"

definition class_sales_report :: "world \<Rightarrow> session \<Rightarrow> string \<Rightarrow> string \<Rightarrow> report tool" where
  "class_sales_report w se start_date end_date =
     tool_bind
       (qbo_get w se ''reports/ClassSales''
         [(''accounting_method'', ''Accrual''), (''start_date'', start_date), (''end_date'', end_date)])
       (\<lambda>payload. tool_ok (parse_report (world_platform w) payload))"

definition qbo_classes :: "world \<Rightarrow> session \<Rightarrow> qbo_class list tool" where
  "qbo_classes w se =
     tool_bind (run_query w se ''select * from Class MAXRESULTS 1000'') (\<lambda>payload.
       tool_ok (resolve_parents (world_platform w)
         (List.map_filter (class_parse (world_platform w)) (entities payload ''Class''))))"

section \<open>The CRM\<close>

text \<open>The rows of \<open>linked_crm_customers\<close>' statement, and the map it builds of them.\<close>

definition linked_rows :: "int \<Rightarrow> int list \<Rightarrow> crm_tables \<Rightarrow> (int \<times> string option \<times> int) list" where
  "linked_rows company ids t =
     List.map_filter
       (\<lambda>c. case crm_qbo_id c of
              None \<Rightarrow> None
            | Some q \<Rightarrow>
                if crm_company c = company \<and> \<not> crm_deleted c \<and> q \<in> set ids
                then Some (crm_id c, crm_name c, q) else None)
       (crm_customers t)"

definition linked_entry :: "int \<times> string option \<times> int \<Rightarrow> json" where
  "linked_entry = (\<lambda>(i, name, q). json_object [(''customerId'', json_int i), (''name'', json_opt JString name)])"

definition add_linked ::
  "(string \<times> json list) list \<Rightarrow> int \<times> string option \<times> int \<Rightarrow> (string \<times> json list) list" where
  "add_linked m r =
     (let k = show_int (snd (snd r)) in
      map_put k ((case map_of m k of None \<Rightarrow> [] | Some l \<Rightarrow> l) @ [linked_entry r]) m)"

definition linked_crm_customers ::
  "world \<Rightarrow> int \<Rightarrow> string list \<Rightarrow> (string \<times> json list) list tool" where
  "linked_crm_customers w company qbo_ids =
     (let ids = remdups (List.map_filter parse_i64 (filter is_entity_id qbo_ids)) in
      if ids = [] then tool_ok []
      else tool_bind (crm_query w (linked_rows company ids))
             (\<lambda>rows. tool_ok (foldl add_linked [] rows)))"

definition linked_of :: "(string \<times> json list) list \<Rightarrow> string \<Rightarrow> json" where
  "linked_of linked i = JArray (case map_of linked i of None \<Rightarrow> [] | Some l \<Rightarrow> l)"

text \<open>The customer of \<open>crm_customer_invoices\<close> with the address of their main e-mail.\<close>

definition select_customer :: "int \<Rightarrow> int \<Rightarrow> crm_tables \<Rightarrow> (crm_customer \<times> string option) option" where
  "select_customer i company t =
     map_option
       (\<lambda>c. (c, Option.bind
          (find (\<lambda>e. Some (email_pk e) = crm_email_id c \<and> email_customer e = crm_id c) (crm_emails t))
          email_text))
       (find (\<lambda>c. crm_id c = i \<and> crm_company c = company \<and> \<not> crm_deleted c) (crm_customers t))"

definition select_user_name :: "int \<Rightarrow> int \<Rightarrow> crm_tables \<Rightarrow> string option option" where
  "select_user_name i company t =
     map_option user_name (find (\<lambda>u. user_pk u = i \<and> user_company u = company) (crm_users t))"

section \<open>Tools\<close>

abbreviation args_of :: "jobctl_error + 'a \<Rightarrow> ('a \<Rightarrow> 'b tool) \<Rightarrow> 'b tool" where
  "args_of r f \<equiv> tool_bind (tool_result r) f"

abbreviation company_of :: "session \<Rightarrow> int" where
  "company_of se \<equiv> scope_company_id (session_scope se)"

abbreviation admin_of :: "session \<Rightarrow> bool" where
  "admin_of se \<equiv> scope_is_admin (session_scope se)"

definition search_customers :: "world \<Rightarrow> session \<Rightarrow> json \<Rightarrow> json tool" where
  "search_customers w se args =
     args_of (required_str args ''name'') (\<lambda>name.
     tool_bind (customers_by_name w se name) (\<lambda>customers.
     tool_bind (linked_crm_customers w (company_of se) (map cust_id customers)) (\<lambda>linked.
       tool_ok (JArray (map (\<lambda>c. json_object
         [(''qboCustomerId'', JString (cust_id c)), (''displayName'', JString (cust_display_name c)),
          (''email'', json_opt JString (cust_email c)),
          (''crmCustomers'', linked_of linked (cust_id c))]) customers)))))"

definition crm_customer_invoices :: "world \<Rightarrow> session \<Rightarrow> int \<Rightarrow> json tool" where
  "crm_customer_invoices w se customer_id =
     tool_bind (crm_query w (select_customer customer_id (company_of se))) (\<lambda>found.
       case found of
         None \<Rightarrow> tool_err (NotFoundError (''customer '' @ show_int customer_id @ '' not found''))
       | Some (c, mail) \<Rightarrow>
           let name = (case crm_name c of None \<Rightarrow> [] | Some n \<Rightarrow> n);
               email = (case mail of None \<Rightarrow> [] | Some m \<Rightarrow> m) in
           tool_bind
             (case (case crm_qbo_id c of None \<Rightarrow> None | Some q \<Rightarrow> if 0 < q then Some q else None) of
                Some q \<Rightarrow> tool_ok (show_int q, ''customers.qbo_id'')
              | None \<Rightarrow>
                  tool_bind (resolve_customer w se (trim name) (trim email)) (\<lambda>match.
                    tool_result (ok_or match (NotFoundError
                      (''customer '' @ show_int (crm_id c) @ '' is not linked to QuickBooks and no '' @
                       ''QuickBooks customer matches their email or name'')))))
             (\<lambda>(qbo_id, matched_by).
               tool_bind (invoices_for_customer w se qbo_id) (\<lambda>invoices.
                 tool_ok (json_object
                   [(''customerId'', json_int (crm_id c)), (''customerName'', JString name),
                    (''qboCustomerId'', JString qbo_id), (''matchedBy'', JString matched_by),
                    (''invoices'', JArray invoices)]))))"

definition customer_invoices :: "world \<Rightarrow> session \<Rightarrow> json \<Rightarrow> json tool" where
  "customer_invoices w se args =
     args_of (optional_positive args ''customer_id'') (\<lambda>customer_id.
     args_of (optional_entity_id (world_platform w) args ''qbo_customer_id'') (\<lambda>qbo_customer_id.
       case (customer_id, qbo_customer_id) of
         (Some i, None) \<Rightarrow> crm_customer_invoices w se i
       | (None, Some q) \<Rightarrow>
           tool_bind (linked_crm_customers w (company_of se) [q]) (\<lambda>linked.
             if \<not> admin_of se \<and> map_of linked q = None
             then tool_err (Denied
               (''this QuickBooks customer is not linked to a CRM customer; only admins '' @
                ''can see it''))
             else tool_bind (invoices_for_customer w se q) (\<lambda>invoices.
               tool_ok (json_object
                 [(''qboCustomerId'', JString q), (''crmCustomers'', linked_of linked q),
                  (''invoices'', JArray invoices)])))
       | _ \<Rightarrow> tool_err (InvalidArgument ''pass exactly one of customer_id (CRM) or qbo_customer_id'')))"

definition invoice :: "world \<Rightarrow> session \<Rightarrow> json \<Rightarrow> json tool" where
  "invoice w se args =
     args_of (optional_entity_id (world_platform w) args ''invoice_id'') (\<lambda>given.
     args_of (ok_or given (InvalidArgument ''invoice_id is required'')) (\<lambda>invoice_id.
     tool_bind (qbo_get w se (''invoice/'' @ invoice_id) []) (\<lambda>payload.
       let inv = (case json_get payload ''Invoice'' of None \<Rightarrow> payload | Some v \<Rightarrow> v);
           customer = as_str (json_index (json_index inv ''CustomerRef'') ''value'') in
       tool_bind
         (case customer of
            Some i \<Rightarrow> linked_crm_customers w (company_of se) [i]
          | None \<Rightarrow> tool_ok [])
         (\<lambda>linked.
           let crm = Option.bind customer (map_of linked) in
           if \<not> admin_of se \<and> crm = None
           then tool_err (Denied
             (''this invoice's customer is not linked to a CRM customer; only admins can '' @
              ''see it''))
           else tool_ok (json_object
             [(''crmCustomers'', JArray (case crm of None \<Rightarrow> [] | Some l \<Rightarrow> l)), (''invoice'', inv)])))))"

definition customers_of_rep ::
  "world \<Rightarrow> session \<Rightarrow> string \<Rightarrow> string \<Rightarrow> string list \<Rightarrow> (customer_sales list \<times> f64) tool" where
  "customers_of_rep w se start_date end_date class_ids =
     (if class_ids = [] then tool_ok ([], 0)
      else
        tool_bind
          (qbo_get w se ''reports/CustomerSales''
            [(''accounting_method'', ''Accrual''), (''summarize_column_by'', ''Total''),
             (''start_date'', start_date), (''end_date'', end_date), (''class'', join '','' class_ids)])
          (\<lambda>payload.
            let rep = parse_report (world_platform w) payload in
            tool_bind (invoices_between w se start_date end_date) (\<lambda>invoices.
              let customers = attach_invoices (world_platform w) (customer_sales_rows rep) invoices in
              tool_ok (customers,
                case report_total rep of
                  Some x \<Rightarrow> x
                | None \<Rightarrow> f64_total (world_platform w) (map sales_amount customers)))))"

definition sales_rep :: "world \<Rightarrow> session \<Rightarrow> json \<Rightarrow> json tool" where
  "sales_rep w se args =
     args_of (required_date args ''start_date'') (\<lambda>start_date.
     args_of (required_date args ''end_date'') (\<lambda>end_date.
     tool_bind (crm_query w (select_user_name (scope_user_id (session_scope se)) (company_of se))) (\<lambda>found.
       let own = (case Option.bind found (\<lambda>n. n) of None \<Rightarrow> [] | Some n \<Rightarrow> n);
           rep = (case optional_str args ''rep_name'' of None \<Rightarrow> trim own | Some r \<Rightarrow> r) in
       if \<not> admin_of se \<and> \<not> eq_ignore_ascii_case rep (trim own)
       then tool_err (Denied ''only admins can see another sales rep's sales'')
       else if rep = []
       then tool_err (InvalidArgument ''the sales rep has no name to match QuickBooks classes by'')
       else
         tool_bind (class_sales_report w se start_date end_date) (\<lambda>class_sales.
         let amount = sum_for_rep (world_platform w) (report_rows class_sales) rep in
         tool_bind (qbo_classes w se) (\<lambda>classes.
         let class_ids = class_ids_for_rep (world_platform w) classes rep in
         tool_bind (customers_of_rep w se start_date end_date class_ids) (\<lambda>(customers, total).
           tool_ok (json_object
             [(''repName'', JString rep),
              (''startDate'', JString (case start_period class_sales of None \<Rightarrow> start_date | Some d \<Rightarrow> d)),
              (''endDate'', JString (case end_period class_sales of None \<Rightarrow> end_date | Some d \<Rightarrow> d)),
              (''currency'', JString (case report_currency class_sales of None \<Rightarrow> ''USD'' | Some c \<Rightarrow> c)),
              (''classSalesAmount'', json_f64 amount),
              (''matchedClasses'', JArray (map (\<lambda>c. JString (class_full_name c))
                 (filter (\<lambda>c. class_id c \<in> set class_ids) classes))),
              (''customerSalesTotal'', json_f64 total),
              (''customers'', JArray (map customer_sales_json customers))])))))))"

definition invoices_in_range :: "world \<Rightarrow> session \<Rightarrow> json \<Rightarrow> json tool" where
  "invoices_in_range w se args =
     args_of (required_date args ''start_date'') (\<lambda>start_date.
     args_of (required_date args ''end_date'') (\<lambda>end_date.
     tool_bind (invoices_between w se start_date end_date) (\<lambda>invoices.
       let amounts = (\<lambda>k. f64_total (world_platform w)
             (List.map_filter (\<lambda>i. qbo_number (world_platform w) (json_index i k)) invoices)) in
       tool_ok (json_object
         [(''startDate'', JString start_date), (''endDate'', JString end_date),
          (''count'', json_int (int (length invoices))),
          (''totalAmt'', json_f64 (amounts ''TotalAmt'')), (''openBalance'', json_f64 (amounts ''Balance'')),
          (''invoices'', JArray (map (invoice_summary (world_platform w)) invoices))]))))"

definition class_sales :: "world \<Rightarrow> session \<Rightarrow> json \<Rightarrow> json tool" where
  "class_sales w se args =
     args_of (required_date args ''start_date'') (\<lambda>start_date.
     args_of (required_date args ''end_date'') (\<lambda>end_date.
     tool_bind (class_sales_report w se start_date end_date) (\<lambda>rep.
       tool_ok (json_object
         [(''startDate'', json_opt JString (start_period rep)),
          (''endDate'', json_opt JString (end_period rep)),
          (''currency'', json_opt JString (report_currency rep)),
          (''total'', json_opt json_f64 (report_total rep)),
          (''rows'', JArray (map row_json (omit_zero_rows (report_rows rep))))]))))"

text \<open>\<open>query.get(..7)\<close>: the first seven bytes, if a character ends there.\<close>

definition starts_with_select :: "string \<Rightarrow> bool" where
  "starts_with_select q \<longleftrightarrow>
     7 \<le> length q \<and> (length q = 7 \<or> \<not> is_continuation (q ! 7)) \<and>
     eq_ignore_ascii_case (take 7 q) ''select ''"

definition qbo_query :: "world \<Rightarrow> session \<Rightarrow> json \<Rightarrow> json tool" where
  "qbo_query w se args =
     args_of (required_str args ''query'') (\<lambda>q.
       if \<not> starts_with_select q
       then tool_err (InvalidArgument ''only SELECT queries are allowed'')
       else tool_bind (qbo_get w se ''query'' [(''query'', q)]) (\<lambda>payload.
         tool_ok (case json_get payload ''QueryResponse'' of None \<Rightarrow> payload | Some v \<Rightarrow> v)))"

fun report_param :: "platform \<Rightarrow> string \<Rightarrow> json \<Rightarrow> jobctl_error + string" where
  "report_param pf key (JString t) = Inr t"
| "report_param pf key (JNumber n) = Inr (show_number pf n)"
| "report_param pf key (JBool b) = Inr (if b then ''true'' else ''false'')"
| "report_param pf key _ =
     Inl (InvalidArgument (''report parameter '' @ key @ '' must be a string or number''))"

fun report_params :: "platform \<Rightarrow> (string \<times> json) list \<Rightarrow> jobctl_error + (string \<times> string) list" where
  "report_params pf [] = Inr []"
| "report_params pf ((key, v) # kvs) =
     bind_result (report_param pf key v) (\<lambda>t.
     bind_result (report_params pf kvs) (\<lambda>ps. Inr ((key, t) # ps)))"

definition qbo_report :: "world \<Rightarrow> session \<Rightarrow> json \<Rightarrow> json tool" where
  "qbo_report w se args =
     args_of (required_str args ''report'') (\<lambda>name.
       if \<not> (1 \<le> length name \<and> length name \<le> 64) \<or> \<not> list_all is_ascii_alphabetic name
       then tool_err (InvalidArgument ''report must be a report name such as ProfitAndLoss'')
       else args_of
         (case json_get args ''params'' of
            Some (JObject kvs) \<Rightarrow> report_params (world_platform w) kvs
          | _ \<Rightarrow> Inr [])
         (\<lambda>params. qbo_get w se (''reports/'' @ name) params))"

definition run_tool :: "world \<Rightarrow> session \<Rightarrow> string \<Rightarrow> json \<Rightarrow> json tool option" where
  "run_tool w se name args =
     (if name = ''search_customers'' then Some (search_customers w se args)
      else if name = ''customer_invoices'' then Some (customer_invoices w se args)
      else if name = ''invoice'' then Some (invoice w se args)
      else if name = ''sales_rep'' then Some (sales_rep w se args)
      else if name = ''invoices_in_range'' then Some (invoices_in_range w se args)
      else if name = ''class_sales'' then Some (class_sales w se args)
      else if name = ''query'' then Some (qbo_query w se args)
      else if name = ''report'' then Some (qbo_report w se args)
      else None)"

definition session_call ::
  "world \<Rightarrow> session \<Rightarrow> string \<Rightarrow> json \<Rightarrow> tool_state \<Rightarrow> (jobctl_error + string) option \<times> tool_state" where
  "session_call w se name args st =
     (case authorize se name of
        None \<Rightarrow> (None, st)
      | Some (Inl e) \<Rightarrow> (Some (Inl e), st)
      | Some (Inr _) \<Rightarrow>
          (case run_tool w se name args of
             None \<Rightarrow> (None, st)
           | Some tool \<Rightarrow>
               (case tool st of
                  (Inl e, st') \<Rightarrow> (Some (Inl e), st')
                | (Inr v, st') \<Rightarrow> (Some (Inr (sql_truncate (json_text w v) max_output_chars)), st'))))"

end
