(* ===== verification/QboAccess.thy ===== *)
theory QboAccess
  imports QboTools
begin

text \<open>
  What the QuickBooks tools may do: the requests they send stay at the session's company, the
  CRM rows they show are the company's, and a requester who is no admin sees only what the
  access rules allow.
\<close>

section \<open>Effects of operations\<close>

text \<open>
  An effect relates the state before an operation to the state after it. Anything reflexive
  and transitive that the single steps respect is respected by every program made of them.
\<close>

definition follows :: "(tool_state \<Rightarrow> tool_state \<Rightarrow> bool) \<Rightarrow> 'a tool \<Rightarrow> bool" where
  "follows R m \<longleftrightarrow> (\<forall>st. R st (snd (m st)))"

locale effect =
  fixes R :: "tool_state \<Rightarrow> tool_state \<Rightarrow> bool"
  assumes effect_refl: "R st st"
    and effect_trans: "R a b \<Longrightarrow> R b c \<Longrightarrow> R a c"
begin

lemma follows_result: "follows R (tool_result r)"
  by (simp add: follows_def tool_result_def effect_refl)

lemma follows_bind:
  assumes "follows R m" and "\<And>x. follows R (f x)"
  shows "follows R (tool_bind m f)"
  unfolding follows_def
proof
  fix st
  have m: "R st (snd (m st))" using assms(1) by (simp add: follows_def)
  have f: "R st' (snd (f x st'))" for x st' using assms(2) by (simp add: follows_def)
  show "R st (snd (tool_bind m f st))"
    using m effect_trans [OF m] f by (cases "m st"; cases "fst (m st)") (auto simp: tool_bind_def)
qed

lemma follows_args: "(\<And>x. r = Inr x \<Longrightarrow> follows R (f x)) \<Longrightarrow> follows R (args_of r f)"
  by (cases r) (simp_all add: follows_def tool_bind_def tool_result_def effect_refl)

lemma follows_option:
  "follows R m \<Longrightarrow> (\<And>x. follows R (f x)) \<Longrightarrow> follows R (case v of None \<Rightarrow> m | Some x \<Rightarrow> f x)"
  by (cases v) simp_all

lemma follows_pair: "(\<And>a b. follows R (f a b)) \<Longrightarrow> follows R (case v of (a, b) \<Rightarrow> f a b)"
  by (cases v) simp

lemma follows_if:
  "(c \<Longrightarrow> follows R m) \<Longrightarrow> (\<not> c \<Longrightarrow> follows R n) \<Longrightarrow> follows R (if c then m else n)"
  by simp

end

definition requests_only :: "(http_request \<Rightarrow> bool) \<Rightarrow> tool_state \<Rightarrow> tool_state \<Rightarrow> bool" where
  "requests_only P a b \<longleftrightarrow> (\<exists>new. sent b = sent a @ new \<and> list_all P new)"

interpretation requests: effect "requests_only P" for P
proof
  show "requests_only P st st" for st by (simp add: requests_only_def)
  show "requests_only P a c" if "requests_only P a b" "requests_only P b c" for a b c
  proof -
    from that obtain m n where "sent b = sent a @ m" "list_all P m" "sent c = sent b @ n" "list_all P n"
      unfolding requests_only_def by blast
    then have "sent c = sent a @ (m @ n) \<and> list_all P (m @ n)" by simp
    then show ?thesis unfolding requests_only_def by blast
  qed
qed

lemma follows_crm_query: "follows (requests_only P) (crm_query w q)"
  by (simp add: follows_def crm_query_def requests_only_def)

lemma follows_get:
  "P \<lparr>request_url = get_url se path params, bearer = session_token se\<rparr> \<Longrightarrow>
   follows (requests_only P) (qbo_get w se path params)"
  by (simp add: follows_def qbo_get_def requests_only_def Let_def)

section \<open>Where requests go\<close>

definition is_path_char :: "char \<Rightarrow> bool" where
  "is_path_char c \<longleftrightarrow> is_ascii_alphanumeric c \<or> c = CHR ''/''"

definition safe_request :: "session \<Rightarrow> http_request \<Rightarrow> bool" where
  "safe_request se r \<longleftrightarrow> bearer r = session_token se \<and>
     (\<exists>path params. request_url r = get_url se path params \<and> list_all is_path_char path)"

lemma safe_get:
  "list_all is_path_char path \<Longrightarrow> follows (requests_only (safe_request se)) (qbo_get w se path params)"
  by (rule follows_get) (auto simp: safe_request_def)

lemma digit_path: "is_entity_id i \<Longrightarrow> list_all is_path_char i"
  by (auto simp: is_entity_id_def is_path_char_def is_ascii_alphanumeric_def list_all_iff)

lemma alpha_path: "list_all is_ascii_alphabetic s \<Longrightarrow> list_all is_path_char s"
  by (auto simp: is_path_char_def is_ascii_alphanumeric_def list_all_iff)

lemmas constant_path = is_path_char_def is_ascii_alphanumeric_def is_ascii_alphabetic_def
  is_ascii_lower_def is_ascii_upper_def is_ascii_digit_def byte_def

lemma path_constants:
  "list_all is_path_char ''query''" "list_all is_path_char ''reports/ClassSales''"
  "list_all is_path_char ''reports/CustomerSales''" "list_all is_path_char ''invoice/''"
  "list_all is_path_char ''reports/''"
  by (simp_all add: constant_path)

lemma safe_run_query: "follows (requests_only (safe_request se)) (run_query w se q)"
  unfolding run_query_def by (rule safe_get) (rule path_constants)

lemmas safe_steps = requests.follows_args requests.follows_result requests.follows_bind
  requests.follows_option requests.follows_pair requests.follows_if safe_run_query follows_crm_query

lemma safe_customers_by_name: "follows (requests_only (safe_request se)) (customers_by_name w se name)"
  unfolding customers_by_name_def by (intro safe_steps)

lemma safe_resolve: "follows (requests_only (safe_request se)) (resolve_customer w se name email)"
  unfolding resolve_customer_def by (intro safe_steps safe_customers_by_name)

lemma safe_invoices_for: "follows (requests_only (safe_request se)) (invoices_for_customer w se i)"
  unfolding invoices_for_customer_def by (intro safe_steps)

lemma safe_invoices_loop: "follows (requests_only (safe_request se)) (invoices_loop w se a b pages found)"
proof (induction pages arbitrary: found)
  case (Cons page pages)
  show ?case unfolding invoices_loop.simps Let_def by (intro safe_steps Cons.IH)
qed (simp add: requests.follows_result)

lemma safe_between: "follows (requests_only (safe_request se)) (invoices_between w se a b)"
  unfolding invoices_between_def by (rule safe_invoices_loop)

lemma safe_class_sales_report: "follows (requests_only (safe_request se)) (class_sales_report w se a b)"
  unfolding class_sales_report_def by (intro safe_steps safe_get path_constants)

lemma safe_classes: "follows (requests_only (safe_request se)) (qbo_classes w se)"
  unfolding qbo_classes_def by (intro safe_steps)

lemma safe_linked: "follows (requests_only (safe_request se)) (linked_crm_customers w company ids)"
  unfolding linked_crm_customers_def Let_def by (intro safe_steps)

lemmas safe_parts = safe_steps safe_customers_by_name safe_resolve
  safe_invoices_for safe_between safe_class_sales_report safe_classes safe_linked

lemma safe_search: "follows (requests_only (safe_request se)) (search_customers w se args)"
  unfolding search_customers_def by (intro safe_parts)

lemma safe_crm_invoices: "follows (requests_only (safe_request se)) (crm_customer_invoices w se i)"
  unfolding crm_customer_invoices_def Let_def by (intro safe_parts)

lemma safe_customer_invoices: "follows (requests_only (safe_request se)) (customer_invoices w se args)"
  unfolding customer_invoices_def by (intro safe_parts safe_crm_invoices)

lemma entity_id_given: "optional_entity_id pf args name = Inr (Some i) \<Longrightarrow> is_entity_id i"
  by (auto simp: optional_entity_id_def Let_def split: option.splits json.splits if_splits)

lemma invoice_path:
  assumes "optional_entity_id pf args name = Inr given" and "ok_or given e = Inr i"
  shows "list_all is_path_char (''invoice/'' @ i)"
proof -
  from assms have "is_entity_id i" by (cases given) (auto dest: entity_id_given)
  then show ?thesis unfolding list_all_append by (intro conjI path_constants digit_path)
qed

lemma safe_invoice: "follows (requests_only (safe_request se)) (invoice w se args)"
  unfolding invoice_def Let_def by (intro safe_parts safe_get) (rule invoice_path)

lemma safe_customers_of_rep: "follows (requests_only (safe_request se)) (customers_of_rep w se a b ids)"
  unfolding customers_of_rep_def Let_def by (intro safe_parts safe_get path_constants)

lemma safe_sales_rep: "follows (requests_only (safe_request se)) (sales_rep w se args)"
  unfolding sales_rep_def Let_def by (intro safe_parts safe_customers_of_rep)

lemma safe_in_range: "follows (requests_only (safe_request se)) (invoices_in_range w se args)"
  unfolding invoices_in_range_def Let_def by (intro safe_parts)

lemma safe_class_sales: "follows (requests_only (safe_request se)) (class_sales w se args)"
  unfolding class_sales_def by (intro safe_parts)

lemma safe_query: "follows (requests_only (safe_request se)) (qbo_query w se args)"
  unfolding qbo_query_def by (intro safe_parts safe_get path_constants)

lemma report_path: "\<not> (bad \<or> \<not> list_all is_ascii_alphabetic name) \<Longrightarrow> list_all is_path_char (''reports/'' @ name)"
  unfolding list_all_append by (intro conjI path_constants alpha_path) blast

lemma safe_report: "follows (requests_only (safe_request se)) (qbo_report w se args)"
  unfolding qbo_report_def by (intro safe_parts safe_get) (rule report_path)

lemma safe_run_tool: "run_tool w se name args = Some tool \<Longrightarrow> follows (requests_only (safe_request se)) tool"
  unfolding run_tool_def
  by (auto split: if_splits intro: safe_search safe_customer_invoices safe_invoice safe_sales_rep
      safe_in_range safe_class_sales safe_query safe_report)

definition is_query_char :: "char \<Rightarrow> bool" where
  "is_query_char c \<longleftrightarrow> is_unreserved c \<or> c = CHR ''%'' \<or> c = CHR ''&'' \<or> c = CHR ''=''"

lemma query_string_chars: "list_all is_query_char (query_string params)"
proof -
  have enc: "list_all is_query_char (percent_encode t)" for t
    using percent_encode_chars [of _ t] by (auto simp: list_all_iff is_query_char_def)
  have sep: "is_query_char (CHR ''='')" "is_query_char (CHR ''&'')" by (simp_all add: is_query_char_def)
  have "list_all is_query_char (''minorversion='' @ minor_version)"
    by (simp add: minor_version_def is_query_char_def is_unreserved_def ascii_defs byte_def)
  moreover have "list_all is_query_char (concat (map (\<lambda>(k, v). percent_encode k @ ''='' @ percent_encode v @ ''&'') params))"
  proof (induction params)
    case (Cons kv params)
    then show ?case using enc sep by (cases kv) simp
  qed simp
  ultimately show ?thesis unfolding query_string_def list_all_append by blast
qed

section \<open>The CRM's rows\<close>

definition customers_linked_to :: "int \<Rightarrow> string \<Rightarrow> crm_tables \<Rightarrow> crm_customer list" where
  "customers_linked_to company k t =
     filter (\<lambda>c. crm_company c = company \<and> \<not> crm_deleted c \<and> map_option show_int (crm_qbo_id c) = Some k)
       (crm_customers t)"

definition linked_customer :: "crm_customer \<Rightarrow> json" where
  "linked_customer c = json_object [(''customerId'', json_int (crm_id c)), (''name'', json_opt JString (crm_name c))]"

lemma linked_fold:
  assumes "map_wf m"
  shows "map_wf (foldl add_linked m rows) \<and>
    map_of (foldl add_linked m rows) k =
      (let hits = filter (\<lambda>r. show_int (snd (snd r)) = k) rows in
       if hits = [] then map_of m k
       else Some ((case map_of m k of None \<Rightarrow> [] | Some l \<Rightarrow> l) @ map linked_entry hits))"
  using assms
proof (induction rows arbitrary: m)
  case (Cons r rows)
  have "map_wf (add_linked m r)" using Cons.prems by (simp add: add_linked_def Let_def map_wf_put)
  moreover have "map_of (add_linked m r) k =
      (if k = show_int (snd (snd r)) then Some ((case map_of m k of None \<Rightarrow> [] | Some l \<Rightarrow> l) @ [linked_entry r])
       else map_of m k)"
    using Cons.prems by (simp add: add_linked_def Let_def map_of_map_put)
  ultimately show ?case using Cons.IH [of "add_linked m r"] by (auto simp: Let_def)
qed simp

lemma linked_rows_hits:
  "map linked_entry (filter (\<lambda>r. show_int (snd (snd r)) = k) (linked_rows company ids t)) =
   map linked_customer (filter (\<lambda>c. \<exists>q \<in> set ids. crm_qbo_id c = Some q) (customers_linked_to company k t))"
proof -
  have "map linked_entry (filter (\<lambda>r. show_int (snd (snd r)) = k)
      (List.map_filter (\<lambda>c. case crm_qbo_id c of None \<Rightarrow> None
         | Some q \<Rightarrow> if crm_company c = company \<and> \<not> crm_deleted c \<and> q \<in> set ids
             then Some (crm_id c, crm_name c, q) else None) cs)) =
    map linked_customer (filter (\<lambda>c. \<exists>q \<in> set ids. crm_qbo_id c = Some q)
      (filter (\<lambda>c. crm_company c = company \<and> \<not> crm_deleted c \<and> map_option show_int (crm_qbo_id c) = Some k) cs))"
    for cs
  proof (induction cs)
    case (Cons c cs)
    then show ?case
      by (cases "crm_qbo_id c") (auto simp: map_filter_simps linked_entry_def linked_customer_def)
  qed (simp add: map_filter_simps)
  then show ?thesis by (simp add: linked_rows_def customers_linked_to_def)
qed

text \<open>What the map holds for one QuickBooks id.\<close>

lemma linked_lookup:
  assumes "linked_crm_customers w company ids st = (Inr linked, st')" and "map_of linked k = Some l"
  obtains t where "crm_answer w (statements st) = Inr t"
    "l = map linked_customer (filter (\<lambda>c. \<exists>q \<in> set (remdups (List.map_filter parse_i64 (filter is_entity_id ids))).
       crm_qbo_id c = Some q) (customers_linked_to company k t))"
    "l \<noteq> []"
proof -
  let ?ids = "remdups (List.map_filter parse_i64 (filter is_entity_id ids))"
  have ne: "?ids \<noteq> []"
    using assms by (auto simp: linked_crm_customers_def tool_result_def Let_def split: if_splits)
  obtain t where t: "crm_answer w (statements st) = Inr t" and
    linked: "linked = foldl add_linked [] (linked_rows company ?ids t)"
    using assms(1) ne
    by (auto simp: linked_crm_customers_def tool_result_def tool_bind_def crm_query_def Let_def
        split: sum.splits)
  have "map_of linked k = (let hits = filter (\<lambda>r. show_int (snd (snd r)) = k) (linked_rows company ?ids t) in
      if hits = [] then None else Some (map linked_entry hits))"
    unfolding linked using linked_fold [of "[]" "linked_rows company ?ids t" k] by (simp add: btree.wf_empty Let_def)
  with assms(2) have "l = map linked_entry (filter (\<lambda>r. show_int (snd (snd r)) = k) (linked_rows company ?ids t))" "l \<noteq> []"
    by (auto simp: Let_def split: if_splits)
  then show ?thesis using that [OF t] unfolding linked_rows_hits by blast
qed

lemma linked_is_the_companys:
  assumes "linked_crm_customers w company ids st = (Inr linked, st')" and "map_of linked k = Some l"
  shows "\<exists>t c. crm_answer w (statements st) = Inr t \<and> c \<in> set (customers_linked_to company k t)"
proof -
  obtain t where t: "crm_answer w (statements st) = Inr t" and
    l: "l = map linked_customer (filter (\<lambda>c. \<exists>q \<in> set (remdups (List.map_filter parse_i64 (filter is_entity_id ids))).
       crm_qbo_id c = Some q) (customers_linked_to company k t))" "l \<noteq> []"
    by (rule linked_lookup [OF assms])
  from l obtain c where "c \<in> set (customers_linked_to company k t)"
    by (cases "customers_linked_to company k t") auto
  with t show ?thesis by blast
qed

section \<open>Properties\<close>

text \<open>
  C20: whatever the arguments and whatever QuickBooks answers, a tool sends requests with the
  session's own token to the session's own company only: the path is made of letters, digits
  and slashes, and what follows it is percent-encoded parameters.
\<close>
theorem requests_stay_with_the_company:
  "\<exists>new. sent (snd (session_call w se name args st)) = sent st @ new \<and>
     list_all (\<lambda>r. bearer r = session_token se \<and>
       (\<exists>path query. request_url r = company_url se @ ''/'' @ path @ ''?'' @ query \<and>
          list_all is_path_char path \<and> list_all is_query_char query)) new"
proof -
  have safe: "bearer r = session_token se \<and>
      (\<exists>path query. request_url r = company_url se @ ''/'' @ path @ ''?'' @ query \<and>
          list_all is_path_char path \<and> list_all is_query_char query)" if "safe_request se r" for r
    using that query_string_chars unfolding safe_request_def get_url_def by blast
  have "requests_only (safe_request se) st (snd (session_call w se name args st))"
  proof (cases "authorize se name = Some (Inr ()) \<and> run_tool w se name args \<noteq> None")
    case True
    then obtain tool where tool: "run_tool w se name args = Some tool" by blast
    have "snd (session_call w se name args st) = snd (tool st)"
      using True tool by (simp add: session_call_def split: prod.split sum.split)
    then show ?thesis using safe_run_tool [OF tool] by (simp add: follows_def)
  next
    case False
    then have "snd (session_call w se name args st) = st"
      by (auto simp: session_call_def split: option.split sum.split)
    then show ?thesis using requests.effect_refl [of "safe_request se" st] by simp
  qed
  then obtain new where "sent (snd (session_call w se name args st)) = sent st @ new" "list_all (safe_request se) new"
    unfolding requests_only_def by blast
  then show ?thesis using safe by (auto simp: list_all_iff)
qed


lemma tool_bind_Inr:
  "tool_bind m f st = (Inr y, st2) \<longleftrightarrow> (\<exists>x st1. m st = (Inr x, st1) \<and> f x st1 = (Inr y, st2))"
  by (auto simp: tool_bind_def split: prod.split sum.split)

lemma tool_result_Inr: "tool_result r st = (Inr y, st2) \<longleftrightarrow> r = Inr y \<and> st2 = st"
  by (auto simp: tool_result_def)

lemma select_customer_company:
  "select_customer i company t = Some (c, m) \<Longrightarrow>
   c \<in> set (crm_customers t) \<and> crm_company c = company \<and> \<not> crm_deleted c"
  by (auto simp: select_customer_def find_Some_iff)

text \<open>
  What a list of invoices has to be: the answer to the query for the invoices of the customer
  \<open>q\<close>, the last request, newest first.
\<close>

definition shows_invoices_of :: "world \<Rightarrow> session \<Rightarrow> string \<Rightarrow> tool_state \<Rightarrow> json \<Rightarrow> tool_state \<Rightarrow> bool" where
  "shows_invoices_of w se q before v st' \<longleftrightarrow>
     json_index v ''qboCustomerId'' = JString q \<and>
     (\<exists>payload.
        qbo_get w se ''query''
          [(''query'', ''select Id, DocNumber, TxnDate, DueDate, TotalAmt, Balance, CurrencyRef, ShipAddr, '' @
             ''CustomerRef from Invoice where CustomerRef = '' @ [quote] @ qbo_escape q @ [quote] @ '' MAXRESULTS 1000'')]
          before = (Inr payload, st') \<and>
        json_index v ''invoices'' =
          JArray (sort_by newest_first (map (invoice_summary (world_platform w)) (entities payload ''Invoice''))))"

lemma shows_invoices:
  assumes "invoices_for_customer w se q before = (Inr invoices, st')"
    and "json_index v ''qboCustomerId'' = JString q" and "json_index v ''invoices'' = JArray invoices"
  shows "shows_invoices_of w se q before v st'"
  using assms
  by (auto simp: shows_invoices_of_def invoices_for_customer_def run_query_def customer_invoices_query_def
      tool_bind_Inr tool_result_Inr)

text \<open>
  The customer that \<open>customer_id\<close> leads to: the linked one, or the one found under the CRM
  customer's e-mail address or name.
\<close>

definition stands_for :: "world \<Rightarrow> session \<Rightarrow> crm_tables \<Rightarrow> crm_customer \<Rightarrow> string \<Rightarrow> tool_state \<Rightarrow> bool" where
  "stands_for w se t c q before \<longleftrightarrow>
     \<not> (\<exists>k > 0. crm_qbo_id c = Some k) \<and>
     (\<exists>mail how a. select_customer (crm_id c) (company_of se) t = Some (c, mail) \<and>
        resolve_customer w se (trim (case crm_name c of None \<Rightarrow> [] | Some n \<Rightarrow> n)) (trim (case mail of None \<Rightarrow> [] | Some m \<Rightarrow> m)) a =
          (Inr (Some (q, how)), before))"

lemma crm_customer_invoices_shown:
  assumes "crm_customer_invoices w se i st = (Inr v, st')"
  shows "\<exists>t c q before. crm_answer w (statements st) = Inr t \<and> c \<in> set (crm_customers t) \<and>
    crm_company c = company_of se \<and> \<not> crm_deleted c \<and>
    (map_option show_int (crm_qbo_id c) = Some q \<or>
     json_index v ''customerId'' = json_int (crm_id c) \<and> stands_for w se t c q before) \<and>
    shows_invoices_of w se q before v st'"
proof -
  from assms obtain t c mail q how before invoices where
    t: "crm_answer w (statements st) = Inr t" and c: "select_customer i (company_of se) t = Some (c, mail)"
    and q: "(case (case crm_qbo_id c of None \<Rightarrow> None | Some q \<Rightarrow> if 0 < q then Some q else None) of
        Some q \<Rightarrow> tool_ok (show_int q, ''customers.qbo_id'')
      | None \<Rightarrow>
          tool_bind (resolve_customer w se (trim (case crm_name c of None \<Rightarrow> [] | Some n \<Rightarrow> n))
            (trim (case mail of None \<Rightarrow> [] | Some m \<Rightarrow> m))) (\<lambda>match.
            tool_result (ok_or match (NotFoundError
              (''customer '' @ show_int (crm_id c) @ '' is not linked to QuickBooks and no '' @
               ''QuickBooks customer matches their email or name'')))))
        (st\<lparr>statements := Suc (statements st)\<rparr>) = (Inr (q, how), before)"
    and invoices: "invoices_for_customer w se q before = (Inr invoices, st')"
    and v: "json_index v ''customerId'' = json_int (crm_id c)" "json_index v ''qboCustomerId'' = JString q"
      "json_index v ''invoices'' = JArray invoices"
    by (auto simp: crm_customer_invoices_def tool_bind_Inr tool_result_Inr crm_query_def Let_def
        split: sum.splits option.splits prod.splits)
  have i: "crm_id c = i" using c by (auto simp: select_customer_def find_Some_iff)
  have "map_option show_int (crm_qbo_id c) = Some q \<or> stands_for w se t c q before"
  proof (cases "\<exists>k > 0. crm_qbo_id c = Some k")
    case True
    then show ?thesis using q by (auto simp: tool_result_def)
  next
    case False
    then have "(case crm_qbo_id c of None \<Rightarrow> None | Some q \<Rightarrow> if 0 < q then Some q else None) = None"
      by (auto split: option.split)
    with q show ?thesis
      using False c by (auto simp: stands_for_def i tool_bind_Inr tool_result_Inr ok_or_def split: option.splits)
  qed
  then show ?thesis using t select_customer_company [OF c] shows_invoices [OF invoices v(2,3)] v(1) by blast
qed

lemma customer_invoices_shown:
  assumes "customer_invoices w se args st = (Inr v, st')" and "\<not> admin_of se"
  shows "\<exists>n t c q before. crm_answer w n = Inr t \<and> c \<in> set (crm_customers t) \<and>
    crm_company c = company_of se \<and> \<not> crm_deleted c \<and>
    (map_option show_int (crm_qbo_id c) = Some q \<or>
     json_index v ''customerId'' = json_int (crm_id c) \<and> stands_for w se t c q before) \<and>
    shows_invoices_of w se q before v st'"
proof -
  from assms consider (crm) i st1 where "crm_customer_invoices w se i st1 = (Inr v, st')"
    | (qbo) q st1 linked before invoices where
        "linked_crm_customers w (company_of se) [q] st1 = (Inr linked, before)" "map_of linked q \<noteq> None"
        "invoices_for_customer w se q before = (Inr invoices, st')"
        "json_index v ''qboCustomerId'' = JString q" "json_index v ''invoices'' = JArray invoices"
    by (auto simp: customer_invoices_def tool_bind_Inr tool_result_Inr split: option.splits if_splits)
  then show ?thesis
  proof cases
    case crm
    then show ?thesis using crm_customer_invoices_shown by blast
  next
    case qbo
    then obtain l where "map_of linked q = Some l" by blast
    from linked_is_the_companys [OF qbo(1) this] obtain t c where
      t: "crm_answer w (statements st1) = Inr t" "c \<in> set (customers_linked_to (company_of se) q t)" by blast
    then have "c \<in> set (crm_customers t) \<and> crm_company c = company_of se \<and> \<not> crm_deleted c \<and>
        map_option show_int (crm_qbo_id c) = Some q"
      by (auto simp: customers_linked_to_def)
    then show ?thesis using t(1) shows_invoices [OF qbo(3-5)] by blast
  qed
qed

lemma invoice_shown:
  assumes "invoice w se args st = (Inr v, st')" and "\<not> admin_of se"
  shows "\<exists>i n t c. as_str (json_index (json_index (json_index v ''invoice'') ''CustomerRef'') ''value'') = Some i \<and>
    crm_answer w n = Inr t \<and> c \<in> set (customers_linked_to (company_of se) i t)"
proof -
  from assms obtain payload st1 linked st2 inv customer where
      inv: "inv = (case json_get payload ''Invoice'' of None \<Rightarrow> payload | Some v \<Rightarrow> v)"
      and customer: "customer = as_str (json_index (json_index inv ''CustomerRef'') ''value'')"
      and linked: "(case customer of Some i \<Rightarrow> linked_crm_customers w (company_of se) [i] | None \<Rightarrow> tool_ok []) st1
        = (Inr linked, st2)"
      and shown: "Option.bind customer (map_of linked) \<noteq> None"
      and v: "json_index v ''invoice'' = inv"
    by (auto simp: invoice_def tool_bind_Inr tool_result_Inr Let_def split: if_splits)
  from shown obtain i l where i: "customer = Some i" "map_of linked i = Some l"
    by (cases customer) auto
  with linked have "linked_crm_customers w (company_of se) [i] st1 = (Inr linked, st2)" by simp
  from linked_is_the_companys [OF this i(2)] show ?thesis
    using i customer v by auto
qed

text \<open>
  C19: what the tools \<open>invoice\<close> and \<open>customer_invoices\<close> show to a requester who is no admin. An
  invoice names a customer that is linked to a CRM customer of the requester's own company. A
  list of invoices is what QuickBooks answers to the last request, which asks for the invoices
  of one QuickBooks customer; that customer is linked to a CRM customer of the requester's
  company, or, where the named CRM customer of the company has no link, it is the one that
  QuickBooks holds under that customer's own e-mail address or name.
\<close>
theorem non_admins_see_company_customers_only:
  assumes "\<not> admin_of se"
  shows "(invoice w se args st = (Inr v, st') \<longrightarrow>
      (\<exists>i n t c. as_str (json_index (json_index (json_index v ''invoice'') ''CustomerRef'') ''value'') = Some i \<and>
         crm_answer w n = Inr t \<and> c \<in> set (customers_linked_to (company_of se) i t))) \<and>
    (customer_invoices w se args st = (Inr v, st') \<longrightarrow>
      (\<exists>n t c q before. crm_answer w n = Inr t \<and> c \<in> set (crm_customers t) \<and>
         crm_company c = company_of se \<and> \<not> crm_deleted c \<and>
         (map_option show_int (crm_qbo_id c) = Some q \<or>
          json_index v ''customerId'' = json_int (crm_id c) \<and> stands_for w se t c q before) \<and>
         shows_invoices_of w se q before v st'))"
  using invoice_shown [OF _ assms] customer_invoices_shown [OF _ assms] by blast

definition linked_world :: world where
  "linked_world = sample_world\<lparr>
     json_parse := (\<lambda>_. Some (JObject [(''CustomerRef'', JObject [(''value'', JString ''5'')]),
       (''QueryResponse'', JObject [(''Invoice'', JArray [JObject []])])])),
     crm_answer := (\<lambda>_. Inr \<lparr>crm_customers = [\<lparr>crm_id = 1, crm_company = 7, crm_name = None,
       crm_qbo_id = Some 5, crm_email_id = None, crm_deleted = False\<rparr>], crm_emails = [],
       crm_users = [\<lparr>user_pk = 3, user_company = 7, user_name = Some ''ann''\<rparr>]\<rparr>)\<rparr>"

definition start_state :: tool_state where "start_state = \<lparr>sent = [], statements = 0\<rparr>"

lemma show_int_5: "show_int 5 = ''5''"
proof -
  have "show_nat 5 = ''5''" by code_simp
  then show ?thesis by (simp add: show_int_def)
qed

lemma invoice_12: "fst (invoice linked_world sample_session (JObject [(''invoice_id'', JString ''12'')]) start_state) =
    Inr (json_object
      [(''crmCustomers'', JArray [json_object [(''customerId'', json_int 1), (''name'', JNull)]]),
       (''invoice'', JObject [(''CustomerRef'', JObject [(''value'', JString ''5'')]),
          (''QueryResponse'', JObject [(''Invoice'', JArray [JObject []])])])])"
proof -
  have t: "trim ''12'' = ''12''" by (simp add: trim_graph is_graph_def byte_def)
  have n: "parse_i64 ''5'' = Some 5" by (simp add: parse_i64_def i64_defs is_ascii_digit_def byte_def Let_def)
  show ?thesis
    by (simp add: invoice_def tool_bind_def tool_result_def optional_entity_id_def is_entity_id_def
        is_ascii_digit_def byte_def t n linked_world_def sample_world_def start_state_def qbo_get_def get_payload_def
        is_success_def Let_def json_index_def linked_crm_customers_def map_filter_simps crm_query_def
        linked_rows_def sample_session_def add_linked_def show_int_5 linked_entry_def)
qed

lemma invoices_of_5:
  "\<exists>v st'. customer_invoices linked_world sample_session (JObject [(''qbo_customer_id'', JString ''5'')]) start_state = (Inr v, st')"
proof -
  have t: "trim ''5'' = ''5''" by (simp add: trim_graph is_graph_def byte_def)
  have n: "parse_i64 ''5'' = Some 5" by (simp add: parse_i64_def i64_defs is_ascii_digit_def byte_def Let_def)
  have "\<exists>l st'. invoices_for_customer linked_world sample_session q st = (Inr l, st')" for q st
    by (simp add: invoices_for_customer_def run_query_def tool_bind_def tool_result_def qbo_get_def get_payload_def
        is_success_def linked_world_def sample_world_def Let_def)
  then obtain l st' where l: "invoices_for_customer linked_world sample_session ''5'' \<lparr>sent = [], statements = 1\<rparr> = (Inr l, st')"
    by blast
  have crm: "linked_crm_customers linked_world 7 [''5''] start_state =
      (Inr [(''5'', [json_object [(''customerId'', json_int 1), (''name'', JNull)]])], \<lparr>sent = [], statements = 1\<rparr>)"
    by (simp add: linked_crm_customers_def is_entity_id_def is_ascii_digit_def byte_def n map_filter_simps crm_query_def
        linked_rows_def linked_world_def start_state_def add_linked_def show_int_5 linked_entry_def tool_bind_def
        tool_result_def Let_def)
  have "company_of sample_session = 7" by (simp add: sample_session_def)
  with l crm show ?thesis
    by (simp add: customer_invoices_def tool_bind_def tool_result_def optional_positive_def optional_entity_id_def
        is_entity_id_def is_ascii_digit_def byte_def t)
qed

theorem non_admins_see_company_customers_only_witness:
  "(\<exists>i n t c. as_str (json_index (json_index (json_index
       (projr (fst (invoice linked_world sample_session (JObject [(''invoice_id'', JString ''12'')]) start_state)))
       ''invoice'') ''CustomerRef'') ''value'') = Some i \<and>
     crm_answer linked_world n = Inr t \<and> c \<in> set (customers_linked_to 7 i t)) \<and>
   (\<exists>v st' n t c q before.
     customer_invoices linked_world sample_session (JObject [(''qbo_customer_id'', JString ''5'')]) start_state = (Inr v, st') \<and>
     crm_answer linked_world n = Inr t \<and> c \<in> set (crm_customers t) \<and> crm_company c = 7 \<and>
     shows_invoices_of linked_world sample_session q before v st')"
proof -
  have se: "\<not> admin_of sample_session" "company_of sample_session = 7" by (simp_all add: sample_session_def)
  note all = non_admins_see_company_customers_only [OF se(1), of linked_world, unfolded se(2)]
  obtain v st' where v: "invoice linked_world sample_session (JObject [(''invoice_id'', JString ''12'')]) start_state = (Inr v, st')"
    using invoice_12 by (cases "invoice linked_world sample_session (JObject [(''invoice_id'', JString ''12'')]) start_state") auto
  obtain u st2 where u: "customer_invoices linked_world sample_session (JObject [(''qbo_customer_id'', JString ''5'')]) start_state = (Inr u, st2)"
    using invoices_of_5 by blast
  show ?thesis
  proof
    show "\<exists>i n t c. as_str (json_index (json_index (json_index
       (projr (fst (invoice linked_world sample_session (JObject [(''invoice_id'', JString ''12'')]) start_state)))
       ''invoice'') ''CustomerRef'') ''value'') = Some i \<and>
     crm_answer linked_world n = Inr t \<and> c \<in> set (customers_linked_to 7 i t)"
      using all [THEN conjunct1, rule_format, OF v] by (simp add: v)
    show "\<exists>v st' n t c q before.
     customer_invoices linked_world sample_session (JObject [(''qbo_customer_id'', JString ''5'')]) start_state = (Inr v, st') \<and>
     crm_answer linked_world n = Inr t \<and> c \<in> set (crm_customers t) \<and> crm_company c = 7 \<and>
     shows_invoices_of linked_world sample_session q before v st'"
      using all [THEN conjunct2, rule_format, OF u] u by blast
  qed
qed

text \<open>
  C23: a requester who is no admin is denied the company-wide tools and another sales rep's
  sales before any request goes to QuickBooks, and an unknown tool is refused without any
  effect.
\<close>
theorem denied_tools_send_nothing:
  assumes "\<not> admin_of se"
  shows "(name \<in> {''invoices_in_range'', ''class_sales'', ''query'', ''report''} \<longrightarrow>
      session_call w se name args st =
        (Some (Inl (Denied ''only admins can use this QuickBooks tool'')), st)) \<and>
    (name \<notin> tool_name ` set tool_specs \<longrightarrow> session_call w se name args st = (None, st)) \<and>
    (required_date args ''start_date'' = Inr a \<longrightarrow> required_date args ''end_date'' = Inr b \<longrightarrow>
     crm_answer w (statements st) = Inr t \<longrightarrow>
     select_user_name (scope_user_id (session_scope se)) (company_of se) t = Some (Some own) \<longrightarrow>
     optional_str args ''rep_name'' = Some rep \<longrightarrow> \<not> eq_ignore_ascii_case rep (trim own) \<longrightarrow>
       session_call w se ''sales_rep'' args st =
         (Some (Inl (Denied ''only admins can see another sales rep's sales'')),
          st\<lparr>statements := Suc (statements st)\<rparr>))"
proof (intro conjI impI)
  assume "name \<in> {''invoices_in_range'', ''class_sales'', ''query'', ''report''}"
  then have "authorize se name = Some (Inl (Denied ''only admins can use this QuickBooks tool''))"
    using assms by (elim insertE) (simp_all add: authorize_def tool_specs_def tool_defs)
  then show "session_call w se name args st =
      (Some (Inl (Denied ''only admins can use this QuickBooks tool'')), st)"
    by (simp add: session_call_def)
next
  assume "name \<notin> tool_name ` set tool_specs"
  then have "authorize se name = None" by (simp add: authorize_None_iff)
  then show "session_call w se name args st = (None, st)" by (simp add: session_call_def)
next
  assume h: "required_date args ''start_date'' = Inr a" "required_date args ''end_date'' = Inr b"
    "crm_answer w (statements st) = Inr t"
    "select_user_name (scope_user_id (session_scope se)) (company_of se) t = Some (Some own)"
    "optional_str args ''rep_name'' = Some rep" "\<not> eq_ignore_ascii_case rep (trim own)"
  have "authorize se ''sales_rep'' = Some (Inr ())"
    by (simp add: authorize_def tool_specs_def tool_defs)
  moreover have "sales_rep w se args st =
      (Inl (Denied ''only admins can see another sales rep's sales''), st\<lparr>statements := Suc (statements st)\<rparr>)"
    using assms h by (simp add: sales_rep_def tool_bind_def tool_result_def crm_query_def)
  ultimately show "session_call w se ''sales_rep'' args st =
      (Some (Inl (Denied ''only admins can see another sales rep's sales'')), st\<lparr>statements := Suc (statements st)\<rparr>)"
    by (simp add: session_call_def run_tool_def)
qed

theorem denied_tools_send_nothing_witness:
  "session_call linked_world sample_session ''query'' JNull start_state =
     (Some (Inl (Denied ''only admins can use this QuickBooks tool'')), start_state)"
  using denied_tools_send_nothing [of sample_session "''query''"] by (simp add: sample_session_def)

section \<open>Paging\<close>

text \<open>
  QuickBooks as its documentation has it: it holds the list \<open>L\<close> for a selection, in the order the
  selection asks for; with \<open>STARTPOSITION s MAXRESULTS n\<close>, for any \<open>n\<close> up to a thousand, it
  answers with the \<open>n\<close> invoices from the \<open>s\<close>-th on, the first having number one.
\<close>

definition holds_selection :: "world \<Rightarrow> session \<Rightarrow> string \<Rightarrow> json list \<Rightarrow> bool" where
  "holds_selection w se selection L \<longleftrightarrow>
     (\<forall>s n st. 1 \<le> s \<longrightarrow> 1 \<le> n \<longrightarrow> n \<le> 1000 \<longrightarrow>
        (\<exists>payload.
           fst (qbo_get w se ''query''
             [(''query'', selection @ '' STARTPOSITION '' @ show_nat s @ '' MAXRESULTS '' @ show_nat n)] st) = Inr payload \<and>
           entities payload ''Invoice'' = take n (drop (s - 1) L)))"

text \<open>The invoices of a range of dates, both included, oldest first.\<close>

definition range_selection :: "string \<Rightarrow> string \<Rightarrow> string" where
  "range_selection first_day last_day =
     ''select Id, DocNumber, TxnDate, DueDate, TotalAmt, Balance, CurrencyRef, CustomerRef from Invoice where TxnDate >= '' @
     [quote] @ first_day @ [quote] @ '' and TxnDate <= '' @ [quote] @ last_day @ [quote] @ '' ORDERBY TxnDate''"

text \<open>Then the loop's page \<open>p\<close> is answered with the \<open>p\<close>-th thousand.\<close>

definition serves :: "world \<Rightarrow> session \<Rightarrow> string \<Rightarrow> string \<Rightarrow> json list \<Rightarrow> bool" where
  "serves w se a b L \<longleftrightarrow>
     (\<forall>p < max_pages. \<forall>st. \<exists>payload.
        fst (run_query w se (invoices_query a b p) st) = Inr payload \<and>
        entities payload ''Invoice'' = take page_size (drop (p * page_size) L))"

lemma page_query: "invoices_query a b p =
    range_selection a b @ '' STARTPOSITION '' @ show_nat (p * 1000 + 1) @ '' MAXRESULTS '' @ show_nat 1000"
  by (simp add: invoices_query_def range_selection_def page_size_def)

lemma holds_selection_serves:
  assumes "holds_selection w se (range_selection a b) L"
  shows "serves w se a b L"
  unfolding serves_def run_query_def page_query page_size_def
proof (intro allI impI)
  fix p st
  show "\<exists>payload.
      fst (qbo_get w se ''query''
        [(''query'', range_selection a b @ '' STARTPOSITION '' @ show_nat (p * 1000 + 1) @ '' MAXRESULTS '' @ show_nat 1000)] st) =
        Inr payload \<and>
      entities payload ''Invoice'' = take 1000 (drop (p * 1000) L)"
    using assms [unfolded holds_selection_def, rule_format, of "p * 1000 + 1" 1000 st] by simp
qed

lemma run_query_sends: "length (sent (snd (run_query w se q st))) = Suc (length (sent st))"
  by (simp add: run_query_def qbo_get_def Let_def)

lemma take_page: "take (k * n) L @ take n (drop (k * n) L) = take (Suc k * n) L"
  using take_add [of "k * n" n L] by (simp add: add.commute)

lemma invoices_loop_serves:
  assumes "serves w se a b L" and "k \<le> max_pages" and "k * page_size \<le> length L"
  shows "fst (invoices_loop w se a b [k..<max_pages] (take (k * page_size) L) st) = Inr (take (max_pages * page_size) L) \<and>
    length (sent (snd (invoices_loop w se a b [k..<max_pages] (take (k * page_size) L) st))) =
      length (sent st) + min (max_pages - k) (Suc (length L div page_size) - k)"
  using assms(2,3)
proof (induction "max_pages - k" arbitrary: k st)
  case 0
  then show ?case by (simp add: tool_result_def)
next
  case (Suc n)
  then have k: "k < max_pages" by simp
  then have pages: "[k..<max_pages] = k # [Suc k..<max_pages]" by (rule upt_conv_Cons)
  obtain payload st1 where run: "run_query w se (invoices_query a b k) st = (Inr payload, st1)"
    and batch: "entities payload ''Invoice'' = take page_size (drop (k * page_size) L)"
    using assms(1) k unfolding serves_def by (metis prod.collapse)
  have sent1: "length (sent st1) = Suc (length (sent st))"
    using run_query_sends [of w se "invoices_query a b k" st] run by simp
  let ?batch = "take page_size (drop (k * page_size) L)"
  have step: "invoices_loop w se a b [k..<max_pages] (take (k * page_size) L) st =
      (if length ?batch < page_size then tool_ok (take (Suc k * page_size) L) st1
       else invoices_loop w se a b [Suc k..<max_pages] (take (Suc k * page_size) L) st1)"
    by (simp only: pages invoices_loop.simps tool_bind_def run batch Let_def take_page prod.case sum.case
        if_distribR)
  show ?case
  proof (cases "length ?batch < page_size")
    case True
    then have short: "length L < Suc k * page_size" using Suc.prems by simp
    have "Suc k * page_size \<le> max_pages * page_size" using k by (intro mult_le_mono1) simp
    with short have "length L \<le> max_pages * page_size" by (rule less_imp_le [OF less_le_trans])
    then have "take (Suc k * page_size) L = L" "take (max_pages * page_size) L = L"
      using short by (simp_all del: mult_Suc)
    moreover have "length L div page_size = k"
      using short Suc.prems by (intro div_nat_eqI) (simp_all add: mult.commute)
    ultimately show ?thesis unfolding step if_P [OF True] using sent1 k by (simp add: tool_result_def)
  next
    case False
    then have long: "Suc k * page_size \<le> length L" by (simp add: page_size_def split: if_splits)
    then have "Suc k \<le> length L div page_size" by (simp add: less_eq_div_iff_mult_less_eq page_size_def)
    then show ?thesis
      unfolding step if_not_P [OF False]
      using Suc.hyps(1) [of "Suc k" st1] Suc.hyps(2) k long sent1 by simp
  qed
qed

text \<open>
  C24: if QuickBooks holds the list \<open>L\<close> of the invoices dated from one day to another, fetching
  them gives all of them, each once and in QuickBooks' order, up to the first ten thousand; it
  takes one request for every full page of a thousand and one for what is left, ten at most.
\<close>
theorem range_pages_are_complete:
  assumes "holds_selection w se (range_selection first_day last_day) L"
  shows "fst (invoices_between w se first_day last_day st) = Inr (take 10000 L) \<and>
    length (sent (snd (invoices_between w se first_day last_day st))) =
      length (sent st) + min 10 (Suc (length L div 1000))"
  using invoices_loop_serves [OF holds_selection_serves [OF assms], of 0 st]
  by (simp add: invoices_between_def page_size_def max_pages_def)

text \<open>
  A QuickBooks of 2345 invoices that reads the two numbers of the query from the address.
\<close>

definition held :: "json list" where "held = map (\<lambda>n. json_int (int n)) [0..<2345]"

definition asked_page :: "string \<Rightarrow> string \<Rightarrow> nat option \<times> nat option" where
  "asked_page selection url =
     (let query = percent_decode (takeWhile (\<lambda>c. c \<noteq> CHR ''&'') (drop (length (company_url sample_session @ ''/query?query='')) url));
          numbers = drop (length (selection @ '' STARTPOSITION '')) query;
          start = takeWhile is_ascii_digit numbers in
      (digits_value 0 start, digits_value 0 (drop (length start + length '' MAXRESULTS '') numbers)))"

definition page_world :: world where
  "page_world = sample_world\<lparr>
     http_answer := (\<lambda>_ r. Answer 200 (request_url r)),
     json_parse := (\<lambda>body. case asked_page (range_selection ''2024-01-01'' ''2024-12-31'') body of
       (Some s, Some n) \<Rightarrow>
         Some (JObject [(''QueryResponse'', JObject [(''Invoice'', JArray (take n (drop (s - 1) held)))])])
     | _ \<Rightarrow> None)\<rparr>"

lemma takeWhile_encoded: "takeWhile (\<lambda>c. c \<noteq> CHR ''&'') (percent_encode q @ CHR ''&'' # rest) = percent_encode q"
proof -
  have "\<forall>c \<in> set (percent_encode q). c \<noteq> CHR ''&''"
    using percent_encode_chars [of "CHR ''&''" q] by (auto simp: is_unreserved_def ascii_defs byte_def)
  then show ?thesis by (simp add: takeWhile_append)
qed

lemma takeWhile_number: "takeWhile is_ascii_digit (show_nat s @ CHR '' '' # rest) = show_nat s"
  using show_nat_digits [of s] by (simp add: takeWhile_append is_ascii_digit_def byte_def)

lemma asked_page_url:
  "asked_page selection (get_url sample_session ''query''
     [(''query'', selection @ '' STARTPOSITION '' @ show_nat s @ '' MAXRESULTS '' @ show_nat n)]) = (Some s, Some n)"
proof -
  let ?q = "selection @ '' STARTPOSITION '' @ show_nat s @ '' MAXRESULTS '' @ show_nat n"
  have skip: "drop (length xs) (xs @ ys) = ys" for xs ys :: string by simp
  have key: "percent_encode ''query'' = ''query''" by code_simp
  have "get_url sample_session ''query'' [(''query'', ?q)] =
      (company_url sample_session @ ''/query?query='') @ percent_encode ?q @ CHR ''&'' # ''minorversion='' @ minor_version"
    by (simp add: get_url_def query_string_def key)
  then have query: "percent_decode (takeWhile (\<lambda>c. c \<noteq> CHR ''&'')
      (drop (length (company_url sample_session @ ''/query?query='')) (get_url sample_session ''query'' [(''query'', ?q)]))) = ?q"
    by (simp only: skip takeWhile_encoded percent_decode_encode)
  have numbers: "drop (length (selection @ '' STARTPOSITION '')) ?q = show_nat s @ CHR '' '' # ''MAXRESULTS '' @ show_nat n"
    by simp
  show ?thesis
    unfolding asked_page_def Let_def query numbers takeWhile_number by simp
qed

lemma page_world_holds:
  "holds_selection page_world sample_session (range_selection ''2024-01-01'' ''2024-12-31'') held"
  unfolding holds_selection_def
proof (intro allI impI)
  fix s n st
  define q where "q = range_selection ''2024-01-01'' ''2024-12-31'' @ '' STARTPOSITION '' @ show_nat s @ '' MAXRESULTS '' @ show_nat n"
  have asked: "asked_page (range_selection ''2024-01-01'' ''2024-12-31'') (get_url sample_session ''query'' [(''query'', q)]) = (Some s, Some n)"
    unfolding q_def by (rule asked_page_url)
  show "\<exists>payload.
      fst (qbo_get page_world sample_session ''query''
        [(''query'', range_selection ''2024-01-01'' ''2024-12-31'' @ '' STARTPOSITION '' @ show_nat s @ '' MAXRESULTS '' @ show_nat n)] st) =
        Inr payload \<and>
      entities payload ''Invoice'' = take n (drop (s - 1) held)"
    unfolding q_def [symmetric]
    by (simp add: qbo_get_def get_payload_def page_world_def sample_world_def Let_def asked is_success_def
        entities_def json_index_def)
qed

theorem range_pages_are_complete_witness:
  "fst (invoices_between page_world sample_session ''2024-01-01'' ''2024-12-31'' start_state) = Inr held \<and>
   length held = 2345 \<and>
   length (sent (snd (invoices_between page_world sample_session ''2024-01-01'' ''2024-12-31'' start_state))) = 3"
proof -
  have "length held = 2345" by (simp add: held_def)
  then show ?thesis
    using range_pages_are_complete [OF page_world_holds, of start_state] by (simp add: start_state_def)
qed

end
