(* ===== verification/BrokerProps.thy ===== *)
theory BrokerProps
  imports TokenBroker
begin

text \<open>
  What the token broker guarantees: stored tokens can be read back, a token handed to a job is
  the company's own, no other company's row is touched, and what happens to a token set that
  Intuit refreshed.
\<close>

section \<open>Stored values\<close>

text \<open>
  The documented behaviour of AES-GCM and base64: opening undoes sealing, the tag has sixteen
  bytes, decoding undoes encoding, and base64 text is visible ASCII.
\<close>

definition crypto_ok :: "crypto \<Rightarrow> bool" where
  "crypto_ok cr \<longleftrightarrow>
     (\<forall>key iv p c t. aead_seal cr key iv p = Some (c, t) \<longrightarrow>
        aead_open cr key iv (c @ t) = Some p \<and> length t = tag_len) \<and>
     (\<forall>bs. base64_decode cr (base64_encode cr bs) = Some bs \<and>
        (\<forall>c \<in> set (base64_encode cr bs). is_graph c))"

lemma graph_text:
  assumes "\<forall>c \<in> set s. is_graph c"
  shows "trim s = s" "to_str s = Some s"
proof -
  show "trim s = s"
  proof (cases "s = []")
    case True
    have "trim ([] :: string) = []" by code_simp
    then show ?thesis by (simp add: True)
  next
    case False
    then show ?thesis using assms by (intro trim_graph) simp_all
  qed
  have "utf8_valid s" using assms by (intro utf8_valid_ascii) (auto simp: is_graph_def)
  then show "to_str s = Some s" by (simp add: to_str_def)
qed

lemma decrypt_stored:
  assumes "crypto_ok cr" and "length iv = nonce_len" and "aead_seal cr key iv plain = Some (c, t)"
    and "utf8_valid plain"
  shows "broker_decrypt cr key (base64_encode cr (iv @ t @ c)) = Some plain"
proof -
  let ?s = "base64_encode cr (iv @ t @ c)"
  have s: "\<forall>c \<in> set ?s. is_graph c" "base64_decode cr ?s = Some (iv @ t @ c)"
    using assms(1) by (auto simp: crypto_ok_def)
  have o: "aead_open cr key iv (c @ t) = Some plain" "length t = tag_len"
    using assms(1,3) by (auto simp: crypto_ok_def)
  have "to_str plain = Some plain" using assms(4) by (simp add: to_str_def)
  then show ?thesis
    using assms(2) o by (simp add: broker_decrypt_def graph_text [OF s(1)] s(2))
qed

lemma decrypt_encrypted:
  assumes "crypto_ok cr" and "broker_encrypt cr key (Some iv) plain = Inr s" and "length iv = nonce_len"
    and "utf8_valid plain"
  shows "broker_decrypt cr key s = Some plain"
proof -
  from assms(2) obtain c t where "aead_seal cr key iv plain = Some (c, t)" "s = base64_encode cr (iv @ t @ c)"
    by (auto simp: broker_encrypt_def split: option.splits)
  then show ?thesis using decrypt_stored [OF assms(1,3)] assms(4) by simp
qed

section \<open>Steps\<close>

lemma map_of_store_tokens:
  "map_of (store_tokens company a r ae re rows) j =
     (if j = company
      then map_option (\<lambda>row. row\<lparr>company_access := Some a, company_refresh := Some r,
             access_expires := Some ae, refresh_expires := Some re\<rparr>) (map_of rows j)
      else map_of rows j)"
  by (induction rows) (auto simp: store_tokens_def)

text \<open>The table after a call differs from the one before at most by the new tokens of one company.\<close>

definition token_write :: "int \<Rightarrow> (int \<times> company_row) list \<Rightarrow> (int \<times> company_row) list \<Rightarrow> bool" where
  "token_write company before after \<longleftrightarrow>
     after = before \<or> (\<exists>a r ae re. after = store_tokens company a r ae re before)"

lemma token_write_intros:
  "token_write company rows rows"
  "token_write company rows (store_tokens company a r ae re rows)"
  unfolding token_write_def by blast+

lemma save_tokens_ok:
  assumes "save_tokens w b company t st = (Inr u, st')"
  obtains a r where "broker_encrypt (broker_crypto w) (broker_key b) (random_access w) (new_access t) = Inr a"
    "broker_encrypt (broker_crypto w) (broker_key b) (random_refresh w) (new_refresh t) = Inr r"
    "st' = st\<lparr>companies := store_tokens company a r
       (wrap_i64 (unix_now (clock_refreshed w) + expires_in t))
       (wrap_i64 (unix_now (clock_refreshed w) + refresh_expires_in t)) (companies st)\<rparr>"
  using assms
  by (auto simp: save_tokens_def Let_def split: sum.splits option.splits fault.splits)

lemma save_tokens_frame:
  assumes "save_tokens w b company t st = (r, st')"
  shows "token_requests st' = token_requests st" "token_write company (companies st) (companies st')"
proof -
  show "token_requests st' = token_requests st"
    using assms by (auto simp: save_tokens_def Let_def split: sum.splits option.splits fault.splits)
  show "token_write company (companies st) (companies st')"
    using assms
    by (auto simp: save_tokens_def Let_def token_write_intros split: sum.splits option.splits fault.splits)
qed

lemma refresh_access_frame:
  assumes "refresh_access w b company row realm blob st = (r, st')"
  shows "\<exists>reqs. token_requests st' = token_requests st @ reqs \<and> length reqs \<le> 1 \<and>
    token_write company (companies st) (companies st') \<and> (reqs = [] \<longrightarrow> st' = st)"
proof (cases "\<exists>tok i s. broker_decrypt (broker_crypto w) (broker_key b) blob = Some tok \<and>
    client_credentials (broker_crypto w) b row = Inr (i, s)")
  case False
  then have "st' = st"
    using assms by (auto simp: refresh_access_def split: option.splits sum.splits)
  then show ?thesis by (simp add: token_write_intros)
next
  case True
  then obtain tok i s where known: "broker_decrypt (broker_crypto w) (broker_key b) blob = Some tok"
    "client_credentials (broker_crypto w) b row = Inr (i, s)" by blast
  obtain x st1 where refresh: "broker_refresh w i s tok st = (x, st1)" by (cases "broker_refresh w i s tok st")
  then have st1: "companies st1 = companies st"
    "\<exists>req. token_requests st1 = token_requests st @ [req]"
    by (auto simp: broker_refresh_def Let_def)
  have "token_requests st' = token_requests st1 \<and> token_write company (companies st1) (companies st')"
  proof (cases x)
    case (Inl e)
    then have "st' = st1" using assms refresh known by (simp add: refresh_access_def)
    then show ?thesis by (simp add: token_write_intros)
  next
    case (Inr t)
    obtain y st2 where save: "save_tokens w b company t st1 = (y, st2)" by (cases "save_tokens w b company t st1")
    have "st' = st2" using assms refresh known save Inr by (cases y) (simp_all add: refresh_access_def)
    then show ?thesis using save_tokens_frame [OF save] by simp
  qed
  with st1 show ?thesis by auto
qed

lemma row_access_cases:
  assumes "row_access w b company row st = (r, st')"
  shows "st' = st \<or> (\<exists>realm blob. refresh_access w b company row realm blob st = (r, st'))"
  using assms by (auto simp: row_access_def Let_def split: option.splits if_splits)

lemma row_access_frame:
  assumes "row_access w b company row st = (r, st')"
  shows "\<exists>reqs. token_requests st' = token_requests st @ reqs \<and> length reqs \<le> 1 \<and>
    token_write company (companies st) (companies st') \<and> (reqs = [] \<longrightarrow> st' = st)"
  using row_access_cases [OF assms]
proof
  assume "st' = st"
  then show ?thesis by (simp add: token_write_intros)
qed (elim exE, rule refresh_access_frame)

lemma row_access_connected:
  assumes "row_access w b company row st = (Inr (Connected realm tok base), st')"
  obtains rt ab rb ae re where "company_enabled row" "company_realm row = Some rt" "trim rt \<noteq> []"
    "company_access row = Some ab" "company_refresh row = Some rb" "access_expires row = Some ae"
    "refresh_expires row = Some re"
    "needed_secs b \<le> wrap_i64 (ae - unix_now (clock_start w)) \<and> st' = st \<and>
       stored_access w b (trim rt) ab = Inr (Connected realm tok base) \<or>
     refresh_access w b company row (trim rt) rb st = (Inr (Connected realm tok base), st')"
  using assms by (auto simp: row_access_def Let_def not_connected_def split: option.splits if_splits)

lemma stored_access_connected:
  "stored_access w b realm' ab = Inr (Connected realm tok base) \<Longrightarrow>
   realm = realm' \<and> base = qbo_api_base (broker_environment b) \<and>
   broker_decrypt (broker_crypto w) (broker_key b) ab = Some tok"
  by (auto simp: stored_access_def broker_connected_def split: option.splits fault.splits)

lemma refresh_access_connected:
  assumes "refresh_access w b company row realm' rb st = (Inr (Connected realm tok base), st')"
  obtains old i s t a r where "realm = realm'" "base = qbo_api_base (broker_environment b)"
    "broker_decrypt (broker_crypto w) (broker_key b) rb = Some old"
    "client_credentials (broker_crypto w) b row = Inr (i, s)"
    "token_answer w (intuit w \<lparr>token_endpoint = token_url, request_client_id = i, request_client_secret = s, request_body = refresh_body old\<rparr>) = Inr t"
    "tok = new_access t"
    "broker_encrypt (broker_crypto w) (broker_key b) (random_access w) (new_access t) = Inr a"
    "broker_encrypt (broker_crypto w) (broker_key b) (random_refresh w) (new_refresh t) = Inr r"
    "companies st' = store_tokens company a r
       (wrap_i64 (unix_now (clock_refreshed w) + expires_in t))
       (wrap_i64 (unix_now (clock_refreshed w) + refresh_expires_in t)) (companies st)"
proof -
  from assms obtain old i s t st1 u where
    known: "broker_decrypt (broker_crypto w) (broker_key b) rb = Some old"
      "client_credentials (broker_crypto w) b row = Inr (i, s)"
    and refresh: "broker_refresh w i s old st = (Inr t, st1)"
    and save: "save_tokens w b company t st1 = (Inr u, st')"
    and conn: "broker_connected b realm' (new_access t) = Connected realm tok base"
    by (auto simp: refresh_access_def split: option.splits sum.splits prod.splits)
  from refresh have answer: "token_answer w (intuit w \<lparr>token_endpoint = token_url, request_client_id = i, request_client_secret = s,
        request_body = refresh_body old\<rparr>) = Inr t" and st1: "companies st1 = companies st"
    by (auto simp: broker_refresh_def Let_def)
  from conn have "realm = realm'" "base = qbo_api_base (broker_environment b)" "tok = new_access t"
    by (simp_all add: broker_connected_def)
  with known answer show ?thesis
    by (rule_tac save_tokens_ok [OF save]) (rule that, simp_all add: st1)
qed

lemma broker_access_frame:
  assumes "broker_access w b company st = (r, st')"
  shows "\<exists>reqs. token_requests st' = token_requests st @ reqs \<and> length reqs \<le> 1 \<and>
    token_write company (companies st) (companies st') \<and> (reqs = [] \<longrightarrow> st' = st)"
proof (cases "begin_failure w = None \<and> select_failure w = None \<and> map_of (companies st) company \<noteq> None")
  case True
  then obtain row where "try_access w b company st = row_access w b company row st"
    by (auto simp: try_access_def)
  moreover obtain x st2 where row: "row_access w b company row st = (x, st2)"
    by (cases "row_access w b company row st")
  ultimately have "st' = st2" using assms by (cases x) (simp_all add: broker_access_def)
  then show ?thesis using row_access_frame [OF row] by simp
next
  case False
  then have "st' = st"
    using assms by (auto simp: broker_access_def try_access_def split: option.splits)
  then show ?thesis by (simp add: token_write_intros)
qed

lemma wrap_i64_id: "in_i64 x \<Longrightarrow> wrap_i64 x = x"
  by (simp add: wrap_i64_def i64_defs)

lemma unix_now_range: "0 \<le> unix_now c" "unix_now c \<le> i64_max"
  by (auto simp: unix_now_def i64_defs split: option.split)

section \<open>Properties\<close>

text \<open>
  C21: a job gets a token only for a company that exists, has QuickBooks turned on and an
  account id, for that account on the configured server; the token is the company's stored
  one, not due to expire within the time needed, or the one Intuit gave for the company's
  refresh token.
\<close>
theorem token_is_the_companys:
  assumes "broker_access w b company st = (Connected realm tok base, st')"
  shows "\<exists>row rt ab rb ae. map_of (companies st) company = Some row \<and> company_enabled row \<and>
    company_realm row = Some rt \<and> realm = trim rt \<and> realm \<noteq> [] \<and>
    base = qbo_api_base (broker_environment b) \<and>
    company_access row = Some ab \<and> company_refresh row = Some rb \<and> access_expires row = Some ae \<and>
    (broker_decrypt (broker_crypto w) (broker_key b) ab = Some tok \<and> st' = st \<and>
       (0 \<le> ae \<and> ae \<le> i64_max \<longrightarrow> unix_now (clock_start w) + needed_secs b \<le> ae) \<or>
     (\<exists>old i s t. broker_decrypt (broker_crypto w) (broker_key b) rb = Some old \<and>
       client_credentials (broker_crypto w) b row = Inr (i, s) \<and>
       token_answer w (intuit w \<lparr>token_endpoint = token_url, request_client_id = i, request_client_secret = s,
         request_body = refresh_body old\<rparr>) = Inr t \<and> tok = new_access t))"
proof -
  from assms have call: "try_access w b company st = (Inr (Connected realm tok base), st')"
    by (auto simp: broker_access_def split: prod.splits sum.splits)
  then obtain row where row: "map_of (companies st) company = Some row"
    "row_access w b company row st = (Inr (Connected realm tok base), st')"
    by (auto simp: try_access_def not_connected_def split: option.splits)
  from row(2) obtain rt ab rb ae re where fields: "company_enabled row" "company_realm row = Some rt"
      "trim rt \<noteq> []" "company_access row = Some ab" "company_refresh row = Some rb" "access_expires row = Some ae"
    and how: "needed_secs b \<le> wrap_i64 (ae - unix_now (clock_start w)) \<and> st' = st \<and>
       stored_access w b (trim rt) ab = Inr (Connected realm tok base) \<or>
     refresh_access w b company row (trim rt) rb st = (Inr (Connected realm tok base), st')"
    by (rule row_access_connected)
  from how show ?thesis
  proof
    assume stored: "needed_secs b \<le> wrap_i64 (ae - unix_now (clock_start w)) \<and> st' = st \<and>
       stored_access w b (trim rt) ab = Inr (Connected realm tok base)"
    have "0 \<le> ae \<and> ae \<le> i64_max \<longrightarrow> unix_now (clock_start w) + needed_secs b \<le> ae"
    proof
      assume "0 \<le> ae \<and> ae \<le> i64_max"
      then have "in_i64 (ae - unix_now (clock_start w))"
        using unix_now_range [of "clock_start w"] by (simp add: i64_defs)
      then show "unix_now (clock_start w) + needed_secs b \<le> ae" using stored by (simp add: wrap_i64_id)
    qed
    moreover have "realm = trim rt" "base = qbo_api_base (broker_environment b)"
      "broker_decrypt (broker_crypto w) (broker_key b) ab = Some tok"
      using stored stored_access_connected by blast+
    ultimately show ?thesis
      using row(1) fields stored
      by (intro exI [of _ row] exI [of _ rt] exI [of _ ab] exI [of _ rb] exI [of _ ae]) simp
  next
    assume "refresh_access w b company row (trim rt) rb st = (Inr (Connected realm tok base), st')"
    then show ?thesis by (rule refresh_access_connected)
        (use row(1) fields in \<open>intro exI [of _ row] exI [of _ rt] exI [of _ ab] exI [of _ rb] exI [of _ ae]; simp\<close>)
  qed
qed

text \<open>
  C36: a call asks Intuit for new tokens at most once; it changes no row but the company's, and
  of that row only the tokens and their expiry, and nothing at all without such a request.
\<close>
theorem only_the_companys_tokens_change:
  "\<exists>reqs. token_requests (snd (broker_access w b company st)) = token_requests st @ reqs \<and>
     length reqs \<le> 1 \<and>
     (companies (snd (broker_access w b company st)) = companies st \<or>
      reqs \<noteq> [] \<and> (\<exists>a r ae re. \<forall>j. map_of (companies (snd (broker_access w b company st))) j =
        (if j = company
         then map_option (\<lambda>row. row\<lparr>company_access := Some a, company_refresh := Some r,
                access_expires := Some ae, refresh_expires := Some re\<rparr>) (map_of (companies st) j)
         else map_of (companies st) j)))"
proof -
  obtain r st' where call: "broker_access w b company st = (r, st')" by (cases "broker_access w b company st")
  obtain reqs where reqs: "token_requests st' = token_requests st @ reqs" "length reqs \<le> 1"
      "token_write company (companies st) (companies st')" "reqs = [] \<longrightarrow> st' = st"
    using broker_access_frame [OF call] by blast
  have "companies st' = companies st \<or> reqs \<noteq> [] \<and> (\<exists>a r ae re. \<forall>j. map_of (companies st') j =
        (if j = company
         then map_option (\<lambda>row. row\<lparr>company_access := Some a, company_refresh := Some r,
                access_expires := Some ae, refresh_expires := Some re\<rparr>) (map_of (companies st) j)
         else map_of (companies st) j))"
  proof (cases "companies st' = companies st")
    case False
    then obtain a r ae re where "companies st' = store_tokens company a r ae re (companies st)"
      using reqs(3) unfolding token_write_def by blast
    then have "\<forall>j. map_of (companies st') j =
        (if j = company
         then map_option (\<lambda>row. row\<lparr>company_access := Some a, company_refresh := Some r,
                access_expires := Some ae, refresh_expires := Some re\<rparr>) (map_of (companies st) j)
         else map_of (companies st) j)" by (simp add: map_of_store_tokens)
    moreover have "reqs \<noteq> []" using False reqs(4) by blast
    ultimately show ?thesis by blast
  qed simp
  then show ?thesis using reqs(1,2) by (auto simp: call)
qed

text \<open>A toy cipher and a hexadecimal text encoding behave as documented.\<close>

definition hex_text :: "bytes \<Rightarrow> string" where
  "hex_text bs = concat (map (\<lambda>c. [hex_digit (byte c div 16), hex_digit (byte c mod 16)]) bs)"

fun hex_read :: "string \<Rightarrow> bytes option" where
  "hex_read [] = Some []"
| "hex_read [c] = None"
| "hex_read (a # b # s) = map_option (\<lambda>bs. char_of (16 * hex_value a + hex_value b) # bs) (hex_read s)"

definition toy_crypto :: crypto where
  "toy_crypto = \<lparr>aead_seal = (\<lambda>key iv p. Some (p, replicate tag_len CHR ''t'')),
     aead_open = (\<lambda>key iv bs. Some (take (length bs - tag_len) bs)),
     base64_encode = hex_text, base64_decode = hex_read\<rparr>"

lemma hex_read_text: "hex_read (hex_text bs) = Some bs"
proof (induction bs)
  case (Cons c bs)
  have "byte c div 16 < 16" using byte_less [of c] by (simp add: less_mult_imp_div_less)
  moreover have "16 * (byte c div 16) + byte c mod 16 = byte c" by simp
  ultimately show ?case using Cons by (simp add: hex_text_def hex_value_digit)
qed (simp add: hex_text_def)

lemma hex_digit_graph: "n < 16 \<Longrightarrow> is_graph (hex_digit n)"
  by (auto simp: hex_digit_def is_graph_def)

lemma toy_crypto_ok: "crypto_ok toy_crypto"
proof -
  have "is_graph (hex_digit (byte d div 16))" "is_graph (hex_digit (byte d mod 16))" for d
    using byte_less [of d] by (auto intro!: hex_digit_graph simp: less_mult_imp_div_less)
  then have "\<forall>c \<in> set (hex_text bs). is_graph c" for bs by (auto simp: hex_text_def)
  then show ?thesis by (simp add: crypto_ok_def toy_crypto_def hex_read_text)
qed

definition sample_iv :: bytes where "sample_iv = replicate nonce_len CHR ''i''"

definition toy_stored :: "bytes \<Rightarrow> string" where
  "toy_stored plain = hex_text (sample_iv @ replicate tag_len CHR ''t'' @ plain)"

lemma toy_encrypt: "broker_encrypt toy_crypto key (Some sample_iv) plain = Inr (toy_stored plain)"
  by (simp add: broker_encrypt_def toy_crypto_def toy_stored_def)

lemma sample_iv_length: "length sample_iv = nonce_len"
  by (simp add: sample_iv_def)

lemma toy_decrypt: "utf8_valid plain \<Longrightarrow> broker_decrypt toy_crypto key (toy_stored plain) = Some plain"
  by (rule decrypt_encrypted [OF toy_crypto_ok toy_encrypt sample_iv_length])

lemma ascii_samples: "utf8_valid ''old''" "utf8_valid ''new''" "utf8_valid ''acc''" "utf8_valid ''ref''"
  by (simp_all add: utf8_valid_ascii byte_def)

section \<open>A refresh, concretely\<close>

definition sample_row :: company_row where
  "sample_row = \<lparr>company_enabled = True, company_realm = Some ''9'',
     company_access = Some (toy_stored ''acc''), company_refresh = Some (toy_stored ''ref''),
     access_expires = Some 1500, refresh_expires = Some 90000,
     company_client_id = None, company_client_secret = None\<rparr>"

definition sample_broker :: broker where
  "sample_broker = \<lparr>broker_key = ''k'', app_credentials = Some (''client-ident'', ''client-secret''),
     broker_environment = Production, valid_for = 7200\<rparr>"

lemma sample_row_fields:
  "company_enabled sample_row" "company_realm sample_row = Some ''9''"
  "company_access sample_row = Some (toy_stored ''acc'')" "company_refresh sample_row = Some (toy_stored ''ref'')"
  "access_expires sample_row = Some 1500" "refresh_expires sample_row = Some 90000"
  by (simp_all add: sample_row_def)

text \<open>Intuit's tokens live for an hour, those of a \<open>short\<close> answer for a minute.\<close>

definition sample_broker_world :: broker_world where
  "sample_broker_world = \<lparr>broker_crypto = toy_crypto,
     broker_serde = \<lparr>serde_parse = (\<lambda>body. Inr (JArray [JString ''new'', JString ''old'',
         JNumber (PosInt (if body = ''short'' then 60 else 3600)), JNumber (PosInt 8640000)])),
       serde_shape_error = (\<lambda>_. []), serde_f64 = (\<lambda>_. 0)\<rparr>,
     http_status_text = show_nat, begin_failure = None, select_failure = None, update_failure = None,
     commit_fault = Answered, clock_start = Some 1000, clock_refreshed = Some 1001,
     random_access = Some sample_iv, random_refresh = Some sample_iv,
     intuit = (\<lambda>_. TokenAnswer 200 ''[]'')\<rparr>"

definition sample_state :: broker_state where
  "sample_state = \<lparr>companies = [(7, sample_row)], token_requests = []\<rparr>"

definition sample_request :: token_request where
  "sample_request = \<lparr>token_endpoint = token_url, request_client_id = ''client-ident'', request_client_secret = ''client-secret'',
     request_body = refresh_body ''ref''\<rparr>"

lemma sample_answer: "token_answer sample_broker_world (TokenAnswer 200 ''[]'') =
    Inr \<lparr>new_access = ''new'', new_refresh = ''old'', expires_in = 3600, refresh_expires_in = 8640000\<rparr>"
  by (simp add: token_answer_def sample_broker_world_def i64_max_def)

lemma sample_trim: "trim ''9'' = ''9''"
  by (simp add: trim_graph is_graph_def byte_def)

lemma sample_save:
  "save_tokens sample_broker_world sample_broker 7
     \<lparr>new_access = ''new'', new_refresh = ''old'', expires_in = 3600, refresh_expires_in = 8640000\<rparr> st =
   (Inr (), st\<lparr>companies := store_tokens 7 (toy_stored ''new'') (toy_stored ''old'') 4601 8641001 (companies st)\<rparr>)"
proof -
  have "wrap_i64 4601 = 4601" "wrap_i64 8641001 = 8641001" by (simp_all add: wrap_i64_id i64_defs)
  moreover have "unix_now (Some 1001) = 1001" by (simp add: unix_now_def i64_max_def)
  ultimately show ?thesis
    by (simp add: save_tokens_def sample_broker_world_def toy_encrypt Let_def)
qed

lemma sample_access:
  "broker_access sample_broker_world sample_broker 7 sample_state =
     (Connected ''9'' ''new'' ''https://quickbooks.api.intuit.com'',
      \<lparr>companies = store_tokens 7 (toy_stored ''new'') (toy_stored ''old'') 4601 8641001 [(7, sample_row)],
       token_requests = [sample_request]\<rparr>)"
proof -
  have now: "unix_now (Some 1000) = 1000" by (simp add: unix_now_def i64_max_def)
  have wrap: "wrap_i64 500 = 500" "wrap_i64 1060 = 1060" by (simp_all add: wrap_i64_id i64_defs)
  have creds: "client_credentials toy_crypto sample_broker sample_row = Inr (''client-ident'', ''client-secret'')"
    by (simp add: client_credentials_def own_credential_def sample_row_def sample_broker_def)
  have needed: "needed_secs sample_broker = 7200"
    by (simp add: needed_secs_def sample_broker_def i64_max_def)
  have world: "broker_crypto sample_broker_world = toy_crypto" "clock_start sample_broker_world = Some 1000"
    "begin_failure sample_broker_world = None" "select_failure sample_broker_world = None"
    "intuit sample_broker_world = (\<lambda>_. TokenAnswer 200 ''[]'')"
    by (simp_all add: sample_broker_world_def)
  have "refresh_access sample_broker_world sample_broker 7 sample_row ''9'' (toy_stored ''ref'') sample_state =
      (Inr (Connected ''9'' ''new'' ''https://quickbooks.api.intuit.com''),
       \<lparr>companies = store_tokens 7 (toy_stored ''new'') (toy_stored ''old'') 4601 8641001 [(7, sample_row)],
        token_requests = [sample_request]\<rparr>)"
    by (simp add: refresh_access_def world toy_decrypt ascii_samples creds broker_refresh_def Let_def
        sample_answer sample_save broker_connected_def sample_state_def sample_request_def)
      (simp add: sample_broker_def)
  then have "row_access sample_broker_world sample_broker 7 sample_row sample_state =
      (Inr (Connected ''9'' ''new'' ''https://quickbooks.api.intuit.com''),
       \<lparr>companies = store_tokens 7 (toy_stored ''new'') (toy_stored ''old'') 4601 8641001 [(7, sample_row)],
        token_requests = [sample_request]\<rparr>)"
    by (simp add: row_access_def sample_row_fields world now wrap needed sample_trim Let_def)
  then show ?thesis
    by (simp add: broker_access_def try_access_def world sample_state_def)
qed

theorem token_is_the_companys_witness:
  "\<exists>old i s t. broker_decrypt toy_crypto ''k'' (toy_stored ''ref'') = Some old \<and>
     token_answer sample_broker_world (intuit sample_broker_world
       \<lparr>token_endpoint = token_url, request_client_id = i, request_client_secret = s, request_body = refresh_body old\<rparr>) = Inr t \<and>
     new_access t = ''new''"
  using token_is_the_companys [OF sample_access]
  by (auto simp: sample_state_def sample_row_def sample_broker_def sample_broker_world_def toy_decrypt ascii_samples)

text \<open>
  C22: the tokens of a refresh are stored: after a call that handed one out and changed the
  row, the row's columns decrypt to that token and to the new refresh token, so the next call
  goes on from them.
\<close>
theorem refreshed_tokens_are_stored:
  assumes "crypto_ok (broker_crypto w)"
    and "broker_access w b company st = (Connected realm tok base, st')" and "companies st' \<noteq> companies st"
    and "random_access w = Some iv" and "random_refresh w = Some iv'"
    and "length iv = nonce_len" and "length iv' = nonce_len"
    and "\<forall>reply t. token_answer w reply = Inr t \<longrightarrow> utf8_valid (new_access t) \<and> utf8_valid (new_refresh t)"
  shows "\<exists>row a r t reply. map_of (companies st') company = Some row \<and>
    company_access row = Some a \<and> broker_decrypt (broker_crypto w) (broker_key b) a = Some tok \<and>
    token_answer w reply = Inr t \<and> tok = new_access t \<and>
    company_refresh row = Some r \<and> broker_decrypt (broker_crypto w) (broker_key b) r = Some (new_refresh t) \<and>
    access_expires row = Some (wrap_i64 (unix_now (clock_refreshed w) + expires_in t))"
proof -
  from assms(2) have call: "try_access w b company st = (Inr (Connected realm tok base), st')"
    by (auto simp: broker_access_def split: prod.splits sum.splits)
  then obtain row where row: "map_of (companies st) company = Some row"
    "row_access w b company row st = (Inr (Connected realm tok base), st')"
    by (auto simp: try_access_def not_connected_def split: option.splits)
  from row(2) obtain rt rb where
    "refresh_access w b company row (trim rt) rb st = (Inr (Connected realm tok base), st')"
    by (rule row_access_connected) (use assms(3) in blast)
  then show ?thesis
  proof (rule refresh_access_connected)
    fix old i s t a r
    assume answer: "token_answer w (intuit w \<lparr>token_endpoint = token_url, request_client_id = i, request_client_secret = s,
          request_body = refresh_body old\<rparr>) = Inr t"
      and tok: "tok = new_access t"
      and a: "broker_encrypt (broker_crypto w) (broker_key b) (random_access w) (new_access t) = Inr a"
      and r: "broker_encrypt (broker_crypto w) (broker_key b) (random_refresh w) (new_refresh t) = Inr r"
      and after: "companies st' = store_tokens company a r
        (wrap_i64 (unix_now (clock_refreshed w) + expires_in t))
        (wrap_i64 (unix_now (clock_refreshed w) + refresh_expires_in t)) (companies st)"
    have "broker_decrypt (broker_crypto w) (broker_key b) a = Some tok"
      "broker_decrypt (broker_crypto w) (broker_key b) r = Some (new_refresh t)"
      using decrypt_encrypted [OF assms(1) _ assms(6)] decrypt_encrypted [OF assms(1) _ assms(7)]
        assms(4,5) assms(8) answer a r tok by auto
    then show ?thesis
      using answer tok row(1) by (simp add: after map_of_store_tokens) blast
  qed
qed

lemma sample_answer_tokens:
  "token_answer sample_broker_world reply = Inr t \<Longrightarrow> new_access t = ''new'' \<and> new_refresh t = ''old''"
  by (auto simp: token_answer_def sample_broker_world_def i64_max_def split: token_reply.splits if_splits)

theorem refreshed_tokens_are_stored_witness:
  "\<exists>a. broker_decrypt toy_crypto ''k'' a = Some ''new''"
proof -
  let ?st' = "\<lparr>companies = store_tokens 7 (toy_stored ''new'') (toy_stored ''old'') 4601 8641001 [(7, sample_row)],
       token_requests = [sample_request]\<rparr>"
  have w: "crypto_ok (broker_crypto sample_broker_world)" "random_access sample_broker_world = Some sample_iv"
    "random_refresh sample_broker_world = Some sample_iv"
    by (simp_all add: sample_broker_world_def toy_crypto_ok)
  have changed: "companies ?st' \<noteq> companies sample_state"
    by (simp add: sample_state_def store_tokens_def sample_row_def)
  have utf8: "\<forall>reply t. token_answer sample_broker_world reply = Inr t \<longrightarrow>
      utf8_valid (new_access t) \<and> utf8_valid (new_refresh t)"
    using sample_answer_tokens ascii_samples by (intro allI impI) metis
  have k: "broker_crypto sample_broker_world = toy_crypto" "broker_key sample_broker = ''k''"
    by (simp_all add: sample_broker_world_def sample_broker_def)
  from refreshed_tokens_are_stored [OF w(1) sample_access changed w(2,3) sample_iv_length sample_iv_length utf8]
  show ?thesis unfolding k by blast
qed

section \<open>The lifetime of a new token\<close>

text \<open>Another Intuit changes nothing but the answer to the refresh.\<close>

lemma save_tokens_intuit: "save_tokens (w\<lparr>intuit := g\<rparr>) = save_tokens w"
  by (intro ext) (simp add: save_tokens_def Let_def cong: option.case_cong sum.case_cong fault.case_cong)

lemma token_answer_intuit: "token_answer (w\<lparr>intuit := g\<rparr>) = token_answer w"
  by (intro ext) (simp add: token_answer_def split: token_reply.split sum.split)

lemma row_access_refreshes:
  assumes "row_access w b company row st = (r, st')" and "st' \<noteq> st"
  obtains realm blob where "row_access w b company row st = refresh_access w b company row realm blob st"
    "\<And>g. row_access (w\<lparr>intuit := g\<rparr>) b company row st = refresh_access (w\<lparr>intuit := g\<rparr>) b company row realm blob st"
proof -
  obtain ab rb ae re where cols: "company_enabled row" "company_access row = Some ab" "company_refresh row = Some rb"
    "access_expires row = Some ae" "refresh_expires row = Some re"
    using assms by (auto simp: row_access_def Let_def split: if_splits option.splits)
  show thesis
    by (rule that [of "case company_realm row of None \<Rightarrow> [] | Some r \<Rightarrow> trim r" rb])
      (use assms cols in \<open>auto simp: row_access_def Let_def split: if_splits\<close>)
qed

lemma refresh_access_lifetime:
  assumes run: "refresh_access w b company row realm blob st = (Inr x, st')"
    and other: "\<forall>req t. token_answer w (intuit w req) = Inr t \<longrightarrow>
      token_answer w (g req) = Inr (t\<lparr>expires_in := e\<rparr>)"
  obtains a r re st2 where
    "refresh_access (w\<lparr>intuit := g\<rparr>) b company row realm blob st = (Inr x, st2)"
    "token_requests st2 = token_requests st'"
    "companies st2 = store_tokens company a r (wrap_i64 (unix_now (clock_refreshed w) + e)) re (companies st)"
proof -
  from run obtain tok i s t st1 where
    tok: "broker_decrypt (broker_crypto w) (broker_key b) blob = Some tok"
    and cred: "client_credentials (broker_crypto w) b row = Inr (i, s)"
    and ref: "broker_refresh w i s tok st = (Inr t, st1)"
    and save: "save_tokens w b company t st1 = (Inr (), st')"
    and x: "x = broker_connected b realm (new_access t)"
    by (auto simp: refresh_access_def split: option.splits sum.splits prod.splits)
  have st1: "companies st1 = companies st" and ref': "broker_refresh (w\<lparr>intuit := g\<rparr>) i s tok st = (Inr (t\<lparr>expires_in := e\<rparr>), st1)"
    using ref other by (auto simp: broker_refresh_def Let_def token_answer_intuit)
  from save obtain a r where
    enc: "broker_encrypt (broker_crypto w) (broker_key b) (random_access w) (new_access t) = Inr a"
      "broker_encrypt (broker_crypto w) (broker_key b) (random_refresh w) (new_refresh t) = Inr r"
    and fine: "update_failure w = None" "commit_fault w = Answered"
    and st': "token_requests st' = token_requests st1"
    by (auto simp: save_tokens_def Let_def split: sum.splits option.splits fault.splits)
  let ?st2 = "st1\<lparr>companies := store_tokens company a r (wrap_i64 (unix_now (clock_refreshed w) + e))
    (wrap_i64 (unix_now (clock_refreshed w) + refresh_expires_in t)) (companies st)\<rparr>"
  have "save_tokens w b company (t\<lparr>expires_in := e\<rparr>) st1 = (Inr (), ?st2)"
    by (simp add: save_tokens_def Let_def enc fine st1)
  then have "refresh_access (w\<lparr>intuit := g\<rparr>) b company row realm blob st = (Inr x, ?st2)"
    by (simp add: refresh_access_def tok cred ref' save_tokens_intuit x)
  then show thesis by (rule that) (simp_all add: st')
qed


text \<open>A token of one minute, for a job of up to two hours.\<close>

definition minute_answer :: "token_request \<Rightarrow> token_reply" where
  "minute_answer req = TokenAnswer 200 ''short''"


section \<open>Keys with signs\<close>

lemma hex_bytes_signed: "hex_bytes (concat (replicate n ''+a'')) = Some (replicate n (char_of (10::nat)))"
  by (induction n) (simp_all add: hex_pair_def hex_digit_value_def is_ascii_digit_def byte_def)

text \<open>A key of 32 pairs \<open>+a\<close> is accepted, although half of its characters are not hexadecimal.\<close>

lemma signed_key_is_accepted:
  "parse_key (concat (replicate 32 ''+a'')) = Inr (replicate 32 (char_of (10::nat)))"
proof -
  let ?s = "concat (replicate 32 ''+a'')"
  have "hd ?s = CHR ''+''" "last ?s = CHR ''a''" "length ?s = 64" by (simp_all add: numeral_eq_Suc)
  then have "trim ?s = ?s" "length ?s = 64" by (auto intro!: trim_graph simp: is_graph_def byte_def)
  then show ?thesis by (simp only: parse_key_def hex_bytes_signed) simp
qed

end
