(* ===== verification/Mcp.thy ===== *)
theory Mcp
  imports QboTools
begin

text \<open>
  \<open>crates/jobctl-mcp/src/main.rs\<close>: the MCP server of a job. It reads JSON-RPC messages line by
  line, keeps one database connection that it opens on first use, and offers the \<open>sql\<close> tool
  and, when the job has a QuickBooks session, the \<open>qbo_*\<close> tools.
\<close>

section \<open>The server\<close>

text \<open>
  On top of the tools' world: reading JSON with its error text, the variable \<open>DATABASE_URL\<close>, the
  URL parser's complaint, connection attempt \<open>n\<close>, and the rows or error of a statement.
\<close>

record mcp_world =
  mcp_tools_world :: world
  mcp_parse :: "string \<Rightarrow> string + json"
  database_url_var :: "string option"
  url_complaint :: "string \<Rightarrow> string option"
  connect_failure :: "nat \<Rightarrow> sqlx_error option"
  sql_answer :: "nat \<Rightarrow> string \<Rightarrow> sqlx_error + (string list \<times> bytes option list) list"

record server =
  conn_open :: bool
  server_session :: "session option"
  server_state :: tool_state
  connects :: nat

definition default_protocol_version :: string where "default_protocol_version = ''2025-06-18''"

section \<open>The connection\<close>

definition mcp_connect :: "mcp_world \<Rightarrow> nat \<Rightarrow> jobctl_error + unit" where
  "mcp_connect w n =
     (case database_url_var w of
        None \<Rightarrow> Inl (ConfigError ''DATABASE_URL is not set; no database is configured for this job'')
      | Some url \<Rightarrow>
          (case url_complaint w url of
             Some e \<Rightarrow> Inl (ConfigError (''invalid DATABASE_URL: '' @ e))
           | None \<Rightarrow>
               (case connect_failure w n of
                  Some e \<Rightarrow> Inl (DbError e)
                | None \<Rightarrow> Inr ())))"

definition mcp_connection :: "mcp_world \<Rightarrow> server \<Rightarrow> (jobctl_error + unit) \<times> server" where
  "mcp_connection w srv =
     (if conn_open srv then (Inr (), srv)
      else (case mcp_connect w (connects srv) of
              Inl e \<Rightarrow> (Inl e, srv\<lparr>connects := Suc (connects srv)\<rparr>)
            | Inr _ \<Rightarrow> (Inr (), srv\<lparr>conn_open := True, connects := Suc (connects srv)\<rparr>)))"

fun is_connection_error :: "sqlx_error \<Rightarrow> bool" where
  "is_connection_error (SqlxIo m) = True"
| "is_connection_error (SqlxProtocol m) = True"
| "is_connection_error (SqlxTls m) = True"
| "is_connection_error _ = False"

fun breaks_connection :: "jobctl_error + 'a \<Rightarrow> bool" where
  "breaks_connection (Inl (DbError e)) = is_connection_error e"
| "breaks_connection _ = False"

definition forget_broken_connection :: "jobctl_error + 'a \<Rightarrow> server \<Rightarrow> server" where
  "forget_broken_connection outcome srv =
     (if breaks_connection outcome then srv\<lparr>conn_open := False\<rparr> else srv)"

section \<open>Tools\<close>

definition sql_description :: string where
  "sql_description =
     ''Run one SQL statement against the company's MySQL database '' @
     ''(read-only login) and return the result as tab-separated text with a header '' @
     ''row. Use it for SELECT, SHOW TABLES, DESCRIBE <table>, SHOW CREATE TABLE <table>, etc.''"

definition sql_tool :: json where
  "sql_tool =
     json_object
       [(''name'', JString ''sql''), (''description'', JString sql_description),
        (''inputSchema'', json_object
          [(''type'', JString ''object''),
           (''properties'', json_object [(''sql'', schema_entry ''string'' ''the SQL statement'')]),
           (''required'', JArray [JString ''sql''])])]"

definition mcp_tools :: "session option \<Rightarrow> json" where
  "mcp_tools se =
     JArray (sql_tool # (case se of None \<Rightarrow> [] | Some s \<Rightarrow> qbo_tools (scope_is_admin (session_scope s))))"

definition mcp_sql :: "mcp_world \<Rightarrow> string \<Rightarrow> server \<Rightarrow> (jobctl_error + string) \<times> server" where
  "mcp_sql w statement srv =
     (if trim statement = [] then (Inl (ConfigError ''the sql argument is empty''), srv)
      else
        (case mcp_connection w srv of
           (Inl e, srv1) \<Rightarrow> (Inl e, srv1)
         | (Inr _, srv1) \<Rightarrow>
             (let n = statements (server_state srv1);
                  outcome = (case sql_answer w n statement of
                               Inl e \<Rightarrow> Inl (DbError e) | Inr rows \<Rightarrow> Inr (render_rows rows));
                  srv2 = srv1\<lparr>server_state := (server_state srv1)\<lparr>statements := Suc n\<rparr>\<rparr>
              in (outcome, forget_broken_connection outcome srv2))))"

definition mcp_qbo ::
  "mcp_world \<Rightarrow> string \<Rightarrow> json \<Rightarrow> server \<Rightarrow> (jobctl_error + string) option \<times> server" where
  "mcp_qbo w name arguments srv =
     (case server_session srv of
        None \<Rightarrow> (None, srv)
      | Some se \<Rightarrow>
          (case authorize se name of
             None \<Rightarrow> (None, srv)
           | Some (Inl e) \<Rightarrow> (Some (Inl e), srv)
           | Some (Inr _) \<Rightarrow>
               (case mcp_connection w srv of
                  (Inl e, srv1) \<Rightarrow> (Some (Inl e), srv1)
                | (Inr _, srv1) \<Rightarrow>
                    (case session_call (mcp_tools_world w) se name arguments (server_state srv1) of
                       (None, st) \<Rightarrow> (None, srv1\<lparr>server_state := st\<rparr>)
                     | (Some outcome, st) \<Rightarrow>
                         (Some outcome, forget_broken_connection outcome (srv1\<lparr>server_state := st\<rparr>))))))"

fun text_and_flag :: "jobctl_error + string \<Rightarrow> string \<times> bool" where
  "text_and_flag (Inr text') = (text', False)"
| "text_and_flag (Inl e) = (jobctl_error_text e, True)"

definition mcp_call :: "mcp_world \<Rightarrow> string \<Rightarrow> json \<Rightarrow> server \<Rightarrow> (string \<times> bool) option \<times> server" where
  "mcp_call w name arguments srv =
     (if name = ''sql''
      then (case mcp_sql w (str_or_empty arguments ''sql'') srv of
              (outcome, srv') \<Rightarrow> (Some (text_and_flag outcome), srv'))
      else (case strip_prefix ''qbo_'' name of
              None \<Rightarrow> (None, srv)
            | Some tool \<Rightarrow>
                (case mcp_qbo w tool arguments srv of
                   (None, srv') \<Rightarrow> (None, srv')
                 | (Some outcome, srv') \<Rightarrow> (Some (text_and_flag outcome), srv'))))"

section \<open>Messages\<close>

definition mcp_error :: "json \<Rightarrow> int \<Rightarrow> string \<Rightarrow> json" where
  "mcp_error i code message =
     json_object
       [(''jsonrpc'', JString ''2.0''), (''id'', i),
        (''error'', json_object [(''code'', json_int code), (''message'', JString message)])]"

definition mcp_result :: "json \<Rightarrow> json \<Rightarrow> json" where
  "mcp_result i r = json_object [(''jsonrpc'', JString ''2.0''), (''id'', i), (''result'', r)]"

definition mcp_initialize :: "json \<Rightarrow> json" where
  "mcp_initialize params =
     json_object
       [(''protocolVersion'',
         JString (case as_str (json_index params ''protocolVersion'') of
                    None \<Rightarrow> default_protocol_version | Some v \<Rightarrow> v)),
        (''capabilities'', json_object [(''tools'', json_object [])]),
        (''serverInfo'', json_object [(''name'', JString ''jobctl''), (''version'', JString ''0.1.0'')])]"

definition mcp_handle :: "mcp_world \<Rightarrow> json \<Rightarrow> server \<Rightarrow> json option \<times> server" where
  "mcp_handle w message srv =
     (case json_get message ''id'' of
        None \<Rightarrow> (None, srv)
      | Some i \<Rightarrow>
          (let params = json_index message ''params''; meth = str_or_empty message ''method'' in
           if meth = ''initialize'' then (Some (mcp_result i (mcp_initialize params)), srv)
           else if meth = ''tools/list''
           then (Some (mcp_result i (json_object [(''tools'', mcp_tools (server_session srv))])), srv)
           else if meth = ''tools/call''
           then
             (let name = str_or_empty params ''name'' in
              case mcp_call w name (json_index params ''arguments'') srv of
                (None, srv') \<Rightarrow>
                  (Some (mcp_error i (- 32602) (''unknown tool '' @ debug_text (mcp_tools_world w) name)), srv')
              | (Some (t, is_error), srv') \<Rightarrow>
                  (Some (mcp_result i (json_object
                     [(''content'', JArray [json_object [(''type'', JString ''text''), (''text'', JString t)]]),
                      (''isError'', JBool is_error)])), srv'))
           else if meth = ''ping'' then (Some (mcp_result i (json_object [])), srv)
           else (Some (mcp_error i (- 32601) (''method not found: '' @ meth)), srv)))"

section \<open>The main loop\<close>

datatype input = InputLine string | InputError string

text \<open>
  The replies written, whether the process succeeds, and the server. \<open>writable\<close> says which
  writes to standard output succeed.
\<close>

fun mcp_loop ::
  "mcp_world \<Rightarrow> (nat \<Rightarrow> bool) \<Rightarrow> input list \<Rightarrow> server \<Rightarrow> string list \<Rightarrow> string list \<times> bool \<times> server" where
  "mcp_loop w writable [] srv out = (out, True, srv)"
| "mcp_loop w writable (InputError e # rest) srv out = (out, False, srv)"
| "mcp_loop w writable (InputLine l # rest) srv out =
     (if trim l = [] then mcp_loop w writable rest srv out
      else
        (case (case mcp_parse w l of
                 Inr message \<Rightarrow> mcp_handle w message srv
               | Inl e \<Rightarrow> (Some (mcp_error JNull (- 32700) (''parse error: '' @ e)), srv)) of
           (None, srv') \<Rightarrow> mcp_loop w writable rest srv' out
         | (Some reply, srv') \<Rightarrow>
             if writable (length out)
             then mcp_loop w writable rest srv'
                    (out @ [json_text (mcp_tools_world w) reply @ [newline]])
             else (out, False, srv')))"

definition mcp_main ::
  "mcp_world \<Rightarrow> (nat \<Rightarrow> bool) \<Rightarrow> (string \<Rightarrow> string option) \<Rightarrow> input list \<Rightarrow> string list \<times> bool \<times> server" where
  "mcp_main w writable env lines =
     mcp_loop w writable lines
       \<lparr>conn_open = False,
        server_session = (case session_from_env (mcp_tools_world w) env of Inr se \<Rightarrow> se | Inl e \<Rightarrow> None),
        server_state = \<lparr>sent = [], statements = 0\<rparr>, connects = 0\<rparr> []"

section \<open>Lemmas\<close>

lemma reply_fields:
  "json_index (mcp_error i c m) ''id'' = i" "json_index (mcp_error i c m) ''jsonrpc'' = JString ''2.0''"
  "json_get (mcp_error i c m) ''result'' = None" "json_get (mcp_error i c m) ''error'' \<noteq> None"
  "json_index (mcp_result i r) ''id'' = i" "json_index (mcp_result i r) ''jsonrpc'' = JString ''2.0''"
  "json_get (mcp_result i r) ''result'' = Some r" "json_get (mcp_result i r) ''error'' = None"
  by (simp_all add: mcp_error_def mcp_result_def)

lemma mcp_handle_notification: "json_get message ''id'' = None \<Longrightarrow> mcp_handle w message srv = (None, srv)"
  by (simp add: mcp_handle_def)

definition is_reply_to :: "json \<Rightarrow> json \<Rightarrow> bool" where
  "is_reply_to i reply \<longleftrightarrow>
     json_index reply ''id'' = i \<and> json_index reply ''jsonrpc'' = JString ''2.0'' \<and>
     ((json_get reply ''result'' = None) \<noteq> (json_get reply ''error'' = None))"

lemma is_reply_to_built: "is_reply_to i (mcp_error i c m)" "is_reply_to i (mcp_result i r)"
  unfolding is_reply_to_def reply_fields by (simp_all add: reply_fields)

lemma mcp_handle_request:
  assumes "json_get message ''id'' = Some i"
  shows "\<exists>reply srv'. mcp_handle w message srv = (Some reply, srv') \<and> is_reply_to i reply"
  unfolding mcp_handle_def assms option.case Let_def
  by (auto simp: is_reply_to_built split: prod.split option.split)

text \<open>A line the client waits for an answer to.\<close>

definition expects_reply :: "mcp_world \<Rightarrow> string \<Rightarrow> bool" where
  "expects_reply w l \<longleftrightarrow>
     trim l \<noteq> [] \<and> (case mcp_parse w l of Inl e \<Rightarrow> True | Inr m \<Rightarrow> json_get m ''id'' \<noteq> None)"

lemma mcp_loop_answers:
  "\<exists>srv'. mcp_loop w (\<lambda>_. True) (map InputLine ls) srv out =
     (fst (mcp_loop w (\<lambda>_. True) (map InputLine ls) srv out), True, srv') \<and>
   length (fst (mcp_loop w (\<lambda>_. True) (map InputLine ls) srv out)) = length out + length (filter (expects_reply w) ls)"
proof (induction ls arbitrary: srv out)
  case (Cons l ls)
  show ?case
  proof (cases "trim l = []")
    case True
    then show ?thesis using Cons.IH [of srv out] by (simp add: expects_reply_def)
  next
    case False
    let ?answer = "(case mcp_parse w l of
        Inr message \<Rightarrow> mcp_handle w message srv
      | Inl e \<Rightarrow> (Some (mcp_error JNull (- 32700) (''parse error: '' @ e)), srv))"
    obtain reply srv1 where answer: "?answer = (reply, srv1)" by (cases ?answer)
    have "reply \<noteq> None \<longleftrightarrow> expects_reply w l"
    proof (cases "mcp_parse w l")
      case (Inr m)
      then show ?thesis
        using answer False mcp_handle_notification [of m w srv] mcp_handle_request [of m _ w srv]
        by (cases "json_get m ''id''") (auto simp: expects_reply_def)
    qed (use answer False in \<open>auto simp: expects_reply_def\<close>)
    then show ?thesis
      using False answer Cons.IH [of srv1] by (cases reply) simp_all
  qed
qed simp

lemma run_tool_known: "authorize se name = Some (Inr u) \<Longrightarrow> run_tool w se name args \<noteq> None"
proof -
  assume "authorize se name = Some (Inr u)"
  then have "name \<in> tool_name ` set tool_specs" using authorize_None_iff [of se name] by simp
  then have "name \<in> set (map fst (map (\<lambda>t. (tool_name t, admin_only t)) tool_specs))" by (simp add: image_image)
  then have "name \<in> {''search_customers'', ''customer_invoices'', ''invoice'', ''sales_rep'',
      ''invoices_in_range'', ''class_sales'', ''query'', ''report''}"
    unfolding tool_names by simp
  then show ?thesis by (elim insertE) (simp_all add: run_tool_def)
qed

lemma session_call_None_iff: "fst (session_call w se name args st) = None \<longleftrightarrow> authorize se name = None"
proof (cases "authorize se name")
  case (Some r)
  show ?thesis
  proof (cases r)
    case (Inr u)
    then obtain tool where "run_tool w se name args = Some tool" using run_tool_known [of se name u w args] Some by auto
    then show ?thesis using Some Inr by (simp add: session_call_def split: prod.split sum.split)
  qed (simp add: session_call_def Some)
qed (simp add: session_call_def)

lemma mcp_qbo_None_iff:
  "fst (mcp_qbo w tool arguments srv) = None \<longleftrightarrow>
     (\<forall>se. server_session srv = Some se \<longrightarrow> authorize se tool = None)"
proof (cases "server_session srv")
  case (Some se)
  show ?thesis
  proof (cases "authorize se tool")
    case auth: (Some r)
    have "session_call (mcp_tools_world w) se tool arguments st \<noteq> (None, st')" for st st'
      using session_call_None_iff [of "mcp_tools_world w" se tool arguments st] auth by auto
    then show ?thesis
      using Some auth by (cases r) (auto simp: mcp_qbo_def split: prod.split sum.split option.split)
  qed (simp add: mcp_qbo_def Some)
qed (simp add: mcp_qbo_def)

section \<open>Properties\<close>

text \<open>
  C37: the server answers every message that has an id, and a line that is no JSON, exactly
  once, with that id and either a result or an error; notifications and blank lines get no
  answer and change nothing; and at the end of its input the process ends well.
\<close>
theorem every_request_is_answered_once:
  "(json_get message ''id'' = None \<longrightarrow> mcp_handle w message srv = (None, srv)) \<and>
   (json_get message ''id'' = Some i \<longrightarrow>
      (\<exists>reply srv'. mcp_handle w message srv = (Some reply, srv') \<and> is_reply_to i reply)) \<and>
   (\<exists>out srv'. mcp_main w (\<lambda>_. True) env (map InputLine ls) = (out, True, srv') \<and>
      length out = length (filter (expects_reply w) ls))"
proof (intro conjI)
  show "json_get message ''id'' = None \<longrightarrow> mcp_handle w message srv = (None, srv)"
    using mcp_handle_notification by blast
  show "json_get message ''id'' = Some i \<longrightarrow>
      (\<exists>reply srv'. mcp_handle w message srv = (Some reply, srv') \<and> is_reply_to i reply)"
    using mcp_handle_request by blast
  show "\<exists>out srv'. mcp_main w (\<lambda>_. True) env (map InputLine ls) = (out, True, srv') \<and>
      length out = length (filter (expects_reply w) ls)"
    unfolding mcp_main_def using mcp_loop_answers [of w ls _ "[]"] by fastforce
qed

text \<open>
  A tool name is unknown to the server exactly when it is not among the tools of the
  job: \<open>sql\<close>, and with a QuickBooks session the catalogue; every listed tool can be called.
\<close>
theorem unknown_tools_are_the_unlisted:
  "(fst (mcp_call w name arguments srv) = None) =
     (JString name \<notin> (\<lambda>t. json_index t ''name'') `
        set (sql_tool # (case server_session srv of None \<Rightarrow> [] | Some se \<Rightarrow> qbo_tools True))) \<and>
   (JString name \<notin> (\<lambda>t. json_index t ''name'') ` set (json_list (mcp_tools (server_session srv))) \<or>
      fst (mcp_call w name arguments srv) \<noteq> None)"
proof -
  have sql: "json_index sql_tool ''name'' = JString ''sql''" by (simp add: sql_tool_def)
  have qbo: "JString name \<in> (\<lambda>t. json_index t ''name'') ` set (qbo_tools admin) \<longleftrightarrow>
      (\<exists>t \<in> set tool_specs. name = ''qbo_'' @ tool_name t \<and> (admin \<or> \<not> admin_only t))" for admin
    by (auto simp: qbo_tools_def image_iff tool_entry_name)
  have none: "fst (mcp_call w name arguments srv) = None \<longleftrightarrow> name \<noteq> ''sql'' \<and>
      (\<forall>tool se. name = ''qbo_'' @ tool \<and> server_session srv = Some se \<longrightarrow> authorize se tool = None)"
  proof (cases "strip_prefix ''qbo_'' name")
    case None
    then have "\<nexists>tool. name = ''qbo_'' @ tool" by (metis strip_prefix_append option.distinct(1))
    then show ?thesis using None by (auto simp: mcp_call_def split: prod.split)
  next
    case (Some tool)
    then have name: "name = ''qbo_'' @ tool" by (simp add: strip_prefix_Some_iff)
    then have "name \<noteq> ''sql''" by auto
    with Some have "fst (mcp_call w name arguments srv) = None \<longleftrightarrow> fst (mcp_qbo w tool arguments srv) = None"
      by (simp add: mcp_call_def split: prod.split option.split)
    then show ?thesis unfolding mcp_qbo_None_iff using name by auto
  qed
  have first: "(fst (mcp_call w name arguments srv) = None) =
     (JString name \<notin> (\<lambda>t. json_index t ''name'') `
        set (sql_tool # (case server_session srv of None \<Rightarrow> [] | Some se \<Rightarrow> qbo_tools True)))"
    unfolding none by (cases "server_session srv") (auto simp: sql qbo authorize_None_iff)
  have "JString name \<in> (\<lambda>t. json_index t ''name'') ` set (sql_tool # (case server_session srv of None \<Rightarrow> [] | Some se \<Rightarrow> qbo_tools True))"
    if "JString name \<in> (\<lambda>t. json_index t ''name'') ` set (json_list (mcp_tools (server_session srv)))"
    using that by (cases "server_session srv") (auto simp: mcp_tools_def qbo_tools_def)
  with first show ?thesis by blast
qed

definition sample_mcp_world :: mcp_world where
  "sample_mcp_world = \<lparr>mcp_tools_world = sample_world,
     mcp_parse = (\<lambda>l. if l = ''x'' then Inl ''expected value'' else Inr (JObject [(''id'', JNumber (PosInt 1))])),
     database_url_var = None, url_complaint = (\<lambda>_. None), connect_failure = (\<lambda>_. None),
     sql_answer = (\<lambda>_ _. Inr [])\<rparr>"

definition sample_server :: server where
  "sample_server = \<lparr>conn_open = False, server_session = None,
     server_state = \<lparr>sent = [], statements = 0\<rparr>, connects = 0\<rparr>"

theorem every_request_is_answered_once_witness:
  "mcp_handle sample_mcp_world (JObject []) sample_server = (None, sample_server) \<and>
   (\<exists>reply srv'. mcp_handle sample_mcp_world (JObject [(''id'', JBool True)]) sample_server = (Some reply, srv') \<and>
      is_reply_to (JBool True) reply)"
  using every_request_is_answered_once [of "JObject []" sample_mcp_world sample_server]
    every_request_is_answered_once [of "JObject [(''id'', JBool True)]" sample_mcp_world sample_server "JBool True"]
  by auto

theorem unknown_tools_are_the_unlisted_witness:
  "fst (mcp_call sample_mcp_world ''sql'' JNull sample_server) \<noteq> None \<and>
   fst (mcp_call sample_mcp_world ''qbo_query'' JNull sample_server) = None"
proof -
  have "JString ''sql'' \<in> (\<lambda>t. json_index t ''name'') ` set (json_list (mcp_tools (server_session sample_server)))"
    by (simp add: mcp_tools_def sql_tool_def)
  moreover have "JString ''qbo_query'' \<notin> (\<lambda>t. json_index t ''name'') `
      set (sql_tool # (case server_session sample_server of None \<Rightarrow> [] | Some se \<Rightarrow> qbo_tools True))"
    by (simp add: sample_server_def sql_tool_def)
  ultimately show ?thesis
    using unknown_tools_are_the_unlisted [of sample_mcp_world "''sql''" JNull sample_server]
      unknown_tools_are_the_unlisted [of sample_mcp_world "''qbo_query''" JNull sample_server] by blast
qed

end
