(* ===== verification/JobctlArgs.thy ===== *)
theory JobctlArgs
  imports Json
begin

text \<open>
  Arguments of the \<open>jobctl\<close> subcommands (\<open>Args\<close> of \<open>crates/jobctl/src/main.rs\<close>): options
  with a value, flags and positional words, and the numbers and texts read from them. What
  they promise: only the options of the subcommand are accepted, both spellings of a value
  mean the same, and every choice of values, flags and words can be written.
\<close>

record args =
  arg_values :: "string \<rightharpoonup> string"
  arg_flags :: "string set"
  positional :: "string list"

definition no_args :: args where
  "no_args = \<lparr>arg_values = Map.empty, arg_flags = {}, positional = []\<rparr>"

definition push_word :: "string list \<Rightarrow> args \<Rightarrow> args" where
  "push_word ws a = a\<lparr>positional := positional a @ ws\<rparr>"

definition put_value :: "string \<Rightarrow> string \<Rightarrow> args \<Rightarrow> args" where
  "put_value name v a = a\<lparr>arg_values := (arg_values a)(name \<mapsto> v)\<rparr>"

definition put_flag :: "string \<Rightarrow> args \<Rightarrow> args" where
  "put_flag name a = a\<lparr>arg_flags := insert name (arg_flags a)\<rparr>"

text \<open>\<open>--name=value\<close> split at the first \<open>=\<close>.\<close>

definition option_name :: "string \<Rightarrow> string \<times> string option" where
  "option_name arg =
     (case split_once CHR ''='' arg of
        Some (name, v) \<Rightarrow> (name, Some v)
      | None \<Rightarrow> (arg, None))"

definition unknown_option :: "string \<Rightarrow> string" where
  "unknown_option arg = ''unknown option '' @ arg @ ''; see jobctl --help''"

text \<open>The loop of \<open>Args::parse\<close> over what is left of the command line.\<close>

fun args_loop :: "string list \<Rightarrow> string list \<Rightarrow> args \<Rightarrow> string list \<Rightarrow> string + args" where
  "args_loop vs fs a [] = Inr a"
| "args_loop vs fs a (arg # rest) =
     (if arg = ''--'' then Inr (push_word rest a)
      else if \<not> prefix ''--'' arg then args_loop vs fs (push_word [arg] a) rest
      else (case option_name arg of
              (name, inline_value) \<Rightarrow>
                if name \<in> set vs
                then (case inline_value of
                        Some v \<Rightarrow> args_loop vs fs (put_value name v a) rest
                      | None \<Rightarrow>
                          (case rest of
                             [] \<Rightarrow> Inl (name @ '' needs a value'')
                           | v # rest' \<Rightarrow> args_loop vs fs (put_value name v a) rest'))
                else if name \<in> set fs \<and> inline_value = None
                then args_loop vs fs (put_flag name a) rest
                else Inl (unknown_option arg)))"

definition args_parse :: "string list \<Rightarrow> string list \<Rightarrow> string list \<Rightarrow> string + args" where
  "args_parse vs fs raw = args_loop vs fs no_args raw"

definition arg_value :: "args \<Rightarrow> string \<Rightarrow> string option" where
  "arg_value a name = arg_values a name"

definition arg_flag :: "args \<Rightarrow> string \<Rightarrow> bool" where
  "arg_flag a name \<longleftrightarrow> name \<in> arg_flags a"

text \<open>\<open>parse_num\<close>: \<open>parse\<close> is the type's \<open>FromStr\<close>, \<open>debug\<close> the \<open>Debug\<close> form of a text.\<close>

definition parse_num ::
  "(string \<Rightarrow> 'a option) \<Rightarrow> (string \<Rightarrow> string) \<Rightarrow> string \<Rightarrow> string \<Rightarrow> string + 'a" where
  "parse_num parse debug name raw =
     ok_or (parse (trim raw)) (name @ '' must be a number, got '' @ debug raw)"

definition arg_num ::
  "(string \<Rightarrow> 'a option) \<Rightarrow> (string \<Rightarrow> string) \<Rightarrow> args \<Rightarrow> string \<Rightarrow> string + 'a option" where
  "arg_num parse debug a name =
     (case arg_value a name of
        None \<Rightarrow> Inr None
      | Some raw \<Rightarrow> map_sum id Some (parse_num parse debug name raw))"

section \<open>Fields\<close>

lemma args_fields [simp]:
  "arg_values (push_word ws a) = arg_values a" "arg_flags (push_word ws a) = arg_flags a"
  "positional (push_word ws a) = positional a @ ws"
  "arg_values (put_value n v a) = (arg_values a)(n \<mapsto> v)" "arg_flags (put_value n v a) = arg_flags a"
  "positional (put_value n v a) = positional a"
  "arg_values (put_flag n a) = arg_values a" "arg_flags (put_flag n a) = insert n (arg_flags a)"
  "positional (put_flag n a) = positional a"
  "arg_values no_args = Map.empty" "arg_flags no_args = {}" "positional no_args = []"
  by (simp_all add: push_word_def put_value_def put_flag_def no_args_def)

lemma option_name_plain: "CHR ''='' \<notin> set name \<Longrightarrow> option_name name = (name, None)"
proof -
  assume "CHR ''='' \<notin> set name"
  then have "split_once CHR ''='' name = None" by (induction name) auto
  then show ?thesis by (simp add: option_name_def)
qed

lemma option_name_inline: "CHR ''='' \<notin> set name \<Longrightarrow> option_name (name @ CHR ''='' # v) = (name, Some v)"
proof -
  assume "CHR ''='' \<notin> set name"
  then have "split_once CHR ''='' (name @ CHR ''='' # v) = Some (name, v)"
    by (simp add: split_once_Some_iff)
  then show ?thesis by (simp add: option_name_def)
qed

section \<open>The command line as a grammar\<close>

text \<open>
  What a command line means, independent of how it is scanned: it ends, or \<open>--\<close> makes the rest
  words, or it starts with a word, with a value in one of its two spellings, or with a flag.
\<close>

definition option_text :: "string \<Rightarrow> bool" where
  "option_text name \<longleftrightarrow> prefix ''--'' name \<and> CHR ''='' \<notin> set name"

inductive command_line :: "string list \<Rightarrow> string list \<Rightarrow> args \<Rightarrow> string list \<Rightarrow> args \<Rightarrow> bool"
  for vs fs :: "string list" where
  line_end: "command_line vs fs a [] a"
| dashes: "command_line vs fs a (''--'' # ws) (push_word ws a)"
| word: "\<not> prefix ''--'' w \<Longrightarrow> command_line vs fs (push_word [w] a) ws b \<Longrightarrow> command_line vs fs a (w # ws) b"
| joined: "option_text name \<Longrightarrow> name \<in> set vs \<Longrightarrow> command_line vs fs (put_value name v a) ws b \<Longrightarrow>
    command_line vs fs a ((name @ ''='' @ v) # ws) b"
| spaced: "option_text name \<Longrightarrow> name \<noteq> ''--'' \<Longrightarrow> name \<in> set vs \<Longrightarrow>
    command_line vs fs (put_value name v a) ws b \<Longrightarrow> command_line vs fs a (name # v # ws) b"
| flag: "option_text name \<Longrightarrow> name \<noteq> ''--'' \<Longrightarrow> name \<in> set fs \<Longrightarrow> name \<notin> set vs \<Longrightarrow>
    command_line vs fs (put_flag name a) ws b \<Longrightarrow> command_line vs fs a (name # ws) b"

lemma option_name_cases:
  assumes "option_name arg = (name, inl)" and "prefix ''--'' arg"
  obtains (plain) "inl = None" "arg = name" "option_text name"
    | (valued) v where "inl = Some v" "arg = name @ ''='' @ v" "option_text name"
proof (cases "split_once CHR ''='' arg")
  case None
  then have "CHR ''='' \<notin> set arg" by (induction arg) (auto split: if_splits)
  with None assms show ?thesis by (intro plain) (auto simp: option_name_def option_text_def)
next
  case (Some p)
  then obtain v where split: "split_once CHR ''='' arg = Some (name, v)" "inl = Some v"
    using assms(1) by (cases p) (simp add: option_name_def)
  then have arg: "arg = name @ ''='' @ v" "CHR ''='' \<notin> set name" by (simp_all add: split_once_Some_iff)
  have "prefix ''--'' name"
  proof -
    obtain r where "name @ ''='' @ v = CHR ''-'' # CHR ''-'' # r"
      using assms(2) arg(1) by (auto simp: prefix_def)
    then show ?thesis by (cases name; cases "tl name") auto
  qed
  with split arg show ?thesis by (intro valued) (simp_all add: option_text_def)
qed

lemma args_loop_joined:
  assumes "option_text name" and "name \<in> set vs"
  shows "args_loop vs fs a ((name @ ''='' @ v) # ws) = args_loop vs fs (put_value name v a) ws"
proof -
  have opt: "option_name (name @ ''='' @ v) = (name, Some v)"
    using assms(1) option_name_inline [of name v] by (simp add: option_text_def)
  have "name @ ''='' @ v \<noteq> ''--''" by (auto simp: append_eq_Cons_conv)
  moreover have "prefix ''--'' (name @ ''='' @ v)" using assms(1) by (simp add: option_text_def prefix_prefix)
  ultimately show ?thesis using assms(2) opt by (simp only: args_loop.simps) simp
qed

lemma args_loop_option:
  assumes "option_text name" and "name \<noteq> ''--''"
  shows "name \<in> set vs \<Longrightarrow> args_loop vs fs a (name # v # ws) = args_loop vs fs (put_value name v a) ws"
    and "name \<in> set fs \<Longrightarrow> name \<notin> set vs \<Longrightarrow> args_loop vs fs a (name # ws) = args_loop vs fs (put_flag name a) ws"
  using assms option_name_plain [of name] by (simp_all add: option_text_def)

lemma args_loop_sound: "args_loop vs fs a raw = Inr b \<Longrightarrow> command_line vs fs a raw b"
proof (induction vs fs a raw rule: args_loop.induct)
  case (1 vs fs a)
  then show ?case by (simp add: line_end)
next
  case (2 vs fs a arg ws)
  note run = "2.prems"
  show ?case
  proof (cases "arg = ''--''")
    case True
    with run show ?thesis using dashes [of vs fs a ws] by simp
  next
    case arg: False
    show ?thesis
    proof (cases "prefix ''--'' arg")
      case False
      with arg run show ?thesis using "2.IH"(1) [OF arg False] by (simp add: word)
    next
      case True
      then have dd: "\<not> \<not> prefix ''--'' arg" by simp
      obtain name inl where opt: "option_name arg = (name, inl)" by (cases "option_name arg")
      show ?thesis
      proof (cases "name \<in> set vs")
        case False
        then have fl: "name \<in> set fs \<and> inl = None" using run arg True opt by (auto split: if_splits)
        with False arg run True opt have "command_line vs fs (put_flag name a) ws b"
          using "2.IH"(4) [OF arg dd opt [symmetric] False fl] by simp
        then show ?thesis using option_name_cases [OF opt True] fl False arg flag [of name fs vs a ws b] by auto
      next
        case name: True
        show ?thesis
        proof (cases inl)
          case (Some v)
          with name arg run True opt have "command_line vs fs (put_value name v a) ws b"
            using "2.IH"(3) [OF arg dd opt [symmetric] name Some] by simp
          then show ?thesis using option_name_cases [OF opt True] Some name joined [of name vs fs v a ws b] by auto
        next
          case None
          with run arg True opt name obtain v more where more: "ws = v # more" by (cases ws) auto
          with None name arg run True opt have "command_line vs fs (put_value name v a) more b"
            using "2.IH"(2) [OF arg dd opt [symmetric] name None more] by simp
          then show ?thesis
            using option_name_cases [OF opt True] None name arg more spaced [of name vs fs v a more b] by auto
        qed
      qed
    qed
  qed
qed

lemma args_loop_word:
  "args_loop vs fs a (''--'' # ws) = Inr (push_word ws a)"
  "\<not> prefix ''--'' w \<Longrightarrow> args_loop vs fs a (w # ws) = args_loop vs fs (push_word [w] a) ws"
  by (simp, cases "w = ''--''") simp_all

lemma args_loop_refused:
  "args_loop vs fs a raw = Inl e \<Longrightarrow>
   (\<exists>arg \<in> set raw. prefix ''--'' arg \<and> arg \<noteq> ''--'' \<and> fst (option_name arg) \<notin> set vs \<and>
      e = unknown_option arg) \<or>
   raw \<noteq> [] \<and> last raw \<in> set vs \<and> e = last raw @ '' needs a value''"
proof (induction vs fs a raw rule: args_loop.induct)
  case (1 vs fs a)
  then show ?case by simp
next
  case (2 vs fs a arg ws)
  note run = "2.prems"
  let ?bad = "\<lambda>ws. (\<exists>arg \<in> set ws. prefix ''--'' arg \<and> arg \<noteq> ''--'' \<and> fst (option_name arg) \<notin> set vs \<and>
      e = unknown_option arg) \<or> ws \<noteq> [] \<and> last ws \<in> set vs \<and> e = last ws @ '' needs a value''"
  have more: "?bad ws \<Longrightarrow> ?bad (x # ws)" for x ws by auto
  have arg: "arg \<noteq> ''--''" using run by auto
  show ?case
  proof (cases "prefix ''--'' arg")
    case False
    with arg run have "?bad ws" using "2.IH"(1) [OF arg False] by simp
    then show ?thesis by (rule more)
  next
    case True
    then have dd: "\<not> \<not> prefix ''--'' arg" by simp
    obtain name inl where opt: "option_name arg = (name, inl)" by (cases "option_name arg")
    show ?thesis
    proof (cases "name \<in> set vs")
      case False
      show ?thesis
      proof (cases "name \<in> set fs \<and> inl = None")
        case fl: True
        with False arg run True opt have "?bad ws"
          using "2.IH"(4) [OF arg dd opt [symmetric] False fl] by simp
        then show ?thesis by (rule more)
      next
        case unknown: False
        then have "args_loop vs fs a (arg # ws) = Inl (unknown_option arg)"
          using False arg True opt by (auto split: option.split)
        with run False True arg opt show ?thesis by auto
      qed
    next
      case name: True
      show ?thesis
      proof (cases inl)
        case (Some v)
        with name arg run True opt have "?bad ws"
          using "2.IH"(3) [OF arg dd opt [symmetric] name Some] by simp
        then show ?thesis by (rule more)
      next
        case None
        then have same: "arg = name" using option_name_cases [OF opt True] by auto
        show ?thesis
        proof (cases ws)
          case Nil
          with None name arg run True opt same show ?thesis by simp
        next
          case (Cons v us)
          with None name arg run True opt have "?bad us"
            using "2.IH"(2) [OF arg dd opt [symmetric] name None Cons] by simp
          then have "?bad (v # us)" by (rule more)
          then show ?thesis unfolding Cons by (rule more)
        qed
      qed
    qed
  qed
qed

declare args_loop.simps(2) [simp del]

lemma args_loop_complete: "command_line vs fs a raw b \<Longrightarrow> args_loop vs fs a raw = Inr b"
  by (induction rule: command_line.induct)
    (simp_all only: args_loop.simps(1) args_loop_word args_loop_joined args_loop_option if_False if_True simp_thms)

lemma args_loop_iff: "args_loop vs fs a raw = Inr b \<longleftrightarrow> command_line vs fs a raw b"
  using args_loop_sound args_loop_complete by blast

section \<open>What is accepted and what is refused\<close>

text \<open>Arguments of a subcommand with value options \<open>vs\<close> and flags \<open>fs\<close>.\<close>

definition args_typed :: "string list \<Rightarrow> string list \<Rightarrow> args \<Rightarrow> bool" where
  "args_typed vs fs a \<longleftrightarrow> dom (arg_values a) \<subseteq> set vs \<and> arg_flags a \<subseteq> set fs"

lemma args_typed_put [simp]:
  "args_typed vs fs no_args"
  "args_typed vs fs (push_word ws a) = args_typed vs fs a"
  "name \<in> set vs \<Longrightarrow> args_typed vs fs a \<Longrightarrow> args_typed vs fs (put_value name v a)"
  "name \<in> set fs \<Longrightarrow> args_typed vs fs a \<Longrightarrow> args_typed vs fs (put_flag name a)"
  by (auto simp: args_typed_def)

lemma command_line_typed: "command_line vs fs a raw b \<Longrightarrow> args_typed vs fs a \<Longrightarrow> args_typed vs fs b"
  by (induction rule: command_line.induct) simp_all

lemma command_line_words:
  "command_line vs fs a raw b \<Longrightarrow> \<exists>ws. positional b = positional a @ ws \<and> subseq ws raw"
proof (induction rule: command_line.induct)
  case (word w a ws b)
  then obtain us where "positional b = positional a @ w # us" "subseq us ws" by auto
  then show ?case by (auto intro!: exI [of _ "w # us"])
next
  case (spaced name v a ws b)
  then obtain us where "positional b = positional a @ us" "subseq us ws" by auto
  then show ?case by (auto intro: list_emb_Cons)
qed (auto intro: list_emb_Cons)

text \<open>A command line for given values (each in one of its spellings), flags and words.\<close>

definition write_option :: "string \<times> string \<times> bool \<Rightarrow> string list" where
  "write_option = (\<lambda>(name, v, join_up). if join_up then [name @ ''='' @ v] else [name, v])"

definition write_args :: "(string \<times> string \<times> bool) list \<Rightarrow> string list \<Rightarrow> string list \<Rightarrow> string list" where
  "write_args opts flags words = concat (map write_option opts) @ flags @ ''--'' # words"

lemma args_loop_written_flags:
  assumes "\<forall>f \<in> set flags. option_text f \<and> f \<noteq> ''--'' \<and> f \<in> set fs \<and> f \<notin> set vs"
  shows "args_loop vs fs a (flags @ ''--'' # words) =
    Inr (a\<lparr>arg_flags := arg_flags a \<union> set flags, positional := positional a @ words\<rparr>)"
  using assms
proof (induction flags arbitrary: a)
  case Nil
  then show ?case by (simp add: push_word_def args_loop_word)
next
  case (Cons f flags)
  then show ?case by (simp add: args_loop_option put_flag_def)
qed

lemma args_loop_written:
  assumes opts: "\<forall>(name, v, j) \<in> set opts. option_text name \<and> name \<noteq> ''--'' \<and> name \<in> set vs"
    and flags: "\<forall>f \<in> set flags. option_text f \<and> f \<noteq> ''--'' \<and> f \<in> set fs \<and> f \<notin> set vs"
  shows "args_loop vs fs a (write_args opts flags words) =
    Inr \<lparr>arg_values = arg_values a ++ map_of (rev (map (\<lambda>(n, v, j). (n, v)) opts)),
      arg_flags = arg_flags a \<union> set flags, positional = positional a @ words\<rparr>"
  using opts
proof (induction opts arbitrary: a)
  case Nil
  then show ?case using args_loop_written_flags [OF flags] by (cases a) (simp add: write_args_def)
next
  case (Cons p opts)
  obtain name v j where p: "p = (name, v, j)" by (cases p)
  then have opt: "option_text name" "name \<noteq> ''--''" "name \<in> set vs" using Cons.prems by auto
  have "args_loop vs fs a (write_args (p # opts) flags words) =
      args_loop vs fs (put_value name v a) (write_args opts flags words)"
    using opt args_loop_joined [OF opt(1,3)] args_loop_option(1) [OF opt]
    by (cases j) (simp_all only: write_args_def write_option_def p list.map concat.simps prod.case if_True if_False
        append_Cons append_Nil)
  then show ?case using Cons by (auto simp: p fun_eq_iff map_add_def split: option.split)
qed

section \<open>Properties\<close>

text \<open>
  C14: the arguments of a subcommand are well typed: whatever the command line, only the values
  and flags of that subcommand come out, and the words are words of the line in their order.
  An error is one of two: an option the subcommand does not have, or an option that needs a
  value at the very end of the line.
\<close>
theorem arguments_are_typed:
  "(args_parse vs fs raw = Inr a \<longrightarrow>
      dom (arg_values a) \<subseteq> set vs \<and> arg_flags a \<subseteq> set fs \<and> subseq (positional a) raw) \<and>
   (args_parse vs fs raw = Inl e \<longrightarrow>
      (\<exists>arg \<in> set raw. prefix ''--'' arg \<and> arg \<noteq> ''--'' \<and> fst (option_name arg) \<notin> set vs \<and>
         e = unknown_option arg) \<or>
      raw \<noteq> [] \<and> last raw \<in> set vs \<and> e = last raw @ '' needs a value'')"
proof (intro conjI impI)
  assume "args_parse vs fs raw = Inr a"
  then have line: "command_line vs fs no_args raw a" by (simp add: args_parse_def args_loop_iff)
  have typed: "args_typed vs fs a" using command_line_typed [OF line] by simp
  show "dom (arg_values a) \<subseteq> set vs" using typed by (simp add: args_typed_def)
  show "arg_flags a \<subseteq> set fs" using typed by (simp add: args_typed_def)
  show "subseq (positional a) raw" using command_line_words [OF line] by auto
next
  assume "args_parse vs fs raw = Inl e"
  then have "args_loop vs fs no_args raw = Inl e" by (simp add: args_parse_def)
  then show "(\<exists>arg \<in> set raw. prefix ''--'' arg \<and> arg \<noteq> ''--'' \<and> fst (option_name arg) \<notin> set vs \<and>
      e = unknown_option arg) \<or> raw \<noteq> [] \<and> last raw \<in> set vs \<and> e = last raw @ '' needs a value''"
    by (rule args_loop_refused)
qed

definition sample_line :: "string list" where
  "sample_line = [''--chat'', ''12'', ''hello'', ''--no-wait'']"

lemma sample_line_parses:
  "args_parse [''--chat''] [''--no-wait''] sample_line =
     Inr \<lparr>arg_values = [''--chat'' \<mapsto> ''12''], arg_flags = {''--no-wait''}, positional = [''hello'']\<rparr>"
  by (simp add: args_parse_def sample_line_def args_loop.simps(2) option_name_def no_args_def put_value_def
      put_flag_def push_word_def)

theorem arguments_are_typed_witness:
  "\<exists>a. args_parse [''--chat''] [''--no-wait''] sample_line = Inr a \<and> dom (arg_values a) \<subseteq> {''--chat''} \<and>
     subseq (positional a) sample_line"
proof -
  obtain a where a: "args_parse [''--chat''] [''--no-wait''] sample_line = Inr a"
    using sample_line_parses by blast
  with arguments_are_typed [of "[''--chat'']" "[''--no-wait'']" sample_line a] show ?thesis
    by (intro exI [of _ a]) simp
qed

text \<open>
  Every choice of values, flags and words can be written on a command line, whatever the
  texts are, and is read back: each value may be written as \<open>--name value\<close> or \<open>--name=value\<close>,
  the last value of an option counts, and after \<open>--\<close> words may look like options.
\<close>
theorem written_arguments_are_read_back:
  assumes "\<forall>(name, v, j) \<in> set opts. option_text name \<and> name \<noteq> ''--'' \<and> name \<in> set vs"
    and "\<forall>f \<in> set flags. option_text f \<and> f \<noteq> ''--'' \<and> f \<in> set fs \<and> f \<notin> set vs"
  shows "args_parse vs fs (write_args opts flags words) =
    Inr \<lparr>arg_values = map_of (rev (map (\<lambda>(n, v, j). (n, v)) opts)),
      arg_flags = set flags, positional = words\<rparr>"
  using args_loop_written [OF assms] by (simp add: args_parse_def)

theorem written_arguments_are_read_back_witness:
  "args_parse [''--chat''] [''--no-wait'']
     (write_args [(''--chat'', ''1'', False), (''--chat'', ''2=3'', True)] [''--no-wait''] [''--chat'']) =
   Inr \<lparr>arg_values = map_of [(''--chat'', ''2=3''), (''--chat'', ''1'')],
     arg_flags = {''--no-wait''}, positional = [''--chat'']\<rparr>"
  using written_arguments_are_read_back [of "[(''--chat'', ''1'', False), (''--chat'', ''2=3'', True)]"
      "[''--chat'']" "[''--no-wait'']" "[''--no-wait'']" "[''--chat'']"]
  by (simp add: option_text_def)

end
