(* ===== verification/JobctlDb.thy ===== *)
theory JobctlDb
  imports JobctlArgs JobctlSql QboValues
begin

text \<open>
  \<open>crates/jobctl/src/db.rs\<close>: where \<open>jobctl\<close> finds its credentials. Files, environment
  variables and the home directory are those of the process; parsing of a URL is the
  database driver's.
\<close>

section \<open>The process\<close>

text \<open>
  Environment variables (absent or not Unicode is \<open>None\<close>), the home directory, the text or the
  error of reading a file, the complaint about a URL, and the \<open>Debug\<close> form of a text.
\<close>

record cli_env =
  cli_var :: "string \<Rightarrow> string option"
  home_dir :: "bytes option"
  read_file :: "bytes \<Rightarrow> string + string"
  url_error :: "string \<Rightarrow> string option"
  debug_text :: "string \<Rightarrow> string"

text \<open>\<open>Path::join\<close>: an absolute path replaces the base.\<close>

definition join_path :: "bytes \<Rightarrow> bytes \<Rightarrow> bytes" where
  "join_path base p =
     (if prefix ''/'' p \<or> base = [] then p
      else if last base = CHR ''/'' then base @ p else base @ ''/'' @ p)"

text \<open>
  \<open>str::lines\<close>: a line ends with a newline, before which one carriage return is dropped; what
  follows the last newline is a line if it is not empty.
\<close>

definition strip_cr :: "string \<Rightarrow> string" where
  "strip_cr l = (if l \<noteq> [] \<and> last l = CHR 0x0D then butlast l else l)"

definition str_lines :: "string \<Rightarrow> string list" where
  "str_lines s =
     (let ls = split_on newline s
      in map strip_cr (butlast ls) @ (if last ls = [] then [] else [last ls]))"

section \<open>Credentials\<close>

definition default_env_file_name :: string where "default_env_file_name = ''general_datebase/.env''"
definition default_database :: string where "default_database = ''main''"

text \<open>\<open>MySqlConnectOptions\<close>: parsed from a URL, or field by field.\<close>

datatype connect_options =
    FromUrl string
  | FromFields (opt_host: string) (opt_port: nat) (opt_user: string) (opt_password: string) (opt_database: string)

definition is_db_var :: "string \<times> string \<Rightarrow> bool" where
  "is_db_var kv \<longleftrightarrow>
     prefix ''DB_'' (fst kv) \<and> list_all (\<lambda>c. is_ascii_alphanumeric c \<or> c = CHR ''_'') (fst kv)"

definition parse_db_vars :: "string \<Rightarrow> string \<rightharpoonup> string" where
  "parse_db_vars text =
     map_of (rev (filter is_db_var (List.map_filter (split_once CHR ''='') (str_lines text))))"

definition from_url :: "cli_env \<Rightarrow> string \<Rightarrow> jobctl_error + connect_options" where
  "from_url env url =
     (case url_error env url of
        None \<Rightarrow> Inr (FromUrl url)
      | Some err \<Rightarrow> Inl (ConfigError (''invalid DATABASE_URL: '' @ err)))"

definition db_required :: "string list" where
  "db_required = [''DB_HOST'', ''DB_USER'', ''DB_PASSWORD'']"

definition u16_max :: nat where "u16_max = 65535"

definition db_port :: "cli_env \<Rightarrow> (string \<rightharpoonup> string) \<Rightarrow> jobctl_error + nat" where
  "db_port env vars =
     (case vars ''DB_PORT'' of
        None \<Rightarrow> Inr 3306
      | Some raw \<Rightarrow> ok_or (parse_unsigned u16_max raw) (ConfigError (''invalid DB_PORT '' @ debug_text env raw)))"

definition from_env_file :: "cli_env \<Rightarrow> bytes \<Rightarrow> string \<Rightarrow> jobctl_error + connect_options" where
  "from_env_file env p database =
     (case read_file env p of
        Inl err \<Rightarrow> Inl (ConfigError (''cannot read env file '' @ from_utf8_lossy p @ '': '' @ err))
      | Inr content \<Rightarrow>
          (let vars = parse_db_vars content;
               missing = filter (\<lambda>key. vars key = None) db_required
           in if missing \<noteq> []
              then Inl (ConfigError (from_utf8_lossy p @ '' lacks '' @ join '', '' missing))
              else bind_result (db_port env vars) (\<lambda>port.
                Inr (FromFields (the (vars ''DB_HOST'')) port (the (vars ''DB_USER''))
                  (the (vars ''DB_PASSWORD'')) database))))"

definition default_env_file :: "cli_env \<Rightarrow> jobctl_error + bytes" where
  "default_env_file env =
     ok_or (map_option (\<lambda>home. join_path home default_env_file_name) (home_dir env))
       (ConfigError ''cannot locate the home directory'')"

definition db_resolve :: "cli_env \<Rightarrow> bytes option \<Rightarrow> string \<Rightarrow> jobctl_error + connect_options" where
  "db_resolve env env_file database =
     (case env_file of
        Some p \<Rightarrow> from_env_file env p database
      | None \<Rightarrow>
          (case cli_var env ''DATABASE_URL'' of
             Some url \<Rightarrow>
               if trim url \<noteq> [] then from_url env url
               else bind_result (default_env_file env) (\<lambda>p. from_env_file env p database)
           | None \<Rightarrow> bind_result (default_env_file env) (\<lambda>p. from_env_file env p database)))"

text \<open>\<open>expand_home\<close> of \<open>main.rs\<close>.\<close>

definition expand_home :: "cli_env \<Rightarrow> string \<Rightarrow> bytes" where
  "expand_home env p =
     (case (strip_prefix ''~/'' p, home_dir env) of
        (Some rest, Some home) \<Rightarrow> join_path home rest
      | _ \<Rightarrow> p)"

text \<open>The options of \<open>connect\<close> in \<open>main.rs\<close>.\<close>

definition connect_target :: "cli_env \<Rightarrow> args \<Rightarrow> jobctl_error + connect_options" where
  "connect_target env a =
     db_resolve env (map_option (expand_home env) (arg_value a ''--env-file''))
       (case arg_value a ''--database'' of None \<Rightarrow> default_database | Some d \<Rightarrow> d)"

section \<open>Reading an env file\<close>

definition write_env :: "(string \<times> string) list \<Rightarrow> string" where
  "write_env kvs = concat (map (\<lambda>(k, v). k @ ''='' @ v @ [newline]) kvs)"

text \<open>A variable an env file can hold: a \<open>DB_*\<close> name, and a value on one line.\<close>

definition env_entry :: "string \<times> string \<Rightarrow> bool" where
  "env_entry kv \<longleftrightarrow> is_db_var kv \<and> newline \<notin> set (snd kv) \<and>
     (snd kv \<noteq> [] \<longrightarrow> last (snd kv) \<noteq> CHR 0x0D)"

lemma db_var_chars: "is_db_var (k, v) \<Longrightarrow> newline \<notin> set k \<and> CHR ''='' \<notin> set k"
  by (auto simp: is_db_var_def list_all_iff sql_chars ascii_defs byte_def)

lemma env_entry_line:
  assumes "env_entry (k, v)"
  shows "newline \<notin> set (k @ ''='' @ v)" "strip_cr (k @ ''='' @ v) = k @ ''='' @ v"
    "split_once CHR ''='' (k @ ''='' @ v) = Some (k, v)"
  using assms db_var_chars [of k v]
  by (auto simp: env_entry_def strip_cr_def sql_chars split_once_Some_iff)

lemma split_write_env:
  "\<forall>kv \<in> set kvs. env_entry kv \<Longrightarrow>
   split_on newline (write_env kvs) = map (\<lambda>(k, v). k @ ''='' @ v) kvs @ [[]]"
proof (induction kvs)
  case Nil
  then show ?case by (simp add: write_env_def)
next
  case (Cons kv kvs)
  obtain k v where kv: "kv = (k, v)" by (cases kv)
  have "newline \<notin> set (k @ ''='' @ v)" using Cons.prems env_entry_line(1) [of k v] by (simp add: kv)
  then have "split_on newline ((k @ ''='' @ v) @ newline # write_env kvs) =
      (k @ ''='' @ v) # split_on newline (write_env kvs)"
    by (rule split_on_Cons_sep)
  moreover have "write_env (kv # kvs) = (k @ ''='' @ v) @ newline # write_env kvs"
    by (simp add: write_env_def kv)
  ultimately show ?case using Cons by (simp add: kv)
qed

lemma parse_write_env:
  assumes "\<forall>kv \<in> set kvs. env_entry kv"
  shows "parse_db_vars (write_env kvs) = map_of (rev kvs)"
proof -
  have "str_lines (write_env kvs) = map (\<lambda>(k, v). k @ ''='' @ v) kvs"
    using split_write_env [OF assms] assms env_entry_line(2)
    by (auto simp: str_lines_def)
  moreover have "List.map_filter (split_once CHR ''='') (map (\<lambda>(k, v). k @ ''='' @ v) kvs) = kvs"
    using assms
  proof (induction kvs)
    case (Cons kv kvs)
    then show ?case using env_entry_line(3) [of "fst kv" "snd kv"]
      by (cases kv) (simp add: List.map_filter_simps)
  qed (simp add: List.map_filter_simps)
  moreover have "filter is_db_var kvs = kvs"
    using assms by (simp add: env_entry_def)
  ultimately show ?thesis by (simp add: parse_db_vars_def)
qed

text \<open>
  An env file is read back: with host, user and password written in it the connection has
  exactly these, the last of each, and the port written or 3306; without some of them the
  error names the missing ones in order.
\<close>
theorem env_file_is_read_back:
  assumes "read_file env p = Inr (write_env kvs)" and "\<forall>kv \<in> set kvs. env_entry kv"
    and "vars = map_of (rev kvs)"
  shows "(vars ''DB_HOST'' = Some h \<and> vars ''DB_USER'' = Some u \<and> vars ''DB_PASSWORD'' = Some pw \<and>
      (vars ''DB_PORT'' = None \<and> n = 3306 \<or> vars ''DB_PORT'' = Some (show_nat n) \<and> n \<le> u16_max) \<longrightarrow>
      from_env_file env p d = Inr (FromFields h n u pw d)) \<and>
    ((\<exists>k \<in> set db_required. vars k = None) \<longrightarrow>
      from_env_file env p d = Inl (ConfigError (from_utf8_lossy p @ '' lacks '' @
        join '', '' (filter (\<lambda>k. vars k = None) db_required))))"
  using assms parse_write_env [OF assms(2)]
  by (auto simp: from_env_file_def Let_def db_required_def db_port_def parse_unsigned_show_nat)

theorem env_file_is_read_back_witness:
  "from_env_file \<lparr>cli_var = Map.empty, home_dir = None, read_file = (\<lambda>_. Inr (write_env [(''DB_HOST'', ''h'')])),
     url_error = (\<lambda>_. None), debug_text = id\<rparr> [] ''main'' =
   Inl (ConfigError '' lacks DB_USER, DB_PASSWORD'')"
proof -
  have "env_entry (''DB_HOST'', ''h'')"
    by (simp add: env_entry_def is_db_var_def ascii_defs byte_def sql_chars)
  then have entries: "\<forall>kv \<in> set [(''DB_HOST'', ''h'')]. env_entry kv" by simp
  have "from_utf8_lossy [] = []" by (simp add: from_utf8_lossy_def)
  then show ?thesis
    using env_file_is_read_back [OF _ entries refl, of "\<lparr>cli_var = Map.empty, home_dir = None,
      read_file = (\<lambda>_. Inr (write_env [(''DB_HOST'', ''h'')])), url_error = (\<lambda>_. None), debug_text = id\<rparr>" "[]" "''main''"]
    by (simp add: db_required_def)
qed

text \<open>
  With \<open>DATABASE_URL\<close> set and no env file named, the admin credentials of the default env file
  are never used: nothing that can be read from files has an influence.
\<close>
theorem url_login_ignores_files:
  assumes "arg_value a ''--env-file'' = None" and "cli_var env ''DATABASE_URL'' = Some url" and "trim url \<noteq> []"
  shows "connect_target (env\<lparr>home_dir := home, read_file := files\<rparr>) a = connect_target env a"
  using assms by (simp add: connect_target_def db_resolve_def from_url_def)

theorem url_login_ignores_files_witness:
  "connect_target \<lparr>cli_var = [''DATABASE_URL'' \<mapsto> ''u''], home_dir = Some ''/h'', read_file = (\<lambda>_. Inl ''e''),
     url_error = (\<lambda>_. None), debug_text = id\<rparr> no_args =
   connect_target \<lparr>cli_var = [''DATABASE_URL'' \<mapsto> ''u''], home_dir = None, read_file = (\<lambda>_. Inr []),
     url_error = (\<lambda>_. None), debug_text = id\<rparr> no_args"
proof -
  let ?env = "\<lparr>cli_var = [''DATABASE_URL'' \<mapsto> ''u''], home_dir = None, read_file = (\<lambda>_. Inr []),
     url_error = (\<lambda>_. None), debug_text = id\<rparr>"
  have "trim ''u'' \<noteq> []" by (simp add: trim_graph is_graph_def byte_def)
  then show ?thesis
    using url_login_ignores_files [of no_args ?env "''u''" "\<lambda>_. Inl ''e''" "Some ''/h''"]
    by (simp add: arg_value_def)
qed

end
