(* ===== verification/JobctlApi.thy ===== *)
theory JobctlApi
  imports JobctlDb
begin

text \<open>
  \<open>crates/jobctl/src/api.rs\<close>: the client of the runner's HTTP API. The network is a parameter:
  what a connection to an address answers to the bytes sent, after how many milliseconds, and
  how the rest of the world has changed by then.
\<close>

section \<open>The network\<close>

datatype net_answer = NoConnection string | NetFailed io_error | NetBytes bytes

record 'w api_env =
  api_net :: "string \<Rightarrow> bytes \<Rightarrow> 'w \<Rightarrow> (nat \<times> net_answer) \<times> 'w"
  api_parse :: "string \<Rightarrow> string + json"
  api_print :: "json \<Rightarrow> string"

definition default_addr :: string where "default_addr = ''127.0.0.1:8080''"

definition request_timeout :: nat where "request_timeout = 10000"
definition health_timeout :: nat where "health_timeout = 2000"

definition crlf :: string where "crlf = [CHR 0x0D, CHR 0x0A]"

section \<open>Responses\<close>

text \<open>\<open>split_once\<close> with a text as the separator.\<close>

fun split_once_str :: "string \<Rightarrow> string \<Rightarrow> (string \<times> string) option" where
  "split_once_str pat [] = (if pat = [] then Some ([], []) else None)"
| "split_once_str pat (c # cs) =
     (case strip_prefix pat (c # cs) of
        Some rest \<Rightarrow> Some ([], rest)
      | None \<Rightarrow> map_option (\<lambda>(a, b). (c # a, b)) (split_once_str pat cs))"

definition second_word :: "string \<Rightarrow> string option" where
  "second_word head = (case split_on CHR '' '' head of _ # w # _ \<Rightarrow> Some w | _ \<Rightarrow> None)"

definition parse_response :: "string \<Rightarrow> jobctl_error + nat \<times> string" where
  "parse_response raw =
     (case split_once_str (crlf @ crlf) raw of
        None \<Rightarrow> Inl (HttpError ''truncated HTTP response'')
      | Some (head, body) \<Rightarrow>
          bind_result
            (ok_or (Option.bind (second_word head) (parse_unsigned u16_max))
              (HttpError (''bad status line: '' @ take_chars 40 head)))
            (\<lambda>status. Inr (status, body)))"

section \<open>Requests\<close>

definition request_text :: "string \<Rightarrow> string \<Rightarrow> string \<Rightarrow> string \<Rightarrow> bytes" where
  "request_text addr meth p body =
     meth @ '' '' @ p @ '' HTTP/1.1'' @ crlf @ ''Host: '' @ addr @ crlf @ ''Connection: close'' @ crlf @
     ''Content-Type: application/json'' @ crlf @ ''Content-Length: '' @ show_nat (length body) @ crlf @ crlf @ body"

definition api_request ::
  "'w api_env \<Rightarrow> string \<Rightarrow> string \<Rightarrow> string \<Rightarrow> string option \<Rightarrow> 'w \<Rightarrow>
   (nat \<times> (jobctl_error + nat \<times> string)) \<times> 'w" where
  "api_request env addr meth p body w =
     (case api_net env addr (request_text addr meth p (case body of None \<Rightarrow> [] | Some b \<Rightarrow> b)) w of
        ((ms, NoConnection err), w') \<Rightarrow> ((ms, Inl (HttpError (''cannot reach '' @ addr @ '': '' @ err))), w')
      | ((ms, NetFailed err), w') \<Rightarrow> ((ms, Inl (IoFailed err)), w')
      | ((ms, NetBytes raw), w') \<Rightarrow> ((ms, parse_response (from_utf8_lossy raw)), w'))"

definition api_healthy :: "'w api_env \<Rightarrow> string \<Rightarrow> 'w \<Rightarrow> bool \<times> 'w" where
  "api_healthy env addr w =
     (case api_request env addr ''GET'' ''/health'' None w of
        ((ms, Inr (status, _)), w') \<Rightarrow> (ms \<le> health_timeout \<and> status = 200, w')
      | (_, w') \<Rightarrow> (False, w'))"

text \<open>\<open>Api::json\<close>: no answer in time, an error, a status that is not 2xx, a text that is no JSON.\<close>

definition api_json ::
  "'w api_env \<Rightarrow> string \<Rightarrow> string \<Rightarrow> string \<Rightarrow> string option \<Rightarrow> 'w \<Rightarrow> (jobctl_error + json) \<times> 'w" where
  "api_json env addr meth p body w =
     (case api_request env addr meth p body w of
        ((ms, r), w') \<Rightarrow>
          (if request_timeout < ms then Inl (HttpError (meth @ '' '' @ p @ '': timed out''))
           else bind_result r (\<lambda>(status, answer).
             if \<not> (200 \<le> status \<and> status < 300)
             then Inl (HttpError (meth @ '' '' @ p @ '': HTTP '' @ show_nat status @ '': '' @ answer))
             else map_err (\<lambda>err. HttpError (meth @ '' '' @ p @ '': invalid JSON: '' @ err)) (api_parse env answer)),
           w'))"

definition create_job_body :: "int \<Rightarrow> string \<Rightarrow> json" where
  "create_job_body c content = json_object [(''chat_id'', json_int c), (''content'', JString content)]"

definition api_create_job :: "'w api_env \<Rightarrow> string \<Rightarrow> int \<Rightarrow> string \<Rightarrow> 'w \<Rightarrow> (jobctl_error + json) \<times> 'w" where
  "api_create_job env addr c content =
     api_json env addr ''POST'' ''/jobs'' (Some (api_print env (create_job_body c content)))"

definition api_job :: "'w api_env \<Rightarrow> string \<Rightarrow> int \<Rightarrow> 'w \<Rightarrow> (jobctl_error + json) \<times> 'w" where
  "api_job env addr i = api_json env addr ''GET'' (''/jobs/'' @ show_int i) None"

section \<open>Reading a response\<close>

text \<open>The text of a response as HTTP/1.1 has it: status line, header lines, empty line, body.\<close>

definition response_text :: "string \<Rightarrow> nat \<Rightarrow> string \<Rightarrow> string list \<Rightarrow> string \<Rightarrow> string" where
  "response_text version status reason headers body =
     join crlf ((version @ '' '' @ show_nat status @ '' '' @ reason) # headers) @ crlf @ crlf @ body"

text \<open>A line of the head: not empty and without carriage returns.\<close>

definition head_line :: "string \<Rightarrow> bool" where
  "head_line l \<longleftrightarrow> l \<noteq> [] \<and> CHR 0x0D \<notin> set l"

lemma split_skip:
  "CHR 0x0D \<notin> set l \<Longrightarrow>
   split_once_str (crlf @ crlf) (l @ s) = map_option (\<lambda>(a, b). (l @ a, b)) (split_once_str (crlf @ crlf) s)"
proof (induction l)
  case Nil
  then show ?case by (simp add: option.map_ident_strong split_beta)
next
  case (Cons c l)
  then have "strip_prefix (crlf @ crlf) (c # l @ s) = None" by (simp add: strip_prefix_def crlf_def)
  with Cons show ?case by (simp add: option.map_comp o_def split_beta)
qed

lemma split_line_end:
  assumes "head_line l"
  shows "split_once_str (crlf @ crlf) (crlf @ l @ s) =
    map_option (\<lambda>(a, b). (crlf @ a, b)) (split_once_str (crlf @ crlf) (l @ s))"
proof -
  obtain c l' where l: "l = c # l'" "c \<noteq> CHR 0x0D" using assms by (cases l) (auto simp: head_line_def)
  then have "strip_prefix (crlf @ crlf) (crlf @ l @ s) = None"
    "strip_prefix (crlf @ crlf) (CHR 0x0A # l @ s) = None"
    by (simp_all add: strip_prefix_def crlf_def)
  then show ?thesis by (simp add: crlf_def option.map_comp o_def case_prod_unfold)
qed

lemma split_head:
  "ls \<noteq> [] \<Longrightarrow> \<forall>l \<in> set ls. head_line l \<Longrightarrow>
   split_once_str (crlf @ crlf) (join crlf ls @ crlf @ crlf @ body) = Some (join crlf ls, body)"
proof (induction ls rule: induct_list012)
  case 1
  then show ?case by simp
next
  case (2 l)
  have "split_once_str (crlf @ crlf) (crlf @ crlf @ body) = Some ([], body)"
    by (simp add: crlf_def strip_prefix_def)
  with 2 show ?case using split_skip [of l "crlf @ crlf @ body"] by (simp add: head_line_def)
next
  case (3 k l ls)
  then have rest: "split_once_str (crlf @ crlf) (join crlf (l # ls) @ crlf @ crlf @ body) = Some (join crlf (l # ls), body)"
    by simp
  obtain s where s: "join crlf (l # ls) @ crlf @ crlf @ body = l @ s" by (cases ls) auto
  have "join crlf (k # l # ls) @ crlf @ crlf @ body = k @ crlf @ l @ s"
    using s by simp
  then show ?case
    using "3.prems"(2) rest split_skip [of k "crlf @ l @ s"] split_line_end [of l s]
    by (simp add: s head_line_def)
qed

lemma second_word_status:
  assumes "CHR '' '' \<notin> set version"
  shows "second_word (version @ '' '' @ show_nat n @ '' '' @ reason) = Some (show_nat n)"
proof -
  have "CHR '' '' \<notin> set (show_nat n)"
    using show_nat_digits [of n] by (auto simp: is_ascii_digit_def byte_def)
  then have "split_on CHR '' '' (version @ CHR '' '' # (show_nat n @ CHR '' '' # reason)) =
      version # show_nat n # split_on CHR '' '' reason"
    using assms by (simp add: split_on_Cons_sep)
  then show ?thesis by (simp add: second_word_def)
qed

lemma split_once_str_sound: "split_once_str pat s = Some (a, b) \<Longrightarrow> s = a @ pat @ b"
  by (induction s arbitrary: a) (auto simp: strip_prefix_Some_iff split: if_splits option.splits)

lemma parse_response_text:
  assumes "CHR '' '' \<notin> set version" and "CHR 0x0D \<notin> set (version @ reason)" and "list_all head_line headers"
    and "status \<le> u16_max"
  shows "parse_response (response_text version status reason headers body) = Inr (status, body)"
proof -
  let ?first = "version @ '' '' @ show_nat status @ '' '' @ reason"
  have "CHR 0x0D \<notin> set (show_nat status)"
    using show_nat_digits [of status] by (auto simp: is_ascii_digit_def byte_def)
  then have "head_line ?first" using assms(2) by (simp add: head_line_def)
  then have split: "split_once_str (crlf @ crlf) (response_text version status reason headers body) =
      Some (join crlf (?first # headers), body)"
    unfolding response_text_def using assms(3) by (intro split_head) (auto simp: list_all_iff)
  obtain rest where rest: "join crlf (?first # headers) = version @ '' '' @ show_nat status @ '' '' @ (reason @ rest)"
    by (cases headers) auto
  have "second_word (join crlf (?first # headers)) = Some (show_nat status)"
    using assms(1) second_word_status [of version status "reason @ rest"] unfolding rest by simp
  then show ?thesis
    using split assms(4) by (simp add: parse_response_def parse_unsigned_show_nat)
qed

section \<open>Properties\<close>

text \<open>
  C15: a response is read as it was sent: whatever the version, the reason, the headers and the
  body (which may itself hold empty lines), the status and the whole body come out; and what is
  read as a response is a 16-bit status and the text after an empty line.
\<close>
theorem response_round_trip:
  "(CHR '' '' \<notin> set version \<and> CHR 0x0D \<notin> set (version @ reason) \<and> list_all head_line headers \<and>
      status \<le> u16_max \<longrightarrow>
      parse_response (response_text version status reason headers body) = Inr (status, body)) \<and>
   (parse_response raw = Inr (n, b) \<longrightarrow> n \<le> u16_max \<and> (\<exists>head. raw = head @ crlf @ crlf @ b))"
proof (rule conjI; rule impI)
  assume "CHR '' '' \<notin> set version \<and> CHR 0x0D \<notin> set (version @ reason) \<and> list_all head_line headers \<and>
      status \<le> u16_max"
  then show "parse_response (response_text version status reason headers body) = Inr (status, body)"
    by (intro parse_response_text) simp_all
next
  assume "parse_response raw = Inr (n, b)"
  then show "n \<le> u16_max \<and> (\<exists>head. raw = head @ crlf @ crlf @ b)"
    by (auto simp: parse_response_def bind_result_Inr_iff ok_or_def bind_eq_Some_conv
        dest!: split_once_str_sound parse_unsigned_bound split: option.splits)
qed

theorem response_round_trip_witness:
  "parse_response (response_text ''HTTP/1.1'' 201 ''Created'' [''content-length: 8''] (crlf @ crlf @ ''x'')) =
     Inr (201, crlf @ crlf @ ''x'')"
  using response_round_trip [of "''HTTP/1.1''" "''Created''" "[''content-length: 8'']" 201 "crlf @ crlf @ ''x''"]
  by (simp add: head_line_def u16_max_def)

end
