(* ===== verification/JobctlChats.thy ===== *)
theory JobctlChats
  imports JobctlDb StoreProps
begin

text \<open>
  \<open>crates/jobctl/src/chats.rs\<close>: chats and messages as \<open>jobctl\<close> reads and writes them, on the
  same tables as the runner's store. Beside these there are the users of the chat application
  (with their company, which may be missing) and the counter of chat ids. What time the server
  puts on a row is a parameter.
\<close>

record chat_store =
  core :: database
  users :: "(int \<times> int option) list"
  next_chat_id :: nat

record server_clock =
  chat_time :: "int \<Rightarrow> string"
  message_time :: "int \<Rightarrow> string"

type_synonym 'a chat_op = "chat_store \<Rightarrow> (jobctl_error + 'a) \<times> chat_store"

text \<open>One statement on the connection, under the schedule of faults of the tables.\<close>

definition on_conn :: "(chat_store \<Rightarrow> (sqlx_error + 'a) \<times> chat_store) \<Rightarrow> 'a chat_op" where
  "on_conn stmt st =
     (case pop_fault (core st) of
        (Answered, db1) \<Rightarrow> (case stmt (st\<lparr>core := db1\<rparr>) of (r, st2) \<Rightarrow> (map_err DbError r, st2))
      | (Refused e, db1) \<Rightarrow> (Inl (DbError e), st\<lparr>core := db1\<rparr>)
      | (AckLost e, db1) \<Rightarrow> (Inl (DbError e), snd (stmt (st\<lparr>core := db1\<rparr>))))"

text \<open>A statement that only needs the two tables.\<close>

definition on_core ::
  "(database \<Rightarrow> (sqlx_error + 'a) \<times> database) \<Rightarrow> chat_store \<Rightarrow> (sqlx_error + 'a) \<times> chat_store" where
  "on_core stmt st = (case stmt (core st) of (r, db) \<Rightarrow> (r, st\<lparr>core := db\<rparr>))"

section \<open>Rows\<close>

record chat =
  chat_key :: int
  chat_owner :: int
  chat_heading :: string
  chat_created_at :: string

record message =
  message_key :: int
  message_chat :: int
  message_sender :: string
  message_agentic :: bool
  message_status :: "string option"
  message_payload :: "json option"
  message_content :: string
  message_created_at :: string

definition payload_str :: "message \<Rightarrow> string \<Rightarrow> string option" where
  "payload_str m k = Option.bind (Option.bind (message_payload m) (\<lambda>p. json_get p k)) as_str"

definition payload_i64 :: "message \<Rightarrow> string \<Rightarrow> int option" where
  "payload_i64 m k = Option.bind (Option.bind (message_payload m) (\<lambda>p. json_get p k)) as_i64"

definition message_fields :: "message \<Rightarrow> (string \<times> json) list" where
  "message_fields m =
     [(''id'', json_int (message_key m)),
      (''chat_id'', json_int (message_chat m)),
      (''sender'', JString (message_sender m)),
      (''is_agentic'', JBool (message_agentic m)),
      (''status'', json_opt JString (message_status m)),
      (''payload'', json_opt id (message_payload m)),
      (''content'', JString (message_content m)),
      (''created_at'', JString (message_created_at m))]"

definition message_to_json :: "message \<Rightarrow> json" where
  "message_to_json m = json_object (message_fields m)"

fun sender_text :: "sender \<Rightarrow> string" where
  "sender_text User = ''user''"
| "sender_text Ai = ''ai''"

text \<open>\<open>MESSAGE_COLUMNS\<close> and \<open>message_from_row\<close>.\<close>

definition message_from_row :: "server_clock \<Rightarrow> message_row \<Rightarrow> message" where
  "message_from_row clock r =
     \<lparr>message_key = msg_id r, message_chat = msg_chat r, message_sender = sender_text (msg_sender r),
      message_agentic = ((case msg_agentic r of None \<Rightarrow> 0 | Some i \<Rightarrow> i) \<noteq> 0),
      message_status = msg_status r, message_payload = msg_payload r, message_content = msg_content r,
      message_created_at = message_time clock (msg_id r)\<rparr>"

definition chat_from_row :: "server_clock \<Rightarrow> chat_row \<Rightarrow> chat" where
  "chat_from_row clock c =
     \<lparr>chat_key = chat_pk c, chat_owner = chat_user c, chat_heading = chat_title c,
      chat_created_at = chat_time clock (chat_pk c)\<rparr>"

section \<open>Reading\<close>

definition select_chat :: "server_clock \<Rightarrow> int \<Rightarrow> database \<Rightarrow> (sqlx_error + chat option) \<times> database" where
  "select_chat clock i db = (Inr (map_option (chat_from_row clock) (chat_at db i)), db)"

definition chats_chat :: "server_clock \<Rightarrow> int \<Rightarrow> chat option chat_op" where
  "chats_chat clock i = on_conn (on_core (select_chat clock i))"

text \<open>\<open>WHERE chat_id = ? ORDER BY id\<close>.\<close>

definition select_messages :: "server_clock \<Rightarrow> int \<Rightarrow> database \<Rightarrow> (sqlx_error + message list) \<times> database" where
  "select_messages clock c db =
     (Inr (map (message_from_row clock) (sort_key msg_id (filter (\<lambda>r. msg_chat r = c) (messages db)))), db)"

definition chats_messages :: "server_clock \<Rightarrow> int \<Rightarrow> message list chat_op" where
  "chats_messages clock c = on_conn (on_core (select_messages clock c))"

definition select_message :: "server_clock \<Rightarrow> int \<Rightarrow> database \<Rightarrow> (sqlx_error + message option) \<times> database" where
  "select_message clock i db = (Inr (map_option (message_from_row clock) (message_at db i)), db)"

definition chats_message :: "server_clock \<Rightarrow> int \<Rightarrow> message option chat_op" where
  "chats_message clock i = on_conn (on_core (select_message clock i))"

section \<open>Writing\<close>

text \<open>\<open>last_insert_id\<close> is unsigned.\<close>

definition chats_insert_id :: "nat \<Rightarrow> jobctl_error + int" where
  "chats_insert_id raw =
     (if int raw \<le> i64_max then Inr (int raw)
      else Inl (ConfigError (''insert id '' @ show_nat raw @ '' is out of range'')))"

text \<open>\<open>title VARCHAR(200)\<close>.\<close>

definition title_max :: nat where "title_max = 200"

definition insert_chat_row :: "int \<Rightarrow> int \<Rightarrow> string \<Rightarrow> chat_store \<Rightarrow> (sqlx_error + nat) \<times> chat_store" where
  "insert_chat_row user company title st =
     (if title_max < char_count title
      then (Inl (SqlxDatabase ''Data too long for column title''), st)
      else if int_max < next_chat_id st
      then (Inl (SqlxDatabase ''Failed to read auto-increment value from storage engine''), st)
      else (Inr (next_chat_id st),
            st\<lparr>core := (core st)\<lparr>chats := chats (core st) @
                 [\<lparr>chat_pk = int (next_chat_id st), chat_user = user, chat_company = company,
                   chat_title = title\<rparr>]\<rparr>,
               next_chat_id := Suc (next_chat_id st)\<rparr>))"

definition select_company :: "int \<Rightarrow> chat_store \<Rightarrow> (sqlx_error + int option) \<times> chat_store" where
  "select_company user st =
     (case map_of (users st) user of
        None \<Rightarrow> (Inr None, st)
      | Some None \<Rightarrow>
          (Inl (SqlxOther ''error occurred while decoding column 0: unexpected null; try decoding as an `Option`''), st)
      | Some (Some company) \<Rightarrow> (Inr (Some company), st))"

definition create_chat :: "int \<Rightarrow> string \<Rightarrow> int chat_op" where
  "create_chat user title st =
     (case on_conn (select_company user) st of
        (Inl e, st1) \<Rightarrow> (Inl e, st1)
      | (Inr None, st1) \<Rightarrow> (Inl (NotFoundError (''user '' @ show_int user @ '' does not exist'')), st1)
      | (Inr (Some company), st1) \<Rightarrow>
          (case on_conn (insert_chat_row user company (take_chars 200 title)) st1 of
             (Inl e, st2) \<Rightarrow> (Inl e, st2)
           | (Inr last_id, st2) \<Rightarrow> (chats_insert_id last_id, st2)))"

definition insert_agentic :: "int \<Rightarrow> string \<Rightarrow> int chat_op" where
  "insert_agentic c content st =
     (case on_conn (on_core (insert_message c User content (Some 1) None)) st of
        (Inl e, st1) \<Rightarrow> (Inl e, st1)
      | (Inr last_id, st1) \<Rightarrow> (chats_insert_id last_id, st1))"

section \<open>What the statements do\<close>

lemma on_conn_answered:
  "faults (core st) = [] \<Longrightarrow> on_conn stmt st = (map_err DbError (fst (stmt st)), snd (stmt st))"
  by (simp add: on_conn_def split: prod.split)

lemma on_conn_core:
  "on_conn (on_core stmt) st =
     (map_err DbError (fst (execute stmt (core st))), st\<lparr>core := snd (execute stmt (core st))\<rparr>)"
  by (cases "pop_fault (core st)"; cases "fst (pop_fault (core st))")
    (auto simp: on_conn_def on_core_def execute_def split: prod.split)

lemma chats_message_answered:
  "faults (core st) = [] \<Longrightarrow>
   chats_message clock i st = (Inr (map_option (message_from_row clock) (message_at (core st) i)), st)"
  by (simp add: chats_message_def on_conn_core select_message_def)

lemma chats_insert_id_small: "n \<le> int_max \<Longrightarrow> chats_insert_id n = Inr (int n)"
  by (simp add: chats_insert_id_def int_max_def i64_max_def)

lemma execute_insert_bound:
  assumes "execute (insert_message c s content a p) db = (Inr n, db')"
  shows "n \<le> int_max"
  using assms insert_message_bound [of c s content a p] by (auto simp: execute_def split: prod.splits fault.splits)

lemma insert_agentic_store:
  "store_insert (ChatId c) content (core st) =
     ((case fst (insert_agentic c content st) of
         Inl (DbError d) \<Rightarrow> Inl (Database d)
       | Inr i \<Rightarrow> Inr (MessageId i)
       | _ \<Rightarrow> undefined), core (snd (insert_agentic c content st)))"
  "\<exists>x. fst (insert_agentic c content st) = map_err DbError x"
proof -
  let ?ex = "execute (insert_message c User content (Some 1) None) (core st)"
  have "fst ?ex = Inr n \<Longrightarrow> n \<le> int_max" for n
    using execute_insert_bound [of c User content "Some 1" None "core st" n] by (cases ?ex) simp
  then show "store_insert (ChatId c) content (core st) =
     ((case fst (insert_agentic c content st) of
         Inl (DbError d) \<Rightarrow> Inl (Database d)
       | Inr i \<Rightarrow> Inr (MessageId i)
       | _ \<Rightarrow> undefined), core (snd (insert_agentic c content st)))"
    and "\<exists>x. fst (insert_agentic c content st) = map_err DbError x"
    by (cases ?ex; cases "fst ?ex";
        auto simp: insert_agentic_def on_conn_core store_insert_def on_pool_def insert_id_small
          chats_insert_id_small intro: exI [of _ "Inl _"] exI [of _ "Inr _"])+
qed

text \<open>
  C12: a message that \<open>jobctl\<close> inserts is a job like one posted to the API: under every schedule
  of faults \<open>insert_agentic\<close> has the effect, the id and the errors of the store's \<open>insert\<close>.
\<close>
theorem insert_agentic_is_store_insert:
  "snd (store_insert (ChatId c) content (core st)) = core (snd (insert_agentic c content st)) \<and>
   (\<forall>i. fst (insert_agentic c content st) = Inr i \<longleftrightarrow>
      fst (store_insert (ChatId c) content (core st)) = Inr (MessageId i)) \<and>
   (\<forall>e. fst (insert_agentic c content st) = Inl e \<longleftrightarrow>
      (\<exists>d. fst (store_insert (ChatId c) content (core st)) = Inl (Database d) \<and> e = DbError d))"
proof -
  obtain x where x: "fst (insert_agentic c content st) = map_err DbError x"
    using insert_agentic_store(2) by blast
  show ?thesis unfolding insert_agentic_store(1) x by (cases x) auto
qed

section \<open>New chats\<close>

definition chat_store_wf :: "chat_store \<Rightarrow> bool" where
  "chat_store_wf st \<longleftrightarrow> db_wf (core st) \<and> (\<forall>c \<in> set (chats (core st)). chat_pk c < int (next_chat_id st))"

lemma char_count_take_chars: "char_count (take_chars n s) \<le> n"
proof (cases "nth_char_offset s n")
  case None
  then show ?thesis using nth_char_offset_None [of s n] by (simp add: take_chars_def)
next
  case (Some i)
  then show ?thesis using nth_char_offset_Some(3) [OF Some] by (simp add: take_chars_def)
qed

text \<open>A shortened title always fits, so a chat is refused only for want of ids.\<close>

lemma insert_chat_row_fits:
  "insert_chat_row user company (take_chars 200 title) st =
     (if int_max < next_chat_id st
      then (Inl (SqlxDatabase ''Failed to read auto-increment value from storage engine''), st)
      else (Inr (next_chat_id st),
            st\<lparr>core := (core st)\<lparr>chats := chats (core st) @
                 [\<lparr>chat_pk = int (next_chat_id st), chat_user = user, chat_company = company,
                   chat_title = take_chars 200 title\<rparr>]\<rparr>,
               next_chat_id := Suc (next_chat_id st)\<rparr>))"
  using char_count_take_chars [of 200 title] by (simp add: insert_chat_row_def title_max_def)

lemma create_chat_answered:
  assumes ok: "faults (core st) = []" and run: "create_chat user title st = (Inr c, st')"
  obtains company where "map_of (users st) user = Some (Some company)" "c = int (next_chat_id st)"
    "st' = snd (insert_chat_row user company (take_chars 200 title) st)" "next_chat_id st \<le> int_max"
proof -
  obtain company where company: "map_of (users st) user = Some (Some company)"
    using ok run by (auto simp: create_chat_def on_conn_answered select_company_def split: option.splits)
  have run': "create_chat user title st =
      (case on_conn (insert_chat_row user company (take_chars 200 title)) st of
             (Inl e, st2) \<Rightarrow> (Inl e, st2)
           | (Inr last_id, st2) \<Rightarrow> (chats_insert_id last_id, st2))"
    using ok by (simp add: create_chat_def on_conn_answered select_company_def company)
  show ?thesis
  proof (cases "int_max < next_chat_id st")
    case True
    then show ?thesis using run by (simp add: run' on_conn_answered ok insert_chat_row_fits)
  next
    case False
    then show ?thesis
      using run by (intro that [OF company])
        (auto simp: run' on_conn_answered ok insert_chat_row_fits chats_insert_id_small)
  qed
qed

lemma db_wf_new_chat:
  assumes "db_wf db" and "chat_pk c \<notin> set (map chat_pk (chats db))"
  shows "db_wf (db\<lparr>chats := chats db @ [c]\<rparr>)"
proof -
  have same: "messages (db\<lparr>chats := cs\<rparr>) = messages db" "next_message_id (db\<lparr>chats := cs\<rparr>) = next_message_id db"
    "chats (db\<lparr>chats := cs\<rparr>) = cs" for cs by simp_all
  have "distinct (map chat_pk (chats db @ [c]))"
  proof -
    have "distinct (map chat_pk (chats db))" using assms(1) unfolding db_wf_def by blast
    with assms(2) show ?thesis by simp
  qed
  moreover have "set (map chat_pk (chats db)) \<subseteq> set (map chat_pk (chats db @ [c]))" by auto
  ultimately show ?thesis
    using assms(1) unfolding db_wf_def same by blast
qed

lemma chat_inserted:
  assumes wf: "chat_store_wf st" and n: "next_chat_id st \<le> int_max"
    and st': "st' = snd (insert_chat_row user company (take_chars 200 title) st)"
  shows "chat_store_wf st'" "faults (core st') = faults (core st)"
    "chat_at (core st') (int (next_chat_id st)) = Some \<lparr>chat_pk = int (next_chat_id st), chat_user = user,
       chat_company = company, chat_title = take_chars 200 title\<rparr>"
proof -
  let ?row = "\<lparr>chat_pk = int (next_chat_id st), chat_user = user, chat_company = company,
       chat_title = take_chars 200 title\<rparr>"
  have st'_eq: "st' = st\<lparr>core := (core st)\<lparr>chats := chats (core st) @ [?row]\<rparr>, next_chat_id := Suc (next_chat_id st)\<rparr>"
    using n by (simp add: st' insert_chat_row_fits)
  have fresh: "\<forall>c \<in> set (chats (core st)). chat_pk c < int (next_chat_id st)"
    using wf by (simp add: chat_store_wf_def)
  have parts: "core st' = (core st)\<lparr>chats := chats (core st) @ [?row]\<rparr>" "next_chat_id st' = Suc (next_chat_id st)"
    by (simp_all add: st'_eq)
  then have rows: "chats (core st') = chats (core st) @ [?row]" by simp
  have "db_wf (core st')"
    unfolding parts using wf fresh by (intro db_wf_new_chat) (auto simp: chat_store_wf_def)
  moreover have "chat_pk c < int (next_chat_id st')" if "c \<in> set (chats (core st'))" for c
    using that fresh unfolding rows parts(2) by fastforce
  ultimately show "chat_store_wf st'" by (simp add: chat_store_wf_def)
  show "faults (core st') = faults (core st)" by (simp add: st'_eq)
  have "find (\<lambda>c. chat_pk c = int (next_chat_id st)) (chats (core st)) = None"
    unfolding find_None_iff using fresh less_irrefl by metis
  then show "chat_at (core st') (int (next_chat_id st)) = Some ?row"
    by (simp add: st'_eq chat_at_def find_append)
qed

text \<open>
  C13: a chat that \<open>jobctl\<close> creates belongs to the given user and to the company of that user,
  and a prompt enqueued in it is a new job whose requester is exactly that user, without the
  rights of an administrator.
\<close>
theorem new_chat_job_is_the_users:
  assumes "chat_store_wf st" and "faults (core st) = []"
    and "create_chat user title st = (Inr c, st1)" and "insert_agentic c content st1 = (Inr i, st2)"
  shows "\<exists>company j. map_of (users st) user = Some (Some company) \<and>
    store_get (MessageId i) (core st2) = (Inr (Some j), core st2) \<and>
    job_chat j = ChatId c \<and> job_content j = content \<and> job_state j = New \<and>
    job_requester j = Some \<lparr>user_id = user, company_id = company, is_admin = False\<rparr>"
proof -
  obtain company where company: "map_of (users st) user = Some (Some company)" "c = int (next_chat_id st)"
    "st1 = snd (insert_chat_row user company (take_chars 200 title) st)" "next_chat_id st \<le> int_max"
    by (rule create_chat_answered [OF assms(2,3)])
  note made = chat_inserted [OF assms(1) company(4,3)]
  have run: "store_insert (ChatId c) content (core st1) = (Inr (MessageId i), core st2)"
    using insert_agentic_store(1) [of c content st1] assms(4) by (auto split: sum.splits)
  have wf: "db_wf (core st1)" "faults (core st1) = []"
    using made(1,2) assms(2) by (simp_all add: chat_store_wf_def)
  have at: "chat_at (core st1) c = Some \<lparr>chat_pk = c, chat_user = user, chat_company = company,
      chat_title = take_chars 200 title\<rparr>"
    using made(3) by (simp add: company(2))
  from inserted_job_is_new [OF wf run] at company(1) show ?thesis by auto
qed

definition sample_store :: chat_store where
  "sample_store = \<lparr>core = sample_db None [], users = [(3, Some 2), (4, None)], next_chat_id = 8\<rparr>"

lemma sample_store_simps [simp]:
  "core sample_store = sample_db None []" "users sample_store = [(3, Some 2), (4, None)]"
  "next_chat_id sample_store = 8"
  by (simp_all add: sample_store_def)

lemma sample_store_wf: "chat_store_wf sample_store"
  by (simp add: chat_store_wf_def)

theorem new_chat_job_is_the_users_witness:
  "\<exists>c st1 i st2 j. create_chat 3 ''t'' sample_store = (Inr c, st1) \<and> insert_agentic c ''hi'' st1 = (Inr i, st2) \<and>
     store_get (MessageId i) (core st2) = (Inr (Some j), core st2) \<and>
     job_requester j = Some \<lparr>user_id = 3, company_id = 2, is_admin = False\<rparr>"
proof -
  have ok: "faults (core sample_store) = []" by simp
  define st1 where "st1 = snd (insert_chat_row 3 2 (take_chars 200 ''t'') sample_store)"
  have made: "create_chat 3 ''t'' sample_store = (Inr 8, st1)"
    by (simp add: create_chat_def on_conn_answered select_company_def insert_chat_row_fits chats_insert_id_small
        int_max_def st1_def)
  have "faults (core st1) = []" "next_message_id (core st1) = 3" "8 \<in> set (map chat_pk (chats (core st1)))"
    by (simp_all add: st1_def insert_chat_row_fits int_max_def)
  then have "fst (insert_agentic 8 ''hi'' st1) = Inr 3"
    by (simp add: insert_agentic_def on_conn_core insert_message_def text_max_def int_max_def chats_insert_id_small)
  then obtain st2 where posted: "insert_agentic 8 ''hi'' st1 = (Inr 3, st2)" by (cases "insert_agentic 8 ''hi'' st1") simp
  from new_chat_job_is_the_users [OF sample_store_wf ok made posted] made posted show ?thesis by auto
qed

end
