(* ===== verification/Polling.thy ===== *)
theory Polling
  imports Prelude
begin

text \<open>
  Polling loops: a round looks at the state and either ends the loop with a result or goes on
  with what it remembers, after a pause in which others act. Such a loop may run for ever, so
  it is a partial function, with \<open>None\<close> for not returning. The locale \<open>poller\<close> states what
  is needed of a round to say when a loop returns and from which state.
\<close>

partial_function (option) poll_loop ::
  "(nat \<Rightarrow> 'l \<Rightarrow> 's \<Rightarrow> ('r + 'l) \<times> 's) \<Rightarrow> (nat \<Rightarrow> 's \<Rightarrow> 's) \<Rightarrow> nat \<Rightarrow> 'l \<Rightarrow> 's \<Rightarrow> ('r \<times> 's) option" where
  "poll_loop once pause n l s =
     (case once n l s of
        (Inl r, s1) \<Rightarrow> Some (r, s1)
      | (Inr l', s1) \<Rightarrow> poll_loop once pause (Suc n) l' (pause n s1))"

lemma poll_loop_ends: "once n l s = (Inl r, s1) \<Longrightarrow> poll_loop once pause n l s = Some (r, s1)"
  by (subst poll_loop.simps) simp

lemma poll_loop_goes_on:
  "once n l s = (Inr l', s1) \<Longrightarrow> poll_loop once pause n l s = poll_loop once pause (Suc n) l' (pause n s1)"
  by (subst poll_loop.simps) simp

lemma poll_loop_diverges:
  assumes go: "\<And>n l s. I n s \<Longrightarrow> \<exists>l' s1. once n l s = (Inr l', s1) \<and> I (Suc n) (pause n s1)" and "I n s"
  shows "poll_loop once pause n l s = None"
proof (rule ccontr)
  assume "poll_loop once pause n l s \<noteq> None"
  then obtain y where y: "poll_loop once pause n l s = Some y" by auto
  have "once' = once \<longrightarrow> pause' = pause \<longrightarrow> \<not> I n s" if "poll_loop once' pause' n l s = Some y"
    for once' pause' n l s y
  proof (rule poll_loop.raw_induct [OF _ that, where P = "\<lambda>o' p' n l s y. o' = once \<longrightarrow> p' = pause \<longrightarrow> \<not> I n s"])
    fix f o' p' n l s y
    assume IH: "\<And>o' p' n l s y. f o' p' n l s = Some y \<Longrightarrow> o' = once \<longrightarrow> p' = pause \<longrightarrow> \<not> I n s"
      and run: "(case o' n l s of (Inl r, s1) \<Rightarrow> Some (r, s1) | (Inr l', s1) \<Rightarrow> f o' p' (Suc n) l' (p' n s1)) = Some y"
    have False if same: "o' = once" "p' = pause" and "I n s"
    proof -
      obtain l' s1 where next_round: "once n l s = (Inr l', s1)" "I (Suc n) (pause n s1)"
        using go \<open>I n s\<close> by blast
      then have "f once pause (Suc n) l' (pause n s1) = Some y" using run same by simp
      with IH next_round(2) show False by blast
    qed
    then show "o' = once \<longrightarrow> p' = pause \<longrightarrow> \<not> I n s" by blast
  qed
  with y \<open>I n s\<close> show False by blast
qed

text \<open>A loop that returns does so with the result of a round.\<close>

lemma poll_loop_result:
  assumes "poll_loop once pause n l s = Some y"
  shows "\<exists>n l s1. once n l s1 = (Inl (fst y), snd y)"
proof (rule poll_loop.raw_induct [OF _ assms, where P = "\<lambda>once pause n l s y. \<exists>n l s1. once n l s1 = (Inl (fst y), snd y)"])
  fix f o' p' n l s y
  assume IH: "\<And>o' p' n l s y. f o' p' n l s = Some y \<Longrightarrow> \<exists>n l s1. o' n l s1 = (Inl (fst y), snd y)"
    and run: "(case o' n l s of (Inl r, s1) \<Rightarrow> Some (r, s1) | (Inr l', s1) \<Rightarrow> f o' p' (Suc n) l' (p' n s1)) = Some y"
  obtain x s1 where x: "o' n l s = (x, s1)" by (cases "o' n l s")
  show "\<exists>n l s1. o' n l s1 = (Inl (fst y), snd y)"
  proof (cases x)
    case (Inl r)
    then have "o' n l s = (Inl (fst y), snd y)" using x run by auto
    then show ?thesis by blast
  next
    case (Inr l')
    then show ?thesis using x run IH by auto
  qed
qed

text \<open>What the others have made of the shared state when round \<open>n\<close> looks at it.\<close>

primrec acted :: "(nat \<Rightarrow> 'd \<Rightarrow> 'd) \<Rightarrow> nat \<Rightarrow> 'd \<Rightarrow> 'd" where
  "acted act 0 d = d"
| "acted act (Suc n) d = act n (acted act n d)"

text \<open>
  A poller reads a shared state without changing it, ends exactly when that state is ready, and
  shows nothing until then.
\<close>

locale poller =
  fixes once :: "nat \<Rightarrow> 'l \<Rightarrow> 's \<Rightarrow> ('r + 'l) \<times> 's"
    and pause :: "nat \<Rightarrow> 's \<Rightarrow> 's"
    and shared :: "'s \<Rightarrow> 'd"
    and act :: "nat \<Rightarrow> 'd \<Rightarrow> 'd"
    and seen :: "'s \<Rightarrow> 'o"
    and good :: "'d \<Rightarrow> bool"
    and ready :: "'d \<Rightarrow> bool"
  assumes once_shared: "good (shared s) \<Longrightarrow> shared (snd (once n l s)) = shared s"
    and pause_shared: "shared (pause n s) = act n (shared s)"
    and once_ends: "good (shared s) \<Longrightarrow> ready (shared s) \<longleftrightarrow> (\<exists>r. fst (once n l s) = Inl r)"
    and once_seen: "good (shared s) \<Longrightarrow> \<not> ready (shared s) \<Longrightarrow> seen (snd (once n l s)) = seen s"
    and pause_seen: "seen (pause n s) = seen s"
begin

lemma round_goes_on:
  assumes "good (shared s)" and "\<not> ready (shared s)"
  obtains l' s1 where "once n l s = (Inr l', s1)" "shared s1 = shared s" "seen s1 = seen s"
proof -
  obtain x s1 where run: "once n l s = (x, s1)" by (cases "once n l s")
  moreover have "\<nexists>r. x = Inl r" using once_ends [OF assms(1), of n l] assms(2) run by simp
  then obtain l' where "x = Inr l'" by (cases x) auto
  moreover have "shared s1 = shared s" using once_shared [OF assms(1), of n l] run by simp
  moreover have "seen s1 = seen s" using once_seen [OF assms, of n l] run by simp
  ultimately show ?thesis using that by simp
qed

text \<open>Rounds that find nothing lead to a later round on the state the others made.\<close>

lemma rounds_go_on:
  assumes "\<forall>k < m. good (acted (\<lambda>k. act (n + k)) k (shared s)) \<and> \<not> ready (acted (\<lambda>k. act (n + k)) k (shared s))"
  shows "\<exists>l' s'. poll_loop once pause n l s = poll_loop once pause (n + m) l' s' \<and>
    shared s' = acted (\<lambda>k. act (n + k)) m (shared s) \<and> seen s' = seen s"
  using assms
proof (induction m)
  case 0
  then show ?case by auto
next
  case (Suc m)
  then obtain l' s' where IH: "poll_loop once pause n l s = poll_loop once pause (n + m) l' s'"
    "shared s' = acted (\<lambda>k. act (n + k)) m (shared s)" "seen s' = seen s" by auto
  then have "good (shared s')" "\<not> ready (shared s')" using Suc.prems by simp_all
  then obtain l2 s2 where step: "once (n + m) l' s' = (Inr l2, s2)" "shared s2 = shared s'" "seen s2 = seen s'"
    by (rule round_goes_on)
  show ?case
    using IH step poll_loop_goes_on [of once "n + m" l' s' l2 s2 pause]
    by (intro exI [of _ l2] exI [of _ "pause (n + m) s2"]) (simp add: pause_shared pause_seen)
qed

text \<open>The loop ends with the first round that finds the shared state ready.\<close>

lemma returns_when_ready:
  assumes "\<forall>k < m. good (acted act k (shared s)) \<and> \<not> ready (acted act k (shared s))"
    and "good (acted act m (shared s))" and "ready (acted act m (shared s))"
  shows "\<exists>l' s' r s''. once m l' s' = (Inl r, s'') \<and> poll_loop once pause 0 l s = Some (r, s'') \<and>
    shared s' = acted act m (shared s) \<and> seen s' = seen s"
proof -
  obtain l' s' where at: "poll_loop once pause 0 l s = poll_loop once pause m l' s'"
    "shared s' = acted act m (shared s)" "seen s' = seen s"
    using rounds_go_on [of m 0 s l] assms(1) by auto
  then obtain r where "fst (once m l' s') = Inl r"
    using once_ends [of s' m l'] assms(2,3) by auto
  then obtain s'' where "once m l' s' = (Inl r, s'')" by (cases "once m l' s'") auto
  with at poll_loop_ends [of once m l' s' r s'' pause] show ?thesis by auto
qed

lemma returns:
  assumes good: "\<forall>k. good (acted act k (shared s))" and "ready (acted act n (shared s))"
  shows "poll_loop once pause 0 l s \<noteq> None"
proof -
  define m where "m = (LEAST k. ready (acted act k (shared s)))"
  have "ready (acted act m (shared s))" unfolding m_def using assms(2) by (rule LeastI)
  moreover have "\<forall>k < m. \<not> ready (acted act k (shared s))" unfolding m_def by (auto dest: not_less_Least)
  ultimately show ?thesis using returns_when_ready [of m s l] good by auto
qed

text \<open>A loop whose state never becomes ready does not return.\<close>

lemma never_returns:
  assumes "\<forall>k. good (acted act k (shared s)) \<and> \<not> ready (acted act k (shared s))"
  shows "poll_loop once pause 0 l s = None"
proof (rule poll_loop_diverges [where I = "\<lambda>n s'. shared s' = acted act n (shared s)"])
  fix n l s'
  assume "shared s' = acted act n (shared s)"
  moreover from this have "good (shared s')" "\<not> ready (shared s')" using assms by simp_all
  then obtain l2 s2 where "once n l s' = (Inr l2, s2)" "shared s2 = shared s'" by (rule round_goes_on)
  ultimately show "\<exists>l2 s2. once n l s' = (Inr l2, s2) \<and> shared (pause n s2) = acted act (Suc n) (shared s)"
    by (simp add: pause_shared)
qed simp

end

end
