(* ===== verification/JobctlCli.thy ===== *)
theory JobctlCli
  imports JobctlApi JobctlChats Polling Config
begin

text \<open>
  \<open>crates/jobctl/src/main.rs\<close>: the commands of \<open>jobctl\<close>. A command acts on the output written
  so far, the database and the rest of the world (the runner behind its API), and ends with an
  exit code, a failure that \<open>main\<close> prints, or a panic. What the process is given (environment,
  standard input, network, clocks) is its host.
\<close>

section \<open>Hosts, states and results\<close>

datatype printed = Out string | Err string

datatype pause = PollPause f64 nat | StartPause nat

datatype failure = Failure string | Panic

text \<open>
  \<open>others\<close> is what other processes do while the command sleeps (for the poll interval, in round
  \<open>n\<close>); \<open>elapsed\<close> the seconds since the
  start of the loop in round \<open>n\<close>; \<open>dotenv_var\<close> the environment after reading \<open>.env\<close>.
\<close>

record 'w cli_host =
  host_env :: cli_env
  host_api :: "'w api_env"
  host_clock :: server_clock
  host_float :: "string \<Rightarrow> f64 option"
  dotenv_var :: "string \<Rightarrow> string option"
  stdin_terminal :: bool
  stdin_text :: "string + string"
  connect_error :: "connect_options \<Rightarrow> sqlx_error option"
  sql_statement :: "string \<Rightarrow> chat_store \<Rightarrow> (sqlx_error + (string list \<times> bytes option list) list) \<times> chat_store"
  others :: "pause \<Rightarrow> chat_store \<times> 'w \<Rightarrow> chat_store \<times> 'w"
  elapsed :: "nat \<Rightarrow> nat"
  current_exe :: "string + bytes"
  file_exists :: "bytes \<Rightarrow> bool"
  open_log :: "string option"
  spawn_runner :: "bytes \<Rightarrow> string \<Rightarrow> 'w \<Rightarrow> (string + nat) \<times> 'w"
  child_exited :: "nat \<Rightarrow> string + bool"
  write_pid :: "string option"
  send_kill :: "string \<Rightarrow> 'w \<Rightarrow> (string + bool) \<times> 'w"
  remove_pid :: "string option"

record 'w cli_state =
  outputs :: "printed list"
  chat_tables :: chat_store
  outside :: 'w
  pid_file :: "string option"

type_synonym ('w, 'a) cli_step = "'w cli_state \<Rightarrow> (failure + 'a) \<times> 'w cli_state"

text \<open>The \<open>?\<close> operator between steps.\<close>

definition and_then :: "('w, 'a) cli_step \<Rightarrow> ('a \<Rightarrow> ('w, 'b) cli_step) \<Rightarrow> ('w, 'b) cli_step" where
  "and_then m f s = (case m s of (Inl e, s1) \<Rightarrow> (Inl e, s1) | (Inr x, s1) \<Rightarrow> f x s1)"

definition result :: "failure + 'a \<Rightarrow> ('w, 'a) cli_step" where
  "result r s = (r, s)"

definition put :: "printed \<Rightarrow> 'w cli_state \<Rightarrow> 'w cli_state" where
  "put x s = s\<lparr>outputs := outputs s @ [x]\<rparr>"

definition print_line :: "string \<Rightarrow> 'w cli_state \<Rightarrow> 'w cli_state" where
  "print_line t = put (Out (t @ [newline]))"

definition eprint_line :: "string \<Rightarrow> 'w cli_state \<Rightarrow> 'w cli_state" where
  "eprint_line t = put (Err (t @ [newline]))"

text \<open>\<open>log\<close>: a dimmed line on standard error.\<close>

definition escape_char :: char where "escape_char = CHR 0x1B"

definition log_line :: "string \<Rightarrow> 'w cli_state \<Rightarrow> 'w cli_state" where
  "log_line t = eprint_line ([escape_char] @ ''[2m'' @ t @ [escape_char] @ ''[0m'')"

text \<open>A statement on the connection.\<close>

definition on_store :: "'a chat_op \<Rightarrow> ('w, 'a) cli_step" where
  "on_store f s =
     (case f (chat_tables s) of
        (r, st) \<Rightarrow> (map_err (\<lambda>e. Failure (jobctl_error_text e)) r, s\<lparr>chat_tables := st\<rparr>))"

text \<open>A call of the HTTP API.\<close>

definition on_world :: "('w \<Rightarrow> (jobctl_error + 'a) \<times> 'w) \<Rightarrow> ('w, 'a) cli_step" where
  "on_world f s =
     (case f (outside s) of
        (r, w) \<Rightarrow> (map_err (\<lambda>e. Failure (jobctl_error_text e)) r, s\<lparr>outside := w\<rparr>))"

definition sleep :: "'w cli_host \<Rightarrow> pause \<Rightarrow> 'w cli_state \<Rightarrow> 'w cli_state" where
  "sleep host p s =
     (case others host p (chat_tables s, outside s) of (st, w) \<Rightarrow> s\<lparr>chat_tables := st, outside := w\<rparr>)"

definition code_success :: nat where "code_success = 0"
definition code_failure :: nat where "code_failure = 1"
definition code_panic :: nat where "code_panic = 101"

section \<open>Helpers\<close>

definition text_or_stdin :: "'w cli_host \<Rightarrow> string list \<Rightarrow> string \<Rightarrow> ('w, string) cli_step" where
  "text_or_stdin host words hint =
     and_then
       (\<lambda>s. if words = []
            then (map_err Failure (stdin_text host), if stdin_terminal host then eprint_line hint s else s)
            else (Inr (join '' '' words), s))
       (\<lambda>t. result (if trim t = [] then Inl (Failure ''input is empty'') else Inr t))"

definition read_args :: "string list \<Rightarrow> string list \<Rightarrow> string list \<Rightarrow> failure + args" where
  "read_args vs fs raw = map_err Failure (args_parse vs fs raw)"

definition num_i64 :: "'w cli_host \<Rightarrow> args \<Rightarrow> string \<Rightarrow> failure + int option" where
  "num_i64 host a name = map_err Failure (arg_num parse_i64 (debug_text (host_env host)) a name)"

definition parse_i64_num :: "'w cli_host \<Rightarrow> string \<Rightarrow> string \<Rightarrow> failure + int" where
  "parse_i64_num host name raw = map_err Failure (parse_num parse_i64 (debug_text (host_env host)) name raw)"

definition num_f64 :: "'w cli_host \<Rightarrow> args \<Rightarrow> string \<Rightarrow> failure + f64 option" where
  "num_f64 host a name = map_err Failure (arg_num (host_float host) (debug_text (host_env host)) a name)"

text \<open>
  \<open>Duration::from_secs_f64\<close> panics for a number below zero, for infinities and not-a-number,
  and from \<open>2 ^ 64\<close> on (whose bits are \<open>0x43F0000000000000\<close>).
\<close>

definition valid_seconds :: "f64 \<Rightarrow> bool" where
  "valid_seconds x \<longleftrightarrow> \<not> (f64_negative x \<and> \<not> f64_is_zero x) \<and> f64_magnitude x < 0x43F0000000000000"

definition from_secs_f64 :: "f64 \<Rightarrow> failure + f64" where
  "from_secs_f64 x = (if valid_seconds x then Inr x else Inl Panic)"

definition two_seconds :: f64 where "two_seconds = 0x4000000000000000"

definition open_connection :: "'w cli_host \<Rightarrow> args \<Rightarrow> failure + unit" where
  "open_connection host a =
     bind_result (map_err (\<lambda>e. Failure (jobctl_error_text e)) (connect_target (host_env host) a)) (\<lambda>opts.
       case connect_error host opts of
         None \<Rightarrow> Inr ()
       | Some e \<Rightarrow> Inl (Failure (sqlx_error_text e)))"

definition db_values :: "string list" where "db_values = [''--env-file'', ''--database'']"

section \<open>sql and retrieve\<close>

definition sql_query :: "'w cli_host \<Rightarrow> string \<Rightarrow> string chat_op" where
  "sql_query host t st = (case sql_statement host t st of (r, st1) \<Rightarrow> (map_err DbError (map_sum id render_rows r), st1))"

definition cmd_sql :: "'w cli_host \<Rightarrow> string list \<Rightarrow> ('w, nat) cli_step" where
  "cmd_sql host raw =
     and_then (result (read_args db_values [] raw)) (\<lambda>a.
     and_then (text_or_stdin host (positional a) ''SQL (end with Ctrl-D):'') (\<lambda>t.
     and_then (result (open_connection host a)) (\<lambda>_.
     and_then (on_store (sql_query host t)) (\<lambda>table s.
       (Inr code_success, print_line table s)))))"

definition message_header :: "message \<Rightarrow> string" where
  "message_header m =
     ''#'' @ show_int (message_key m) @ '' '' @ message_sender m @ ''  '' @ message_created_at m @
     (if message_sender m = ''user'' \<and> message_agentic m
      then ''  [status '' @ (case message_status m of None \<Rightarrow> ''NULL'' | Some t \<Rightarrow> t) @ '']'' @
        (case payload_str m ''error'' of None \<Rightarrow> [] | Some e \<Rightarrow> ''  error: '' @ e)
      else [])"

definition show_message :: "message \<Rightarrow> 'w cli_state \<Rightarrow> 'w cli_state" where
  "show_message m s = print_line (message_content m) (log_line (message_header m) (print_line [] s))"

definition cmd_retrieve :: "'w cli_host \<Rightarrow> string list \<Rightarrow> ('w, nat) cli_step" where
  "cmd_retrieve host raw =
     and_then (result (read_args db_values [''--json''] raw)) (\<lambda>a.
     and_then (result (case positional a of
       [chat_text] \<Rightarrow> parse_i64_num host ''CHAT'' chat_text
     | _ \<Rightarrow> Inl (Failure ''usage: jobctl retrieve [--json] CHAT''))) (\<lambda>i.
     and_then (result (open_connection host a)) (\<lambda>_.
     and_then (on_store (chats_chat (host_clock host) i)) (\<lambda>found.
     and_then (result (ok_or found (Failure (''chat '' @ show_int i @ '' does not exist'')))) (\<lambda>c.
     and_then (on_store (chats_messages (host_clock host) i)) (\<lambda>ms s.
       if arg_flag a ''--json''
       then (Inr code_success, fold (\<lambda>m. print_line (api_print (host_api host) (message_to_json m))) ms s)
       else
         (let s1 = log_line (''chat '' @ show_int (chat_key c) @ '' (user '' @ show_int (chat_owner c) @ '', '' @
                     chat_created_at c @ ''): '' @ chat_heading c) s;
              s2 = fold show_message ms s1
          in (Inr code_success, if ms = [] then log_line ''(no messages)'' s2 else s2))))))))"

section \<open>enqueue\<close>

definition pad_left :: "nat \<Rightarrow> string \<Rightarrow> string" where
  "pad_left n t = replicate (n - length t) CHR '' '' @ t"

fun without_key :: "string \<Rightarrow> json \<Rightarrow> json" where
  "without_key k (JObject kvs) = JObject (filter (\<lambda>kv. fst kv \<noteq> k) kvs)"
| "without_key k v = v"

definition show_row :: "'w cli_host \<Rightarrow> message \<Rightarrow> 'w cli_state \<Rightarrow> 'w cli_state" where
  "show_row host m = log_line (''  '' @ api_print (host_api host) (without_key ''content'' (message_to_json m)))"

text \<open>One round of \<open>watch_row\<close>: what it remembers is the status it showed last.\<close>

definition watch_status :: "'w cli_host \<Rightarrow> nat \<Rightarrow> string option option \<Rightarrow> message \<Rightarrow> 'w cli_state \<Rightarrow> 'w cli_state" where
  "watch_status host n shown m s =
     (if shown \<noteq> Some (message_status m)
      then log_line (''+'' @ pad_left 4 (show_nat (elapsed host n)) @ ''s  status = '' @
             (case message_status m of None \<Rightarrow> ''NULL'' | Some t \<Rightarrow> t)) s
      else s)"

definition watch_done :: "'w cli_host \<Rightarrow> message \<Rightarrow> ('w, nat) cli_step" where
  "watch_done host m =
     and_then (result (ok_or (payload_i64 m ''reply_id'') (Failure ''done row has no payload.reply_id''))) (\<lambda>n.
     and_then (on_store (chats_message (host_clock host) n)) (\<lambda>found.
     and_then (result (ok_or found (Failure (''reply #'' @ show_int n @ '' is missing'')))) (\<lambda>reply s.
       (Inr code_success,
        print_line (message_content reply)
          (log_line (''ai message #'' @ show_int n @ '':'')
            (show_row host reply (show_row host m (log_line ''rows as the chat application sees them:'' s))))))))"

definition watch_failed :: "'w cli_host \<Rightarrow> message \<Rightarrow> ('w, nat) cli_step" where
  "watch_failed host m s =
     (let s1 = log_line (''job failed: '' @ (case payload_str m ''error'' of None \<Rightarrow> ''?'' | Some e \<Rightarrow> e)) (show_row host m s)
      in (Inr code_failure,
          case payload_str m ''result'' of
            None \<Rightarrow> s1
          | Some partial \<Rightarrow> print_line partial (log_line ''partial result:'' s1)))"

definition agentic_user :: "message option \<Rightarrow> message option" where
  "agentic_user found =
     (case found of
        None \<Rightarrow> None
      | Some m \<Rightarrow> if message_sender m = ''user'' \<and> message_agentic m then Some m else None)"

definition watch_once ::
  "'w cli_host \<Rightarrow> int \<Rightarrow> nat \<Rightarrow> string option option \<Rightarrow> 'w cli_state \<Rightarrow>
   ((failure + nat) + string option option) \<times> 'w cli_state" where
  "watch_once host i n shown s =
     (case on_store (chats_message (host_clock host) i) s of
        (Inl e, s1) \<Rightarrow> (Inl (Inl e), s1)
      | (Inr found, s1) \<Rightarrow>
          (case agentic_user found of
             None \<Rightarrow> (Inl (Inl (Failure (''message #'' @ show_int i @ '' is not an agentic user message''))), s1)
           | Some m \<Rightarrow>
               let s2 = watch_status host n shown m s1 in
               if message_status m = Some ''done'' then map_prod Inl id (watch_done host m s2)
               else if message_status m = Some ''failed'' then map_prod Inl id (watch_failed host m s2)
               else (Inr (Some (message_status m)), s2)))"

definition watch_row :: "'w cli_host \<Rightarrow> f64 \<Rightarrow> int \<Rightarrow> 'w cli_state \<Rightarrow> ((failure + nat) \<times> 'w cli_state) option" where
  "watch_row host poll i s = poll_loop (watch_once host i) (\<lambda>n. sleep host (PollPause poll n)) 0 None s"

text \<open>A step before something that may not return.\<close>

definition before_loop ::
  "('w, 'a) cli_step \<Rightarrow> ('a \<Rightarrow> 'w cli_state \<Rightarrow> ((failure + nat) \<times> 'w cli_state) option) \<Rightarrow>
   'w cli_state \<Rightarrow> ((failure + nat) \<times> 'w cli_state) option" where
  "before_loop m f s = (case m s of (Inl e, s1) \<Rightarrow> Some (Inl e, s1) | (Inr x, s1) \<Rightarrow> f x s1)"

definition first_line :: "string \<Rightarrow> string" where
  "first_line t = (case str_lines t of [] \<Rightarrow> [] | l # _ \<Rightarrow> l)"

text \<open>The chat of a new message: the one given, or a new one of the user.\<close>

definition enqueue_chat :: "'w cli_host \<Rightarrow> args \<Rightarrow> string \<Rightarrow> ('w, int) cli_step" where
  "enqueue_chat host a prompt =
     and_then (result (num_i64 host a ''--chat'')) (\<lambda>given.
       case given of
         Some c \<Rightarrow> result (Inr c)
       | None \<Rightarrow>
           and_then (result (num_i64 host a ''--user'')) (\<lambda>u.
             (let user = (case u of None \<Rightarrow> 1 | Some n \<Rightarrow> n) in
              and_then (on_store (create_chat user (first_line (trim prompt)))) (\<lambda>c s.
                (Inr c, log_line (''created chat '' @ show_int c @ '' for user '' @ show_int user) s)))))"

definition enqueue_message :: "'w cli_host \<Rightarrow> args \<Rightarrow> ('w, int \<times> int) cli_step" where
  "enqueue_message host a =
     and_then (text_or_stdin host (positional a) ''Prompt (end with Ctrl-D):'') (\<lambda>prompt.
     and_then (enqueue_chat host a prompt) (\<lambda>c.
     and_then (on_store (insert_agentic c prompt)) (\<lambda>i s.
       (Inr (c, i),
        log_line (''inserted user message #'' @ show_int i @ '' in chat '' @ show_int c @
          '' (status NULL, waiting for the runner to claim it)'') s))))"

definition enqueue_values :: "string list" where
  "enqueue_values = db_values @ [''--chat'', ''--user'', ''--show'', ''--poll-secs'']"

definition enqueue_args :: "'w cli_host \<Rightarrow> string list \<Rightarrow> failure + args \<times> f64 \<times> int option" where
  "enqueue_args host raw =
     bind_result (read_args enqueue_values [''--no-wait''] raw) (\<lambda>a.
     bind_result (num_f64 host a ''--poll-secs'') (\<lambda>secs.
     bind_result (from_secs_f64 (unwrap_or two_seconds secs)) (\<lambda>poll.
     bind_result (open_connection host a) (\<lambda>_.
     bind_result (num_i64 host a ''--show'') (\<lambda>shown.
       Inr (a, poll, shown))))))"

definition enqueued_json :: "int \<Rightarrow> int \<Rightarrow> json" where
  "enqueued_json c i = json_object [(''chat_id'', json_int c), (''message_id'', json_int i)]"

definition cmd_enqueue ::
  "'w cli_host \<Rightarrow> string list \<Rightarrow> 'w cli_state \<Rightarrow> ((failure + nat) \<times> 'w cli_state) option" where
  "cmd_enqueue host raw =
     before_loop (result (enqueue_args host raw)) (\<lambda>(a, poll, shown).
       case shown of
         Some i \<Rightarrow> watch_row host poll i
       | None \<Rightarrow>
           before_loop (enqueue_message host a) (\<lambda>(c, i).
             if arg_flag a ''--no-wait''
             then (\<lambda>s. Some (Inr code_success, print_line (api_print (host_api host) (enqueued_json c i)) s))
             else watch_row host poll i))"

section \<open>ask\<close>

definition pid_file_name :: string where "pid_file_name = ''.runner.pid''"
definition log_file_name :: string where "log_file_name = ''runner.log''"

definition runner_binary :: "bytes \<Rightarrow> bytes" where
  "runner_binary exe = with_file_name exe ''claude-job-runner''"

text \<open>The thirty attempts to see the runner that was started.\<close>

fun wait_healthy :: "'w cli_host \<Rightarrow> string \<Rightarrow> nat \<Rightarrow> nat \<Rightarrow> ('w, unit) cli_step" where
  "wait_healthy host addr n 0 s =
     (Inl (Failure (''runner did not become healthy; see '' @ log_file_name)), s)"
| "wait_healthy host addr n (Suc left) s =
     (case api_healthy (host_api host) addr (outside s) of
        (True, w) \<Rightarrow> (Inr (), s\<lparr>outside := w\<rparr>)
      | (False, w) \<Rightarrow>
          (case child_exited host n of
             Inl e \<Rightarrow> (Inl (Failure e), s\<lparr>outside := w\<rparr>)
           | Inr True \<Rightarrow> (Inl (Failure (''runner exited; see '' @ log_file_name)), s\<lparr>outside := w\<rparr>)
           | Inr False \<Rightarrow> wait_healthy host addr (Suc n) left (sleep host (StartPause n) (s\<lparr>outside := w\<rparr>))))"

definition spawn_step :: "'w cli_host \<Rightarrow> bytes \<Rightarrow> string \<Rightarrow> ('w, nat) cli_step" where
  "spawn_step host bin addr s =
     (case spawn_runner host bin addr (outside s) of
        (r, w) \<Rightarrow> (map_err Failure r, s\<lparr>outside := w\<rparr>))"

definition write_pid_file :: "'w cli_host \<Rightarrow> nat \<Rightarrow> ('w, unit) cli_step" where
  "write_pid_file host pid s =
     (case write_pid host of
        Some e \<Rightarrow> (Inl (Failure e), s)
      | None \<Rightarrow> (Inr (), s\<lparr>pid_file := Some (show_nat pid)\<rparr>))"

definition start_runner :: "'w cli_host \<Rightarrow> string \<Rightarrow> ('w, unit) cli_step" where
  "start_runner host addr =
     and_then (result (map_err Failure (current_exe host))) (\<lambda>exe.
       let bin = runner_binary exe in
       and_then (result (if file_exists host bin then Inr ()
         else Inl (Failure (from_utf8_lossy bin @ '' not found; run `cargo build --release --workspace`'')))) (\<lambda>_.
       and_then (\<lambda>s. (case open_log host of None \<Rightarrow> Inr () | Some e \<Rightarrow> Inl (Failure e),
         log_line (''starting runner on '' @ addr @ '' (log: '' @ log_file_name @ '')'') s)) (\<lambda>_.
       and_then (spawn_step host bin addr) (\<lambda>pid.
       and_then (write_pid_file host pid) (\<lambda>_.
         wait_healthy host addr 0 30)))))"

definition stop_runner :: "'w cli_host \<Rightarrow> ('w, nat) cli_step" where
  "stop_runner host s =
     (case pid_file s of
        None \<Rightarrow> (Inl (Failure (''no '' @ pid_file_name @ ''; the runner was not started by `jobctl ask`'')), s)
      | Some raw \<Rightarrow>
          (let pid = trim raw in
           case send_kill host pid (outside s) of
             (Inl e, w) \<Rightarrow> (Inl (Failure e), s\<lparr>outside := w\<rparr>)
           | (Inr killed, w) \<Rightarrow>
               (let s1 = log_line (if killed then ''sent SIGTERM to runner (pid '' @ pid @ '')''
                           else ''runner (pid '' @ pid @ '') was not running'') (s\<lparr>outside := w\<rparr>)
                in case remove_pid host of
                     Some e \<Rightarrow> (Inl (Failure e), s1)
                   | None \<Rightarrow> (Inr code_success, s1\<lparr>pid_file := None\<rparr>))))"

definition ask_chat :: "'w cli_host \<Rightarrow> args \<Rightarrow> failure + int" where
  "ask_chat host a =
     (case arg_value a ''--chat'' of
        Some raw \<Rightarrow> parse_i64_num host ''--chat'' raw
      | None \<Rightarrow>
          (case dotenv_var host ''ASK_CHAT_ID'' of
             Some raw \<Rightarrow> parse_i64_num host ''ASK_CHAT_ID'' raw
           | None \<Rightarrow> Inl (Failure ''a chat id is required (--chat N or ASK_CHAT_ID)'')))"

definition ask_poll :: "'w cli_host \<Rightarrow> failure + f64" where
  "ask_poll host =
     bind_result
       (case dotenv_var host ''ASK_POLL_SECS'' of
          Some raw \<Rightarrow> map_err Failure (parse_num (host_float host) (debug_text (host_env host)) ''ASK_POLL_SECS'' raw)
        | None \<Rightarrow> Inr two_seconds)
       from_secs_f64"

definition ask_addr :: "'w cli_host \<Rightarrow> string" where
  "ask_addr host = (case dotenv_var host ''HTTP_ADDR'' of None \<Rightarrow> default_addr | Some addr \<Rightarrow> addr)"

definition clear_line :: string where "clear_line = [CHR 0x0D, escape_char] @ ''[K''"

text \<open>One round of the loop of \<open>cmd_ask\<close>.\<close>

definition ask_once ::
  "'w cli_host \<Rightarrow> string \<Rightarrow> int \<Rightarrow> nat \<Rightarrow> unit \<Rightarrow> 'w cli_state \<Rightarrow> ((failure + nat) + unit) \<times> 'w cli_state" where
  "ask_once host addr i n u s =
     (case on_world (api_job (host_api host) addr i) s of
        (Inl e, s1) \<Rightarrow> (Inl (Inl e), s1)
      | (Inr j, s1) \<Rightarrow>
          (let status = as_str (json_index j ''status'') in
           if status = Some ''done''
           then (Inl (Inr code_success),
             print_line (unwrap_or [] (as_str (json_index j ''reply''))) (put (Err clear_line) s1))
           else if status = Some ''failed''
           then (Inl (Inr code_failure),
             eprint_line (''job #'' @ show_int i @ '' failed:'' @ [newline] @
               unwrap_or ''?'' (as_str (json_index j ''error''))) (put (Err clear_line) s1))
           else (Inr (), put (Err ([CHR 0x0D, escape_char] @ ''[2m['' @ unwrap_or ''?'' status @ ''] '' @
             pad_left 4 (show_nat (elapsed host n)) @ ''s'' @ [escape_char] @ ''[0m'')) s1)))"

definition ask_loop :: "'w cli_host \<Rightarrow> string \<Rightarrow> f64 \<Rightarrow> int \<Rightarrow> 'w cli_state \<Rightarrow> ((failure + nat) \<times> 'w cli_state) option" where
  "ask_loop host addr poll i s = poll_loop (ask_once host addr i) (\<lambda>n. sleep host (PollPause poll n)) 0 () s"

definition ensure_runner :: "'w cli_host \<Rightarrow> args \<Rightarrow> string \<Rightarrow> ('w, unit) cli_step" where
  "ensure_runner host a addr s =
     (case api_healthy (host_api host) addr (outside s) of
        (True, w) \<Rightarrow> (Inr (), s\<lparr>outside := w\<rparr>)
      | (False, w) \<Rightarrow>
          if arg_flag a ''--no-start''
          then (Inl (Failure (''no runner answers on '' @ addr)), s\<lparr>outside := w\<rparr>)
          else start_runner host addr (s\<lparr>outside := w\<rparr>))"

definition ask_post :: "'w cli_host \<Rightarrow> string \<Rightarrow> int \<Rightarrow> string \<Rightarrow> ('w, int) cli_step" where
  "ask_post host addr c prompt =
     and_then (on_world (api_create_job (host_api host) addr c prompt)) (\<lambda>j.
     and_then (result (ok_or (as_i64 (json_index j ''id'')) (Failure ''the API returned a job without an id''))) (\<lambda>i s.
       (Inr i, log_line (''job #'' @ show_int i @ '' queued; waiting ...'') s)))"

definition ask_start :: "'w cli_host \<Rightarrow> args \<Rightarrow> ('w, string \<times> f64 \<times> int) cli_step" where
  "ask_start host a =
     and_then (result (ask_chat host a)) (\<lambda>c.
     and_then (text_or_stdin host (positional a) ''Prompt (end with Ctrl-D):'') (\<lambda>prompt.
     and_then (result (ask_poll host)) (\<lambda>poll.
       let addr = ask_addr host in
       and_then (ensure_runner host a addr) (\<lambda>_.
       and_then (ask_post host addr c prompt) (\<lambda>i s. (Inr (addr, poll, i), s))))))"

definition cmd_ask ::
  "'w cli_host \<Rightarrow> string list \<Rightarrow> 'w cli_state \<Rightarrow> ((failure + nat) \<times> 'w cli_state) option" where
  "cmd_ask host raw =
     before_loop (result (read_args [''--chat''] [''--stop'', ''--no-start''] raw)) (\<lambda>a.
       if arg_flag a ''--stop'' then (\<lambda>s. Some (stop_runner host s))
       else before_loop (ask_start host a) (\<lambda>(addr, poll, i). ask_loop host addr poll i))"

section \<open>main\<close>

definition usage :: string where
  "usage = join [newline]
    [''jobctl - tools for the chat database and the runner'',
     [],
     ''usage:'',
     ''  jobctl sql [DB] [SQL...]                 run SQL (from args or stdin), print TSV'',
     ''  jobctl retrieve [DB] [--json] CHAT       print a whole chat, oldest message first'',
     ''  jobctl enqueue [DB] [--chat N] [--user N] [--no-wait] [--poll-secs S] [PROMPT...]'',
     ''                                           insert an agentic message and wait for the answer'',
     ''  jobctl enqueue [DB] --show ID            watch an existing message instead'',
     ''  jobctl ask [--chat N] [--no-start] [PROMPT...]'',
     ''                                           post a job through the HTTP API and wait for it'',
     ''  jobctl ask --stop                        stop a runner that `ask` started'',
     [],
     ''DB options (sql, retrieve, enqueue):'',
     ''  --env-file PATH   read DB_HOST/DB_USER/DB_PASSWORD[/DB_PORT] from PATH'',
     ''  --database NAME   database for env-file credentials (default: main)'',
     ''  Without --env-file, DATABASE_URL is used when set, else ~/general_datebase/.env.'',
     [],
     ''A prompt or SQL left off the command line is read from stdin.'',
     ''`ask` reads HTTP_ADDR (environment or .env, default 127.0.0.1:8080) and'',
     ''ASK_CHAT_ID; unless --no-start is given it starts target/release/claude-job-runner'',
     ''from the current directory when nothing answers, logging to runner.log.'']"

definition cli_dispatch ::
  "'w cli_host \<Rightarrow> string list \<Rightarrow> 'w cli_state \<Rightarrow> ((failure + nat) \<times> 'w cli_state) option" where
  "cli_dispatch host argv s =
     (case argv of
        [] \<Rightarrow> Some (Inl (Failure usage), s)
      | c # rest \<Rightarrow>
          if c = ''sql'' then Some (cmd_sql host rest s)
          else if c = ''retrieve'' then Some (cmd_retrieve host rest s)
          else if c = ''enqueue'' then cmd_enqueue host rest s
          else if c = ''ask'' then cmd_ask host rest s
          else if c \<in> {''-h'', ''--help'', ''help''} then Some (Inr code_success, print_line usage s)
          else Some (Inl (Failure (''unknown command '' @ debug_text (host_env host) c @ ''; see jobctl --help'')), s))"

text \<open>
  The exit status of the process, if it ends; a panic prints a message of the runtime. \<open>argv\<close> is
  what the system hands over, the name of the program first; \<open>std::env::args\<close> panics over an
  argument that is not Unicode, also over the one that is skipped.
\<close>

definition cli_main :: "'w cli_host \<Rightarrow> bytes list \<Rightarrow> 'w cli_state \<Rightarrow> (nat \<times> 'w cli_state) option" where
  "cli_main host argv s =
     (if \<exists>arg \<in> set argv. to_str arg = None then Some (code_panic, s)
      else map_option (\<lambda>(r, s1).
        case r of
          Inr code \<Rightarrow> (code, s1)
        | Inl (Failure e) \<Rightarrow> (code_failure, eprint_line (''jobctl: '' @ e) s1)
        | Inl Panic \<Rightarrow> (code_panic, s1)) (cli_dispatch host (drop 1 argv) s))"

end
