(* ===== verification/JobctlCliProps.thy ===== *)
theory JobctlCliProps
  imports JobctlCli Http
begin

text \<open>
  What \<open>jobctl enqueue\<close> and \<open>jobctl ask\<close> promise together with the runner: both loops are
  pollers, they return once the job is finished, and what they print is the answer that the
  runner recorded.
\<close>

section \<open>What is on standard output\<close>

fun out_text :: "printed \<Rightarrow> string" where
  "out_text (Out t) = t"
| "out_text (Err t) = []"

definition shown_text :: "'w cli_state \<Rightarrow> string" where
  "shown_text s = concat (map out_text (outputs s))"

definition shared_state :: "'w cli_state \<Rightarrow> chat_store \<times> 'w" where
  "shared_state s = (chat_tables s, outside s)"

lemma shown_text_put [simp]:
  "shown_text (put x s) = shown_text s @ out_text x"
  "shown_text (print_line t s) = shown_text s @ t @ [newline]"
  "shown_text (eprint_line t s) = shown_text s"
  "shown_text (log_line t s) = shown_text s"
  by (simp_all add: shown_text_def put_def print_line_def eprint_line_def log_line_def)

lemma shared_state_put [simp]:
  "shared_state (put x s) = shared_state s"
  "shared_state (print_line t s) = shared_state s"
  "shared_state (eprint_line t s) = shared_state s"
  "shared_state (log_line t s) = shared_state s"
  by (simp_all add: shared_state_def put_def print_line_def eprint_line_def log_line_def)

lemma tables_put [simp]:
  "chat_tables (put x s) = chat_tables s" "chat_tables (print_line t s) = chat_tables s"
  "chat_tables (eprint_line t s) = chat_tables s" "chat_tables (log_line t s) = chat_tables s"
  "outside (put x s) = outside s" "outside (print_line t s) = outside s"
  "outside (eprint_line t s) = outside s" "outside (log_line t s) = outside s"
  by (simp_all add: put_def print_line_def eprint_line_def log_line_def)

lemma sleep_simps [simp]:
  "shared_state (sleep host p s) = others host p (shared_state s)"
  "shown_text (sleep host p s) = shown_text s"
  by (cases "others host p (chat_tables s, outside s)"; simp add: sleep_def shared_state_def shown_text_def)+

lemma shown_text_fields [simp]:
  "shown_text (s\<lparr>outside := w\<rparr>) = shown_text s" "shown_text (s\<lparr>pid_file := p\<rparr>) = shown_text s"
  "shown_text (s\<lparr>chat_tables := st\<rparr>) = shown_text s"
  by (simp_all add: shown_text_def)

lemma result_simp [simp]: "result r s = (r, s)"
  by (simp add: result_def)

lemma and_then_Inr:
  "and_then m f s = (Inr y, s') \<longleftrightarrow> (\<exists>x s1. m s = (Inr x, s1) \<and> f x s1 = (Inr y, s'))"
  by (auto simp: and_then_def split: prod.split sum.split)

lemma on_store_message:
  assumes "faults (core (chat_tables s)) = []"
  shows "on_store (chats_message clock i) s =
    (Inr (map_option (message_from_row clock) (message_at (core (chat_tables s)) i)), s)"
  using assms by (simp add: on_store_def chats_message_answered)

section \<open>The loop of enqueue\<close>

text \<open>
  The watched row is there, with a status the runner knows, and can be read; it is decided when
  it is done or failed.
\<close>

definition job_at :: "int \<Rightarrow> database \<Rightarrow> bool" where
  "job_at i db \<longleftrightarrow> (\<exists>m t. message_at db i = Some m \<and> is_job_row m \<and> msg_status m = to_db t)"

definition watched :: "int \<Rightarrow> database \<Rightarrow> bool" where
  "watched i db \<longleftrightarrow> faults db = [] \<and> job_at i db"

definition decided :: "int \<Rightarrow> database \<Rightarrow> bool" where
  "decided i db \<longleftrightarrow>
     (case message_at db i of
        None \<Rightarrow> False
      | Some m \<Rightarrow> msg_status m = Some ''done'' \<or> msg_status m = Some ''failed'')"

lemma watch_status_frame [simp]:
  "shared_state (watch_status host n shown m s) = shared_state s"
  "shown_text (watch_status host n shown m s) = shown_text s"
  by (simp_all add: watch_status_def)

lemma show_row_frame [simp]:
  "shared_state (show_row host m s) = shared_state s" "shown_text (show_row host m s) = shown_text s"
  by (simp_all add: show_row_def)

lemma shared_tables: "shared_state s = shared_state t \<Longrightarrow> chat_tables s = chat_tables t"
  by (simp add: shared_state_def)

lemma watch_done_shared:
  assumes "faults (core (chat_tables s)) = []"
  shows "shared_state (snd (watch_done host m s)) = shared_state s"
  using assms
  by (cases "payload_i64 m ''reply_id''"; cases "message_at (core (chat_tables s)) (the (payload_i64 m ''reply_id''))")
    (simp_all add: watch_done_def and_then_def on_store_message)

lemma watch_failed_shared: "shared_state (snd (watch_failed host m s)) = shared_state s"
  by (simp add: watch_failed_def Let_def split: option.split)

lemma watch_once_row:
  assumes "faults (core (chat_tables s)) = []" and "message_at (core (chat_tables s)) i = Some m" and "is_job_row m"
  shows "watch_once host i n shown s =
    (let row = message_from_row (host_clock host) m; s2 = watch_status host n shown row s in
     if msg_status m = Some ''done'' then map_prod Inl id (watch_done host row s2)
     else if msg_status m = Some ''failed'' then map_prod Inl id (watch_failed host row s2)
     else (Inr (Some (msg_status m)), s2))"
proof -
  have "agentic_user (Some (message_from_row (host_clock host) m)) = Some (message_from_row (host_clock host) m)"
    using assms(3) by (simp add: agentic_user_def message_from_row_def is_job_row_def)
  moreover have "message_status (message_from_row (host_clock host) m) = msg_status m"
    by (simp add: message_from_row_def)
  ultimately show ?thesis
    using assms(1,2) by (simp add: watch_once_def on_store_message Let_def)
qed

interpretation watch: poller "watch_once host i" "\<lambda>n. sleep host (PollPause poll n)" shared_state
  "\<lambda>n. others host (PollPause poll n)" shown_text "\<lambda>d. watched i (core (fst d))" "\<lambda>d. decided i (core (fst d))"
  for host :: "'w cli_host" and i
proof
  fix n l and s :: "'w cli_state"
  assume "watched i (core (fst (shared_state s)))"
  then obtain m where ok: "faults (core (chat_tables s)) = []"
    and m: "message_at (core (chat_tables s)) i = Some m" "is_job_row m"
    by (auto simp: watched_def job_at_def shared_state_def)
  let ?row = "message_from_row (host_clock host) m"
  let ?s2 = "watch_status host n l ?row s"
  note run = watch_once_row [OF ok m, of host n l]
  have tables: "faults (core (chat_tables ?s2)) = []"
    using ok shared_tables [of ?s2 s] by simp
  show "shared_state (snd (watch_once host i n l s)) = shared_state s"
    using watch_done_shared [OF tables, of host ?row] watch_failed_shared [of host ?row ?s2]
    by (simp add: run Let_def)
  have dec: "decided i (core (fst (shared_state s))) \<longleftrightarrow> msg_status m = Some ''done'' \<or> msg_status m = Some ''failed''"
    by (simp add: decided_def shared_state_def m(1))
  show "decided i (core (fst (shared_state s))) \<longleftrightarrow> (\<exists>r. fst (watch_once host i n l s) = Inl r)"
    unfolding dec by (simp add: run Let_def)
  assume "\<not> decided i (core (fst (shared_state s)))"
  then show "shown_text (snd (watch_once host i n l s)) = shown_text s"
    unfolding dec by (simp add: run Let_def)
qed simp_all

section \<open>What enqueue prints\<close>

lemma watch_done_prints:
  assumes "faults (core (chat_tables s)) = []" and "payload_i64 m ''reply_id'' = Some n"
    and "message_at (core (chat_tables s)) n = Some reply"
  obtains s' where "watch_done host m s = (Inr code_success, s')"
    "shown_text s' = shown_text s @ msg_content reply @ [newline]"
  using assms by (simp add: watch_done_def and_then_def on_store_message message_from_row_def)

text \<open>A recorded answer stays where the done row points, whatever the store does next.\<close>

lemma recorded_answer:
  assumes rec: "reply_recorded db i answer n db'" and wf: "db_wf db'" and keep: "keeps_star db' db''"
    and doc: "\<forall>m. message_at db i = Some m \<longrightarrow> document_payload m"
  obtains m r where "message_at db i = Some m" "message_at db'' i = Some (done_row m n)"
    "message_at db'' n = Some r" "msg_content r = answer" "msg_sender r = Ai"
    "payload_i64 (message_from_row clock (done_row m n)) ''reply_id'' = Some n"
proof -
  obtain m where m: "message_at db i = Some m" "message_at db n = None"
    "\<And>j. message_at db' j = (if j = i then Some (done_row m n) else if j = n then Some (reply_row m answer n)
       else message_at db j)"
    using rec unfolding reply_recorded_def by blast
  have star: "evolves\<^sup>*\<^sup>* db' db''" using keep wf by (simp add: keeps_star_def)
  have "n \<noteq> i" using m(1,2) by auto
  then have at: "message_at db' i = Some (done_row m n)" "message_at db' n = Some (reply_row m answer n)"
    using m(3) by simp_all
  obtain r1 where r1: "message_at db'' i = Some r1" "row_step\<^sup>*\<^sup>* (done_row m n) r1"
    using evolves_star_row [OF star at(1)] by blast
  then have row: "r1 = done_row m n"
    using row_steps_terminal [OF r1(2), of Done] by simp
  obtain r where r: "message_at db'' n = Some r" "row_step\<^sup>*\<^sup>* (reply_row m answer n) r"
    using evolves_star_row [OF star at(2)] by blast
  then have content: "msg_content r = answer" "msg_sender r = Ai" using row_steps_frame by fastforce+
  have "reply_row m answer n \<in> set (messages db')" using message_at_Some [OF at(2)] by simp
  then have "0 < msg_id (reply_row m answer n)" "msg_id (reply_row m answer n) < int (next_message_id db')"
    using db_wf_row [OF wf] by blast+
  moreover have "next_message_id db' \<le> Suc int_max" using wf unfolding db_wf_def by blast
  moreover have "msg_id (reply_row m answer n) = n" by (simp add: reply_row_def)
  ultimately have "0 < n" "n < int (next_message_id db')" "next_message_id db' \<le> Suc int_max" by simp_all
  then have "in_i64 n" by (simp add: in_i64_def i64_min_def i64_max_def int_max_def)
  moreover have "document_payload m" using doc m(1) by simp
  ultimately have "payload_i64 (message_from_row clock (done_row m n)) ''reply_id'' = Some n"
    by (simp add: payload_i64_def message_from_row_def done_row_def json_get_json_set document_payload_def)
  with m(1) r1(1) row r(1) content show ?thesis by (intro that) simp_all
qed

lemma decided_done_row:
  "message_at db i = Some (done_row m n) \<Longrightarrow> decided i db"
  "message_at db i = Some (done_row m n) \<Longrightarrow> is_job_row m \<Longrightarrow> job_at i db"
  unfolding decided_def job_at_def using done_row_fields by (simp, metis)

text \<open>While the pending row of the finish existed, no earlier look found the row decided.\<close>

lemma undecided_before:
  assumes wf: "db_wf a" and keep: "keeps_star a db" and row: "job_at i a"
    and pending: "message_at db i = Some m0" "msg_status m0 = to_db Pending"
  shows "\<not> decided i a"
proof
  assume dec: "decided i a"
  obtain m where m: "message_at a i = Some m" using row by (auto simp: job_at_def)
  have "evolves\<^sup>*\<^sup>* a db" using keep wf by (simp add: keeps_star_def)
  then obtain r where r: "message_at db i = Some r" "row_step\<^sup>*\<^sup>* m r" using evolves_star_row m by blast
  have "msg_status m = to_db Done \<or> msg_status m = to_db Failed" using dec m by (simp add: decided_def)
  then have "r = m" using row_steps_terminal [OF r(2)] by (metis is_terminal.simps(1,2))
  then show False using r(1) pending dec m by (auto simp: decided_def)
qed

lemma keeps_star_row:
  assumes "db_wf a" and "keeps_star a b" and "job_at i a"
  shows "db_wf b \<and> job_at i b"
proof -
  obtain m t where m: "message_at a i = Some m" "is_job_row m" "msg_status m = to_db t"
    using assms(3) by (auto simp: job_at_def)
  have star: "evolves\<^sup>*\<^sup>* a b" "db_wf b" using assms(1,2) by (simp_all add: keeps_star_def)
  then obtain r where r: "message_at b i = Some r" "row_step\<^sup>*\<^sup>* m r" using evolves_star_row m(1) by blast
  have "is_job_row r" using row_steps_frame [OF r(2)] m(2) by (simp add: is_job_row_def)
  moreover obtain u where "msg_status r = to_db u" using row_steps_status [OF r(2) m(3)] by blast
  ultimately show ?thesis using r(1) star(2) unfolding job_at_def by blast
qed

text \<open>
  The runner's part of a history: during the first \<open>N\<close> pauses the store only does what its
  operations do, and in pause \<open>N\<close> a \<open>finish\<close> of the row with \<open>answer\<close> succeeds.
\<close>

definition finishes_in_pause :: "(nat \<Rightarrow> database) \<Rightarrow> int \<Rightarrow> string \<Rightarrow> nat \<Rightarrow> bool" where
  "finishes_in_pause dbs i answer N \<longleftrightarrow>
     (\<forall>k < N. keeps_star (dbs k) (dbs (Suc k))) \<and>
     (\<exists>db db'. keeps_star (dbs N) db \<and> finish (MessageId i) (Success answer) db = (Inr (), db') \<and>
        keeps_star db' (dbs (Suc N)) \<and> (\<forall>m. message_at db i = Some m \<longrightarrow> document_payload m))"

lemma finishes_facts:
  assumes fin: "finishes_in_pause dbs i answer N" and wf: "db_wf (dbs 0)"
    and row: "job_at i (dbs 0)"
  shows "\<forall>k \<le> N. db_wf (dbs k) \<and> job_at i (dbs k)"
    and "\<exists>db m0. message_at db i = Some m0 \<and> msg_status m0 = to_db Pending \<and> (\<forall>k \<le> N. keeps_star (dbs k) db)"
    and "\<exists>m n r. message_at (dbs (Suc N)) i = Some (done_row m n) \<and> is_job_row m \<and>
      message_at (dbs (Suc N)) n = Some r \<and> msg_content r = answer \<and> msg_sender r = Ai \<and>
      payload_i64 (message_from_row clock (done_row m n)) ''reply_id'' = Some n"
proof -
  obtain db db' where steps: "\<forall>k < N. keeps_star (dbs k) (dbs (Suc k))"
    and last_step: "keeps_star (dbs N) db" and ended: "finish (MessageId i) (Success answer) db = (Inr (), db')"
    and rest: "keeps_star db' (dbs (Suc N))" and doc: "\<forall>m. message_at db i = Some m \<longrightarrow> document_payload m"
    using fin unfolding finishes_in_pause_def by blast
  show all: "\<forall>k \<le> N. db_wf (dbs k) \<and> job_at i (dbs k)"
  proof (intro allI impI)
    fix k
    assume "k \<le> N"
    then show "db_wf (dbs k) \<and> job_at i (dbs k)"
    proof (induction k)
      case 0
      then show ?case using wf row by simp
    next
      case (Suc k)
      then show ?case using keeps_star_row [of "dbs k" "dbs (Suc k)" i] steps by simp
    qed
  qed
  have reach: "keeps_star (dbs (N - k)) db" for k
  proof (induction k)
    case 0
    then show ?case using last_step by simp
  next
    case (Suc k)
    show ?case
    proof (cases "N - k = 0")
      case True
      then show ?thesis using Suc by simp
    next
      case False
      then have "N - Suc k < N" "Suc (N - Suc k) = N - k" by simp_all
      then show ?thesis using steps Suc keeps_star_trans by metis
    qed
  qed
  have wf_db: "db_wf db" "job_at i db"
    using all last_step keeps_star_row [of "dbs N" db i] by auto
  have "atomic_outcome db i answer (Inr ()) db'"
    using finish_done_atomic [OF wf_db(1), of "MessageId i" answer "Inr ()" db'] ended by simp
  then obtain n where rec: "reply_recorded db i answer n db'" and wf': "db_wf db'"
    by (auto simp: atomic_outcome_def)
  obtain m0 where m0: "message_at db i = Some m0" "msg_status m0 = to_db Pending"
    using rec by (auto simp: reply_recorded_def)
  have "keeps_star (dbs k) db" if "k \<le> N" for k using reach [of "N - k"] that by simp
  then show "\<exists>db m0. message_at db i = Some m0 \<and> msg_status m0 = to_db Pending \<and> (\<forall>k \<le> N. keeps_star (dbs k) db)"
    using m0 by blast
  obtain m r where "message_at db i = Some m" "message_at (dbs (Suc N)) i = Some (done_row m n)"
    "message_at (dbs (Suc N)) n = Some r" "msg_content r = answer" "msg_sender r = Ai"
    "payload_i64 (message_from_row clock (done_row m n)) ''reply_id'' = Some n"
    by (rule recorded_answer [OF rec wf' rest doc])
  moreover from this have "is_job_row m" using wf_db(2) by (auto simp: job_at_def)
  ultimately show "\<exists>m n r. message_at (dbs (Suc N)) i = Some (done_row m n) \<and> is_job_row m \<and>
      message_at (dbs (Suc N)) n = Some r \<and> msg_content r = answer \<and> msg_sender r = Ai \<and>
      payload_i64 (message_from_row clock (done_row m n)) ''reply_id'' = Some n" by blast
qed

section \<open>The message that enqueue inserts\<close>

lemma text_or_stdin_frame:
  "text_or_stdin host words hint s = (r, s1) \<Longrightarrow> shared_state s1 = shared_state s \<and> shown_text s1 = shown_text s"
  by (auto simp: text_or_stdin_def and_then_def split: if_splits prod.splits sum.splits)

lemma on_store_Inr:
  "on_store f s = (Inr x, s1) \<longleftrightarrow> (\<exists>st. f (chat_tables s) = (Inr x, st) \<and> s1 = s\<lparr>chat_tables := st\<rparr>)"
  by (cases "f (chat_tables s)"; cases "fst (f (chat_tables s))") (auto simp: on_store_def)

lemma create_chat_keeps:
  assumes "create_chat user title st = (Inr c, st')" and "faults (core st) = []" and "chat_store_wf st"
  shows "chat_store_wf st' \<and> faults (core st') = []"
proof -
  obtain company where company: "st' = snd (insert_chat_row user company (take_chars 200 title) st)"
    "next_chat_id st \<le> int_max"
    by (rule create_chat_answered [OF assms(2,1)])
  show ?thesis using chat_inserted(1,2) [OF assms(3) company(2,1)] assms(2) by metis
qed

lemma enqueue_chat_frame:
  assumes "enqueue_chat host a prompt s = (Inr c, s1)"
    and "faults (core (chat_tables s)) = []" and "chat_store_wf (chat_tables s)"
  shows "faults (core (chat_tables s1)) = [] \<and> chat_store_wf (chat_tables s1) \<and> shown_text s1 = shown_text s"
proof -
  obtain given where given: "num_i64 host a ''--chat'' = Inr given"
    using assms(1) by (auto simp: enqueue_chat_def and_then_Inr)
  show ?thesis
  proof (cases given)
    case (Some c')
    then show ?thesis using assms given by (simp add: enqueue_chat_def and_then_def)
  next
    case None
    then obtain user title st where made: "create_chat user title (chat_tables s) = (Inr c, st)"
      and s1: "chat_tables s1 = st" "shown_text s1 = shown_text s"
      using assms(1) given by (auto simp: enqueue_chat_def and_then_Inr on_store_Inr Let_def)
    then show ?thesis using create_chat_keeps [OF made assms(2,3)] by simp
  qed
qed

lemma insert_agentic_row:
  assumes "insert_agentic c content st = (Inr i, st')" and ok: "faults (core st) = []" and wf: "db_wf (core st)"
  shows "db_wf (core st') \<and> job_at i (core st')"
proof -
  obtain db' where ins: "insert_message c User content (Some 1) None (core st) = (Inr (next_message_id (core st)), db')"
    and st': "st' = st\<lparr>core := db'\<rparr>" and i: "chats_insert_id (next_message_id (core st)) = Inr i"
    using assms(1,2) by (auto simp: insert_agentic_def on_conn_core insert_message_def split: if_splits)
  have n: "next_message_id (core st) \<le> int_max" by (rule insert_message_bound [OF ins])
  have i_eq: "i = int (next_message_id (core st))" using i by (simp add: chats_insert_id_small [OF n])
  have "db_wf db'" using db_wf_insert [OF wf, of c User content "Some 1" None] ins by simp
  moreover have "job_at i db'"
    using message_at_insert(2) [OF wf ins, of i] unfolding job_at_def
    by (intro exI [of _ "the (message_at db' i)"] exI [of _ New]) (simp add: i_eq is_job_row_def)
  ultimately show ?thesis by (simp add: st')
qed

lemma enqueue_message_row:
  assumes run: "enqueue_message host a s = (Inr (c, i), s1)"
    and ok: "faults (core (chat_tables s)) = []" and wf: "chat_store_wf (chat_tables s)"
  shows "db_wf (core (chat_tables s1)) \<and> job_at i (core (chat_tables s1)) \<and> shown_text s1 = shown_text s"
proof -
  obtain prompt s2 s3 st where
    read: "text_or_stdin host (positional a) ''Prompt (end with Ctrl-D):'' s = (Inr prompt, s2)"
    and chat: "enqueue_chat host a prompt s2 = (Inr c, s3)"
    and ins: "insert_agentic c prompt (chat_tables s3) = (Inr i, st)"
    and s1: "chat_tables s1 = st" "shown_text s1 = shown_text s3"
    using run by (auto simp: enqueue_message_def and_then_Inr on_store_Inr)
  have "chat_tables s2 = chat_tables s" "shown_text s2 = shown_text s"
    using text_or_stdin_frame [OF read] by (simp_all add: shared_state_def)
  then have s3: "faults (core (chat_tables s3)) = [] \<and> chat_store_wf (chat_tables s3) \<and> shown_text s3 = shown_text s"
    using enqueue_chat_frame [OF chat] ok wf by simp
  then have "db_wf (core (chat_tables s3))" by (simp add: chat_store_wf_def)
  with insert_agentic_row [OF ins] s3 s1 show ?thesis by simp
qed

text \<open>
  C7: \<open>jobctl enqueue\<close> waits for the answer and prints it: once its message is inserted, however
  long the runner takes, when a \<open>finish\<close> with an answer succeeds the command returns with
  success, and what it has written to standard output is exactly that answer and a newline.
\<close>
theorem enqueue_prints_the_answer:
  assumes args: "enqueue_args host raw = Inr (a, poll, None)" "\<not> arg_flag a ''--no-wait''"
    and start: "chat_store_wf (chat_tables s)" "faults (core (chat_tables s)) = []"
    and posted: "enqueue_message host a s = (Inr (c, i), s1)"
    and hist: "hist = (\<lambda>k. acted (\<lambda>n. others host (PollPause poll n)) k (shared_state s1))"
    and quiet: "\<forall>k. faults (core (fst (hist k))) = []"
    and runner: "finishes_in_pause (\<lambda>k. core (fst (hist k))) i answer N"
  shows "\<exists>s'. cmd_enqueue host raw s = Some (Inr code_success, s') \<and>
    shown_text s' = shown_text s @ answer @ [newline]"
proof -
  have row0: "db_wf (core (fst (hist 0)))" "job_at i (core (fst (hist 0)))"
    and shown: "shown_text s1 = shown_text s"
    using enqueue_message_row [OF posted start(2,1)] by (simp_all add: hist shared_state_def)
  note facts = finishes_facts [OF runner row0]
  obtain db m0 where pending: "message_at db i = Some m0" "msg_status m0 = to_db Pending"
    "\<forall>k \<le> N. keeps_star (core (fst (hist k))) db" using facts(2) by blast
  obtain m n r where final: "message_at (core (fst (hist (Suc N)))) i = Some (done_row m n)" "is_job_row m"
    "message_at (core (fst (hist (Suc N)))) n = Some r" "msg_content r = answer"
    "payload_i64 (message_from_row (host_clock host) (done_row m n)) ''reply_id'' = Some n"
    using facts(3) [of "host_clock host"] by blast
  have looked: "watched i (core (fst (hist k))) \<and> \<not> decided i (core (fst (hist k)))" if "k \<le> N" for k
  proof -
    have row: "db_wf (core (fst (hist k)))" "job_at i (core (fst (hist k)))"
      using facts(1) that by blast+
    have "keeps_star (core (fst (hist k))) db" using pending(3) that by blast
    with undecided_before [OF row(1) _ row(2) pending(1,2)] row(2) quiet show ?thesis by (simp add: watched_def)
  qed
  have at_last: "watched i (core (fst (hist (Suc N))))" "decided i (core (fst (hist (Suc N))))"
    using final(1,2) quiet decided_done_row [of _ i m n] by (simp_all add: watched_def)
  obtain l s2 r' s' where last_round: "watch_once host i (Suc N) l s2 = (Inl r', s')"
    and run: "watch_row host poll i s1 = Some (r', s')" and s2: "shared_state s2 = hist (Suc N)" "shown_text s2 = shown_text s1"
    using watch.returns_when_ready [of "Suc N" i host poll s1 None] looked at_last
    by (auto simp: watch_row_def hist less_Suc_eq_le)
  let ?row = "message_from_row (host_clock host) (done_row m n)"
  let ?s3 = "watch_status host (Suc N) l ?row s2"
  have tables: "core (chat_tables s2) = core (fst (hist (Suc N)))"
    using s2(1) by (metis fst_conv shared_state_def)
  have same: "chat_tables ?s3 = chat_tables s2" by (rule shared_tables) simp
  have ok: "faults (core (chat_tables s2)) = []" using quiet tables by simp
  obtain s4 where "watch_done host ?row ?s3 = (Inr code_success, s4)"
    "shown_text s4 = shown_text ?s3 @ msg_content r @ [newline]"
    by (rule watch_done_prints [of ?s3 ?row n r]) (use ok tables same final in simp_all)
  moreover have "watch_once host i (Suc N) l s2 = map_prod Inl id (watch_done host ?row ?s3)"
    using watch_once_row [OF ok, of i "done_row m n" host "Suc N" l] final(1,2) tables by (simp add: Let_def)
  ultimately have "r' = Inr code_success" "shown_text s' = shown_text s @ answer @ [newline]"
    using last_round s2(2) shown final(4) by auto
  moreover have "cmd_enqueue host raw s = watch_row host poll i s1"
    using args posted by (simp add: cmd_enqueue_def before_loop_def)
  ultimately show ?thesis using run by simp
qed

text \<open>A host on which the runner answers during the first pause.\<close>

definition demo_env :: cli_env where
  "demo_env = \<lparr>cli_var = [''DATABASE_URL'' \<mapsto> ''u''], home_dir = None, read_file = (\<lambda>_. Inl ''no''),
     url_error = (\<lambda>_. None), debug_text = id\<rparr>"

definition demo_answer :: "pause \<Rightarrow> chat_store \<times> 'w \<Rightarrow> chat_store \<times> 'w" where
  "demo_answer p d =
     (if p = PollPause two_seconds 0
      then ((fst d)\<lparr>core := snd (finish (MessageId 3) (Success ''42'') (snd (try_claim (MessageId 3) (core (fst d)))))\<rparr>, snd d)
      else d)"

definition demo_host :: "'w api_env \<Rightarrow> (pause \<Rightarrow> chat_store \<times> 'w \<Rightarrow> chat_store \<times> 'w) \<Rightarrow> 'w cli_host" where
  "demo_host api acts =
     \<lparr>host_env = demo_env, host_api = api, host_clock = \<lparr>chat_time = (\<lambda>_. ''t''), message_time = (\<lambda>_. ''t'')\<rparr>,
      host_float = (\<lambda>_. None), dotenv_var = (\<lambda>_. None), stdin_terminal = False, stdin_text = Inr ''hi'',
      connect_error = (\<lambda>_. None), sql_statement = (\<lambda>_ st. (Inr [], st)), others = acts, elapsed = id,
      current_exe = Inr ''/bin/jobctl'', file_exists = (\<lambda>_. True), open_log = None,
      spawn_runner = (\<lambda>_ _ w. (Inr 1, w)), child_exited = (\<lambda>_. Inr False), write_pid = None,
      send_kill = (\<lambda>_ w. (Inr True, w)), remove_pid = None\<rparr>"

definition demo_line :: "string list" where
  "demo_line = [''--chat'', ''7'', ''hi'']"

definition demo_args :: args where
  "demo_args = \<lparr>arg_values = [''--chat'' \<mapsto> ''7''], arg_flags = {}, positional = [''hi'']\<rparr>"

lemma demo_args_fields [simp]:
  "arg_value demo_args name = (if name = ''--chat'' then Some ''7'' else None)"
  "arg_flag demo_args name = False" "positional demo_args = [''hi'']"
  by (simp_all add: demo_args_def arg_value_def arg_flag_def)

lemma demo_parse:
  "''--chat'' \<in> set vs \<Longrightarrow> args_parse vs fs demo_line = Inr demo_args"
  by (simp add: args_parse_def demo_line_def args_loop.simps(2) option_name_def no_args_def put_value_def
      push_word_def demo_args_def)

lemma demo_trim: "trim ''7'' = ''7''" "trim ''hi'' = ''hi''" "trim ''u'' = ''u''" "trim ''hi'' \<noteq> []"
  by (simp_all add: trim_graph is_graph_def byte_def)

lemma demo_chat: "num_i64 (demo_host api acts) demo_args ''--chat'' = Inr (Some 7)"
  "num_i64 (demo_host api acts) demo_args ''--show'' = Inr None"
  by (simp_all add: num_i64_def arg_num_def parse_num_def demo_trim parse_i64_def is_ascii_digit_def byte_def
      in_i64_def i64_min_def i64_max_def)

lemma demo_enqueue_args: "enqueue_args (demo_host api acts) demo_line = Inr (demo_args, two_seconds, None)"
proof -
  have "num_f64 (demo_host api acts) demo_args ''--poll-secs'' = Inr None"
    by (simp add: num_f64_def arg_num_def)
  moreover have "from_secs_f64 two_seconds = Inr two_seconds"
    by (simp add: from_secs_f64_def valid_seconds_def two_seconds_def f64_negative_def f64_magnitude_def)
  moreover have "open_connection (demo_host api acts) demo_args = Inr ()"
    by (simp add: open_connection_def connect_target_def db_resolve_def from_url_def demo_host_def demo_env_def demo_trim)
  moreover have "read_args enqueue_values [''--no-wait''] demo_line = Inr demo_args"
    using demo_parse [of enqueue_values] by (simp add: read_args_def enqueue_values_def)
  ultimately show ?thesis by (simp add: enqueue_args_def demo_chat)
qed

definition demo_state :: "'w \<Rightarrow> 'w cli_state" where
  "demo_state w = \<lparr>outputs = [], chat_tables = sample_store, outside = w, pid_file = None\<rparr>"

lemma demo_posted:
  obtains db1 s1 where "enqueue_message (demo_host api acts) demo_args (demo_state w) = (Inr (7, 3), s1)"
    "insert_message 7 User ''hi'' (Some 1) None (sample_db None []) = (Inr 3, db1)"
    "shared_state s1 = (sample_store\<lparr>core := db1\<rparr>, w)"
proof -
  obtain db1 where ins: "insert_message 7 User ''hi'' (Some 1) None (sample_db None []) = (Inr 3, db1)"
    by (simp add: insert_message_def text_max_def int_max_def)
  have "insert_agentic 7 ''hi'' sample_store = (Inr 3, sample_store\<lparr>core := db1\<rparr>)"
    using ins by (simp add: insert_agentic_def on_conn_core chats_insert_id_small int_max_def)
  then have post: "on_store (insert_agentic 7 ''hi'') (demo_state w) = (Inr 3, (demo_state w)\<lparr>chat_tables := sample_store\<lparr>core := db1\<rparr>\<rparr>)"
    by (simp add: on_store_def demo_state_def)
  have "text_or_stdin (demo_host api acts) [''hi''] t s = (Inr ''hi'', s)" for t s
    by (simp add: text_or_stdin_def and_then_def demo_trim)
  then have "enqueue_message (demo_host api acts) demo_args (demo_state w) =
      (Inr (7, 3), log_line (''inserted user message #'' @ show_int 3 @ '' in chat '' @ show_int 7 @
          '' (status NULL, waiting for the runner to claim it)'') ((demo_state w)\<lparr>chat_tables := sample_store\<lparr>core := db1\<rparr>\<rparr>))"
    using post by (simp add: enqueue_message_def and_then_def enqueue_chat_def demo_chat)
  then show ?thesis by (rule that [OF _ ins]) (simp add: shared_state_def demo_state_def)
qed

text \<open>The runner claims and finishes message 3 of a database where it is new.\<close>

lemma demo_claimed:
  assumes wf: "db_wf db1" and ok: "faults db1 = []" and n: "next_message_id db1 \<le> int_max"
    and m: "message_at db1 3 = Some m" "is_unclaimed m" "msg_payload m = None"
  obtains m2 db2 db3 where "try_claim (MessageId 3) db1 = (Inr True, db2)" "keeps_star db1 db2"
    "finish (MessageId 3) (Success ''42'') db2 = (Inr (), db3)" "faults db3 = []"
    "status_at db3 3 = Some (Some ''done'')" "message_at db2 3 = Some m2" "document_payload m2"
proof -
  let ?db2 = "snd (claim_row 3 db1)"
  have id: "msg_id m = 3" using message_at_Some [OF m(1)] by simp
  have "fst (claim_row 3 db1) = Inr 1"
    using update_count_by_id [OF wf, of 3 is_unclaimed] m(1,2) by (simp add: claim_row_def)
  then have claim: "try_claim (MessageId 3) db1 = (Inr True, ?db2)"
    using ok by (simp add: try_claim_def on_pool_answered)
  have keep: "keeps_star db1 ?db2"
    using keeps_star_keeps [OF keeps_try_claim [of db1 "MessageId 3"]] claim by simp
  have wf2: "db_wf ?db2" using db_wf_update [OF wf] by (simp add: claim_row_def)
  have at: "message_at ?db2 3 = Some (m\<lparr>msg_status := to_db Pending\<rparr>)"
    using message_at_update [of "\<lambda>r. r\<lparr>msg_status := to_db Pending\<rparr>"] m id by (simp add: claim_row_def)
  have f2: "faults ?db2 = []" "next_message_id ?db2 = next_message_id db1"
    using ok by (simp_all add: claim_row_def update_messages_def)
  have "recordable ?db2 3 ''42''"
    using at f2 n by (simp add: recordable_def text_max_def)
  then obtain db3 where fin: "finish (MessageId 3) (Success ''42'') ?db2 = (Inr (), db3)" "faults db3 = []"
    and rec: "reply_recorded ?db2 3 ''42'' (int (next_message_id ?db2)) db3"
    using finish_done_answered [OF wf2 f2(1)] by blast
  obtain m0 where "message_at db3 3 = Some (done_row m0 (int (next_message_id ?db2)))"
    using rec by (auto simp: reply_recorded_def)
  then have st: "status_at db3 3 = Some (Some ''done'')" by (simp add: status_at_def done_row_def)
  have doc: "document_payload (m\<lparr>msg_status := to_db Pending\<rparr>)" by (simp add: document_payload_def m(3))
  show ?thesis by (rule that [OF claim keep fin st at doc])
qed

lemma demo_inserted:
  assumes ins: "insert_message 7 User ''hi'' (Some 1) None (sample_db None []) = (Inr 3, db1)"
  shows "db_wf db1" "faults db1 = []" "next_message_id db1 \<le> int_max"
    "\<exists>m. message_at db1 3 = Some m \<and> is_unclaimed m \<and> msg_payload m = None"
proof -
  show "db_wf db1" using db_wf_insert [OF sample_db_wf, of 7 User "''hi''" "Some 1" None None "[]"] ins by simp
  show "faults db1 = []" "next_message_id db1 \<le> int_max"
    using ins by (auto simp: insert_message_def int_max_def split: if_splits)
  show "\<exists>m. message_at db1 3 = Some m \<and> is_unclaimed m \<and> msg_payload m = None"
    using message_at_insert(2) [OF sample_db_wf ins, of 3] by (simp add: is_unclaimed_def is_job_row_def)
qed

definition silent_api :: "unit api_env" where
  "silent_api = \<lparr>api_net = (\<lambda>_ _ w. ((0, NoConnection ''off''), w)), api_parse = (\<lambda>_. Inl ''e''),
     api_print = (\<lambda>_. ''{}'')\<rparr>"

theorem enqueue_prints_the_answer_witness:
  "\<exists>s'. cmd_enqueue (demo_host silent_api demo_answer) demo_line (demo_state ()) = Some (Inr code_success, s') \<and>
     shown_text s' = ''42'' @ [newline]"
proof -
  let ?host = "demo_host silent_api demo_answer"
  obtain db1 s1 where posted: "enqueue_message ?host demo_args (demo_state ()) = (Inr (7, 3), s1)"
    and ins: "insert_message 7 User ''hi'' (Some 1) None (sample_db None []) = (Inr 3, db1)"
    and s1: "shared_state s1 = (sample_store\<lparr>core := db1\<rparr>, ())" by (rule demo_posted)
  obtain m1 where m1: "message_at db1 3 = Some m1" "is_unclaimed m1" "msg_payload m1 = None"
    using demo_inserted(4) [OF ins] by blast
  obtain m2 db2 db3 where run: "try_claim (MessageId 3) db1 = (Inr True, db2)" "keeps_star db1 db2"
    "finish (MessageId 3) (Success ''42'') db2 = (Inr (), db3)" "faults db3 = []"
    "status_at db3 3 = Some (Some ''done'')" "message_at db2 3 = Some m2" "document_payload m2"
    by (rule demo_claimed [OF demo_inserted(1-3) [OF ins] m1])
  define hist where "hist = (\<lambda>k. acted (\<lambda>n. others ?host (PollPause two_seconds n)) k (shared_state s1))"
  have acts: "others ?host = demo_answer" by (simp add: demo_host_def)
  have h0: "core (fst (hist 0)) = db1" by (simp add: hist_def s1)
  have hSuc: "core (fst (hist (Suc k))) = db3" for k
  proof (induction k)
    case 0
    show ?case using run(1,3) by (simp add: hist_def acts demo_answer_def s1)
  next
    case (Suc k)
    have "hist (Suc (Suc k)) = demo_answer (PollPause two_seconds (Suc k)) (hist (Suc k))" by (simp add: hist_def acts)
    then show ?case using Suc by (simp add: demo_answer_def)
  qed
  have quiet: "faults (core (fst (hist k))) = []" for k by (cases k) (simp_all add: h0 hSuc run(4) demo_inserted(2) [OF ins])
  have runner: "finishes_in_pause (\<lambda>k. core (fst (hist k))) 3 ''42'' 0"
    unfolding finishes_in_pause_def using run(2,3,6,7)
    by (intro conjI exI [of _ db2] exI [of _ db3]) (simp_all add: h0 hSuc)
  have "chat_store_wf (chat_tables (demo_state ()))" "faults (core (chat_tables (demo_state ()))) = []"
    by (simp_all add: demo_state_def sample_store_wf)
  from enqueue_prints_the_answer [OF demo_enqueue_args _ this posted hist_def _ runner] quiet
  show ?thesis by (simp add: demo_state_def shown_text_def)
qed

end
