(* ===== verification/JobctlAsk.thy ===== *)
theory JobctlAsk
  imports JobctlCliProps
begin

text \<open>
  \<open>jobctl ask\<close> and the runner's HTTP API together. The wire between them is Hyper's: \<open>speaks\<close>
  says what it promises for a request, that the handler of \<open>src/http.rs\<close> sees the method, the
  path and the body sent, and that the client gets the status and the JSON body of the
  handler's response in an HTTP/1.1 message.
\<close>

section \<open>The wire\<close>

fun method_text :: "http_method \<Rightarrow> string" where
  "method_text Get = ''GET''"
| "method_text Post = ''POST''"
| "method_text (OtherMethod m) = m"

definition wire_request :: "http_method \<Rightarrow> string \<Rightarrow> string \<Rightarrow> request" where
  "wire_request meth p body = \<lparr>req_method = meth, req_path = p, req_body = Inr body\<rparr>"

definition speaks ::
  "database api_env \<Rightarrow> serde \<Rightarrow> string \<Rightarrow> http_method \<Rightarrow> string \<Rightarrow> string \<Rightarrow> database \<Rightarrow> bool" where
  "speaks env serde addr meth p body db \<longleftrightarrow>
     (\<exists>ms raw reason headers t.
        api_net env addr (request_text addr (method_text meth) p body) db =
          ((ms, NetBytes raw), snd (handle serde (wire_request meth p body) db)) \<and>
        ms \<le> request_timeout \<and>
        from_utf8_lossy raw =
          response_text ''HTTP/1.1'' (resp_status (fst (handle serde (wire_request meth p body) db))) reason headers t \<and>
        CHR 0x0D \<notin> set reason \<and> list_all head_line headers \<and>
        api_parse env t = Inr (json_object (resp_body (fst (handle serde (wire_request meth p body) db)))))"

text \<open>Over such a wire a call gives the body of the handler's response when its status is 2xx.\<close>

lemma speaks_json:
  assumes "speaks env serde addr meth p body db"
    and run: "handle serde (wire_request meth p body) db = (\<lparr>resp_status = st, resp_body = kvs\<rparr>, db')"
    and st: "(200 :: nat) \<le> st" "st < 300" and opt: "body = (case b of None \<Rightarrow> [] | Some x \<Rightarrow> x)"
  shows "api_json env addr (method_text meth) p b db = (Inr (json_object kvs), db')"
proof -
  obtain ms raw reason headers t where
    net: "api_net env addr (request_text addr (method_text meth) p body) db = ((ms, NetBytes raw), db')"
    and ms: "ms \<le> request_timeout"
    and raw: "from_utf8_lossy raw = response_text ''HTTP/1.1'' st reason headers t"
    and wf: "CHR 0x0D \<notin> set reason" "list_all head_line headers"
    and json: "api_parse env t = Inr (json_object kvs)"
    using assms(1) unfolding speaks_def run by auto
  have "parse_response (from_utf8_lossy raw) = Inr (st, t)"
    unfolding raw using wf st by (intro parse_response_text) (simp_all add: u16_max_def)
  then have "api_request env addr (method_text meth) p b db = ((ms, Inr (st, t)), db')"
    using net by (simp add: api_request_def opt)
  then show ?thesis using ms st json by (simp add: api_json_def)
qed

section \<open>The loop of ask\<close>

definition ask_path :: "int \<Rightarrow> string" where
  "ask_path i = job_path (MessageId i)"

lemma ask_path_eq: "ask_path i = ''/jobs/'' @ show_int i"
  by (simp add: ask_path_def job_path_def jobs_prefix_def show_message_id_def)

text \<open>What a round needs: the row can be read through the API.\<close>

definition answers :: "database api_env \<Rightarrow> serde \<Rightarrow> string \<Rightarrow> int \<Rightarrow> database \<Rightarrow> bool" where
  "answers env serde addr i db \<longleftrightarrow>
     watched i db \<and> 0 < i \<and> in_i64 i \<and> speaks env serde addr Get (ask_path i) [] db"

lemma api_job_answer:
  assumes "answers env serde addr i db"
  obtains m t where "message_at db i = Some m" "msg_status m = to_db t"
    "api_job env addr i db = (Inr (json_object (view_fields (stored_view db m t))), db)"
proof -
  obtain m t where m: "faults db = []" "message_at db i = Some m" "is_job_row m" "msg_status m = to_db t"
    using assms by (auto simp: answers_def watched_def job_at_def)
  have run: "handle serde (wire_request Get (ask_path i) []) db =
      (\<lparr>resp_status = 200, resp_body = view_fields (stored_view db m t)\<rparr>, db)"
    by (rule get_handled [OF _ _ _ _ m]) (use assms in \<open>simp_all add: answers_def wire_request_def ask_path_def\<close>)
  have "api_json env addr (method_text Get) (ask_path i) None db =
      (Inr (json_object (view_fields (stored_view db m t))), db)"
    by (rule speaks_json [OF _ run]) (use assms in \<open>simp_all add: answers_def\<close>)
  then show ?thesis using m by (intro that) (simp_all add: api_job_def ask_path_eq)
qed

lemma view_status: "as_str (json_index (json_object (view_fields (stored_view db m t))) ''status'') = Some (show_job_status t)"
  by (simp add: view_fields_def job_fields_def stored_view_def Let_def serialize_status_show)

lemma view_reply_text:
  "as_str (json_index (json_object (view_fields v)) ''reply'') = view_reply v"
  by (cases "view_reply v") (simp_all add: view_fields_def)

lemma on_world_answer:
  assumes "api_job env addr i (outside s) = (Inr j, outside s)"
  shows "on_world (api_job env addr i) s = (Inr j, s)"
  using assms by (simp add: on_world_def)

lemma show_status_iff:
  "show_job_status t = ''done'' \<longleftrightarrow> t = Done" "show_job_status t = ''failed'' \<longleftrightarrow> t = Failed"
  by (cases t; simp add: show_job_status_def)+

interpretation asking: poller "ask_once host addr i" "\<lambda>n. sleep host (PollPause secs n)" shared_state
  "\<lambda>n. others host (PollPause secs n)" shown_text "\<lambda>d. answers (host_api host) serde addr i (snd d)"
  "\<lambda>d. decided i (snd d)"
  for host :: "database cli_host" and serde addr i
proof
  fix n l and s :: "database cli_state"
  assume "answers (host_api host) serde addr i (snd (shared_state s))"
  then obtain m t where m: "message_at (outside s) i = Some m" "msg_status m = to_db t"
    and job: "api_job (host_api host) addr i (outside s) =
      (Inr (json_object (view_fields (stored_view (outside s) m t))), outside s)"
    by (auto simp: shared_state_def elim: api_job_answer)
  let ?j = "json_object (view_fields (stored_view (outside s) m t))"
  note run = ask_once_def on_world_answer [OF job] Let_def view_status
  show "shared_state (snd (ask_once host addr i n l s)) = shared_state s"
    by (simp add: run del: json_index_object)
  have dec: "decided i (snd (shared_state s)) \<longleftrightarrow> t = Done \<or> t = Failed"
    using m by (cases t) (simp_all add: decided_def shared_state_def)
  show "decided i (snd (shared_state s)) \<longleftrightarrow> (\<exists>r. fst (ask_once host addr i n l s) = Inl r)"
    unfolding dec by (simp add: run show_status_iff del: json_index_object)
  assume "\<not> decided i (snd (shared_state s))"
  then show "shown_text (snd (ask_once host addr i n l s)) = shown_text s"
    unfolding dec by (simp add: run show_status_iff del: json_index_object)
qed simp_all

section \<open>Posting\<close>

lemma create_job_body_read:
  assumes "in_i64 c"
  shows "create_job_of (create_job_body c content) = Some \<lparr>create_chat_id = ChatId c, create_content = content\<rparr>"
proof -
  have "create_job_body c content = JObject [(''chat_id'', json_int c), (''content'', JString content)]"
    by (simp add: create_job_body_def json_object_def map_collect_def)
  then show ?thesis using assms by (simp add: required_field.simps)
qed

lemma ask_chat_range: "ask_chat host a = Inr c \<Longrightarrow> in_i64 c"
  by (auto simp: ask_chat_def parse_i64_num_def parse_num_def ok_or_def dest: parse_i64_range split: option.splits)

lemma text_or_stdin_not_blank: "text_or_stdin host ws hint s = (Inr t, s1) \<Longrightarrow> trim t \<noteq> []"
  by (auto simp: text_or_stdin_def and_then_def split: if_splits prod.splits sum.splits)

lemma wait_healthy_shown: "shown_text (snd (wait_healthy host addr n k s)) = shown_text s"
proof (induction k arbitrary: n s)
  case (Suc k)
  show ?case using Suc.IH [of "Suc n" "sleep host (StartPause n) (s\<lparr>outside := _\<rparr>)"]
    by (simp split: prod.split bool.split sum.split)
qed simp

lemma and_then_shown:
  "(\<And>s. shown_text (snd (m s)) = shown_text s) \<Longrightarrow> (\<And>x s. shown_text (snd (f x s)) = shown_text s) \<Longrightarrow>
   shown_text (snd (and_then m f s)) = shown_text s"
  by (cases "m s"; cases "fst (m s)") (auto simp: and_then_def, (metis snd_conv)+)

lemma ensure_runner_shown: "shown_text (snd (ensure_runner host a addr s)) = shown_text s"
proof -
  have start: "shown_text (snd (start_runner host addr s)) = shown_text s" for s
    unfolding start_runner_def Let_def
    by (intro and_then_shown)
      (simp_all add: wait_healthy_shown spawn_step_def write_pid_file_def split: prod.split option.split)
  show ?thesis by (simp add: ensure_runner_def start split: prod.split bool.split)
qed

text \<open>
  The situation in which \<open>ask\<close> posts: its arguments are read, a runner answers, the database
  behind it is in order, has the chat and room for the message.
\<close>

definition ready_to_post :: "database cli_host \<Rightarrow> serde \<Rightarrow> args \<Rightarrow> int \<Rightarrow> string \<Rightarrow> database \<Rightarrow> bool" where
  "ready_to_post host serde a c prompt db \<longleftrightarrow>
     db_wf db \<and> faults db = [] \<and> c \<in> set (map chat_pk (chats db)) \<and> length prompt \<le> text_max \<and>
     next_message_id db \<le> int_max \<and>
     (let body = api_print (host_api host) (create_job_body c prompt) in
      length body \<le> max_body_bytes \<and> serde_parse serde body = Inr (create_job_body c prompt) \<and>
      speaks (host_api host) serde (ask_addr host) Post ''/jobs'' body db)"

definition after_post :: "database cli_host \<Rightarrow> serde \<Rightarrow> int \<Rightarrow> string \<Rightarrow> database \<Rightarrow> database" where
  "after_post host serde c prompt db =
     snd (handle serde (wire_request Post ''/jobs'' (api_print (host_api host) (create_job_body c prompt))) db)"

lemma ask_posts:
  assumes ready: "ready_to_post host serde a c prompt (outside s)" and c: "in_i64 c" and prompt: "trim prompt \<noteq> []"
  obtains s' where "ask_post host (ask_addr host) c prompt s = (Inr (int (next_message_id (outside s))), s')"
    "shared_state s' = (chat_tables s, after_post host serde c prompt (outside s))" "shown_text s' = shown_text s"
    "db_wf (after_post host serde c prompt (outside s))"
    "job_at (int (next_message_id (outside s))) (after_post host serde c prompt (outside s))"
    "0 < int (next_message_id (outside s))" "in_i64 (int (next_message_id (outside s)))"
proof -
  let ?db = "outside s" and ?i = "int (next_message_id (outside s))"
  let ?body = "api_print (host_api host) (create_job_body c prompt)"
  let ?req = "wire_request Post ''/jobs'' ?body"
  have db: "db_wf ?db" "faults ?db = []" "chat_raw (ChatId c) \<in> set (map chat_pk (chats ?db))" "length prompt \<le> text_max"
    "next_message_id ?db \<le> int_max"
    and wire: "length ?body \<le> max_body_bytes" "serde_parse serde ?body = Inr (create_job_body c prompt)"
      "speaks (host_api host) serde (ask_addr host) Post ''/jobs'' ?body ?db"
    using ready by (simp_all add: ready_to_post_def Let_def)
  have read: "read_json serde create_job_of ?req = Inr \<lparr>create_chat_id = ChatId c, create_content = prompt\<rparr>"
    using wire(1,2) create_job_body_read [OF c] by (simp add: read_json_def wire_request_def)
  have req: "req_method ?req = Post" "req_path ?req = ''/jobs''" by (simp_all add: wire_request_def)
  obtain db' m where run: "handle serde ?req ?db = (\<lparr>resp_status = 201, resp_body = view_fields (stored_view db' m New)\<rparr>, db')"
    and m: "message_at db' ?i = Some m" "is_job_row m" "msg_status m = to_db New" "msg_id m = ?i" "db_wf db'"
    by (rule post_handled [OF db(1,2) req read prompt db(4,3,5)])
  have db': "after_post host serde c prompt ?db = db'" by (simp add: after_post_def run)
  have range: "0 < ?i" "in_i64 ?i" using db(1,5) by (auto simp: db_wf_def int_max_def i64_defs)
  have "api_json (host_api host) (ask_addr host) (method_text Post) ''/jobs'' (Some ?body) ?db =
      (Inr (json_object (view_fields (stored_view db' m New))), db')"
    by (rule speaks_json [OF wire(3) run]) simp_all
  then have "on_world (api_create_job (host_api host) (ask_addr host) c prompt) s =
      (Inr (json_object (view_fields (stored_view db' m New))), s\<lparr>outside := db'\<rparr>)"
    by (simp add: on_world_def api_create_job_def)
  moreover have "as_i64 (json_index (json_object (view_fields (stored_view db' m New))) ''id'') = Some ?i"
    using range(2) m(4) by (simp add: view_fields_def job_fields_def stored_view_def Let_def)
  ultimately have posted: "ask_post host (ask_addr host) c prompt s =
      (Inr ?i, log_line (''job #'' @ show_int ?i @ '' queued; waiting ...'') (s\<lparr>outside := db'\<rparr>))"
    by (simp add: ask_post_def and_then_def del: json_index_object)
  have "job_at ?i db'" using m(1,2,3) unfolding job_at_def by blast
  then show ?thesis using m(5) range by (intro that [OF posted]) (simp_all add: db' shared_state_def)
qed

text \<open>
  C6: \<open>jobctl ask\<close> prints the answer of the runner behind the HTTP API: the job it posts is the
  next message, and however long the runner takes, when a \<open>finish\<close> of that message succeeds the
  command returns with success and has written exactly that answer and a newline to standard
  output.
\<close>
theorem ask_prints_the_answer:
  assumes args: "read_args [''--chat''] [''--stop'', ''--no-start''] raw = Inr a" "\<not> arg_flag a ''--stop''"
    and given: "ask_chat host a = Inr c" "ask_poll host = Inr secs"
      "text_or_stdin host (positional a) ''Prompt (end with Ctrl-D):'' s = (Inr prompt, s1)"
    and up: "ensure_runner host a (ask_addr host) s1 = (Inr (), s2)"
    and post: "ready_to_post host serde a c prompt (outside s2)"
    and i: "i = int (next_message_id (outside s2))"
    and hist: "hist = (\<lambda>k. acted (\<lambda>n. others host (PollPause secs n)) k
      (chat_tables s2, after_post host serde c prompt (outside s2)))"
    and wire: "\<forall>k. faults (snd (hist k)) = [] \<and>
      speaks (host_api host) serde (ask_addr host) Get (ask_path i) [] (snd (hist k))"
    and runner: "finishes_in_pause (\<lambda>k. snd (hist k)) i answer N"
  shows "\<exists>s'. cmd_ask host raw s = Some (Inr code_success, s') \<and> shown_text s' = shown_text s @ answer @ [newline]"
proof -
  have prompt: "trim prompt \<noteq> []" by (rule text_or_stdin_not_blank [OF given(3)])
  obtain s3 where posted: "ask_post host (ask_addr host) c prompt s2 = (Inr i, s3)"
    and s3: "shared_state s3 = hist 0" "shown_text s3 = shown_text s2"
    and row0: "db_wf (snd (hist 0))" "job_at i (snd (hist 0))" and range: "0 < i" "in_i64 i"
    using ask_posts [OF post ask_chat_range [OF given(1)] prompt] by (auto simp: hist i)
  have shown: "shown_text s2 = shown_text s"
    using ensure_runner_shown [of host a "ask_addr host" s1] up text_or_stdin_frame [OF given(3)] by simp
  note facts = finishes_facts [OF runner row0]
  obtain db m0 where pending: "message_at db i = Some m0" "msg_status m0 = to_db Pending"
    "\<forall>k \<le> N. keeps_star (snd (hist k)) db" using facts(2) by blast
  obtain m n r where final: "message_at (snd (hist (Suc N))) i = Some (done_row m n)" "is_job_row m"
    "message_at (snd (hist (Suc N))) n = Some r" "msg_content r = answer" "msg_sender r = Ai"
    "payload_i64 (message_from_row (host_clock host) (done_row m n)) ''reply_id'' = Some n"
    using facts(3) [of "host_clock host"] by blast
  have can_read: "job_at i (snd (hist k)) \<Longrightarrow> answers (host_api host) serde (ask_addr host) i (snd (hist k))" for k
    using wire range by (simp add: answers_def watched_def)
  have looked: "answers (host_api host) serde (ask_addr host) i (snd (hist k)) \<and> \<not> decided i (snd (hist k))"
    if "k \<le> N" for k
    using can_read facts(1) pending(3) undecided_before [OF _ _ _ pending(1,2)] that by blast
  have at_last: "answers (host_api host) serde (ask_addr host) i (snd (hist (Suc N)))" "decided i (snd (hist (Suc N)))"
    using can_read decided_done_row [OF final(1)] final(2) by blast+
  have hist3: "hist = (\<lambda>k. acted (\<lambda>n. others host (PollPause secs n)) k (shared_state s3))"
    by (simp add: s3(1)) (simp add: hist)
  obtain l s4 r' s' where last_round: "ask_once host (ask_addr host) i (Suc N) l s4 = (Inl r', s')"
    and run: "ask_loop host (ask_addr host) secs i s3 = Some (r', s')"
    and s4: "shared_state s4 = hist (Suc N)" "shown_text s4 = shown_text s3"
    using asking.returns_when_ready [of "Suc N" host serde "ask_addr host" i secs s3 "()"] looked at_last
    by (auto simp: ask_loop_def hist3 less_Suc_eq_le)
  have db4: "outside s4 = snd (hist (Suc N))" using s4(1) by (metis shared_state_def snd_conv)
  obtain m' t where job: "message_at (outside s4) i = Some m'" "msg_status m' = to_db t"
    "api_job (host_api host) (ask_addr host) i (outside s4) = (Inr (json_object (view_fields (stored_view (outside s4) m' t))), outside s4)"
    using api_job_answer [OF at_last(1)] by (auto simp: db4)
  have "m' = done_row m n" using job(1) final(1) by (simp add: db4)
  moreover from this have "to_db t = to_db Done" using job(2) done_row_fields(1) [of m n] by metis
  ultimately have m': "m' = done_row m n" "t = Done" using to_db_eq_iff by blast+
  have "job_reply_id (job_with_status (joined_row (outside s4) m') t) = Some (MessageId n)"
    using final(6) by (simp add: m' job_with_status_def payload_get_def payload_i64_def message_from_row_def)
  then have reply: "view_reply (stored_view (outside s4) m' t) = Some answer"
    using final(3,4,5) by (simp add: stored_view_def Let_def db4)
  have "r' = Inr code_success" "shown_text s' = shown_text s4 @ answer @ [newline]"
    using last_round on_world_answer [OF job(3)]
    by (auto simp: ask_once_def Let_def view_status view_reply_text reply [unfolded m'(2)] m'(2) show_status_iff simp del: json_index_object)
  moreover have "cmd_ask host raw s = ask_loop host (ask_addr host) secs i s3"
    using args given up posted by (simp add: cmd_ask_def before_loop_def ask_start_def and_then_def Let_def)
  ultimately show ?thesis using run s4(2) s3(2) shown by simp
qed

section \<open>A wire and a runner for the witness\<close>

definition demo_post :: request where
  "demo_post = wire_request Post ''/jobs'' ''post''"

definition demo_get :: request where
  "demo_get = wire_request Get (ask_path 3) []"

definition demo_serde :: serde where
  "demo_serde = \<lparr>serde_parse = (\<lambda>t. if t = ''post'' then Inr (create_job_body 7 ''hi'') else Inl ''e''),
     serde_shape_error = (\<lambda>_. ''shape''), serde_f64 = (\<lambda>_. 0)\<rparr>"

definition posted_db :: database where
  "posted_db = snd (handle demo_serde demo_post (sample_db None []))"

definition answered_db :: database where
  "answered_db = snd (finish (MessageId 3) (Success ''42'') (snd (try_claim (MessageId 3) posted_db)))"

definition demo_request :: "bytes \<Rightarrow> request" where
  "demo_request t =
     (if prefix ''POST'' t then demo_post
      else if prefix ''GET /jobs'' t then demo_get else wire_request Get ''/health'' [])"

definition demo_tag :: "request \<Rightarrow> database \<Rightarrow> string" where
  "demo_tag req db =
     (if req_method req = Post then ''p'' else if status_at db 3 = Some None then ''1'' else ''2'')"

definition demo_net :: "string \<Rightarrow> bytes \<Rightarrow> database \<Rightarrow> (nat \<times> net_answer) \<times> database" where
  "demo_net addr t db =
     (case handle demo_serde (demo_request t) db of
        (resp, db') \<Rightarrow>
          ((0, NetBytes (response_text ''HTTP/1.1'' (resp_status resp) ''x'' [] (demo_tag (demo_request t) db))), db'))"

definition demo_body :: "request \<Rightarrow> database \<Rightarrow> json" where
  "demo_body req db = json_object (resp_body (fst (handle demo_serde req db)))"

definition demo_api :: "database api_env" where
  "demo_api = \<lparr>api_net = demo_net,
     api_parse = (\<lambda>t. Inr (if t = ''p'' then demo_body demo_post (sample_db None [])
       else if t = ''1'' then demo_body demo_get posted_db else demo_body demo_get answered_db)),
     api_print = (\<lambda>_. ''post'')\<rparr>"

definition ask_answer :: "pause \<Rightarrow> chat_store \<times> database \<Rightarrow> chat_store \<times> database" where
  "ask_answer p d =
     (if p = PollPause two_seconds 0
      then (fst d, snd (finish (MessageId 3) (Success ''42'') (snd (try_claim (MessageId 3) (snd d)))))
      else d)"

lemma demo_response_ascii:
  "from_utf8_lossy (response_text ''HTTP/1.1'' st ''x'' [] (demo_tag req db)) =
     response_text ''HTTP/1.1'' st ''x'' [] (demo_tag req db)"
proof (rule from_utf8_lossy_valid, rule utf8_valid_ascii)
  have digits: "\<forall>c \<in> set (show_nat st). byte c < 128"
    using show_nat_digits [of st] by (auto simp: is_ascii_digit_def)
  have tag: "\<forall>c \<in> set (demo_tag req db). byte c < 128"
    by (simp add: demo_tag_def byte_def)
  show "\<forall>c \<in> set (response_text ''HTTP/1.1'' st ''x'' [] (demo_tag req db)). byte c < 128"
    using digits tag by (simp add: response_text_def crlf_def ball_Un byte_def)
qed

lemma demo_speaks:
  assumes "demo_request (request_text addr (method_text meth) p body) = wire_request meth p body"
    and "api_parse demo_api (demo_tag (wire_request meth p body) db) = Inr (demo_body (wire_request meth p body) db)"
  shows "speaks demo_api demo_serde addr meth p body db"
proof -
  have net: "api_net demo_api addr (request_text addr (method_text meth) p body) db =
      ((0, NetBytes (response_text ''HTTP/1.1'' (resp_status (fst (handle demo_serde (wire_request meth p body) db))) ''x'' []
         (demo_tag (wire_request meth p body) db))), snd (handle demo_serde (wire_request meth p body) db))"
    by (simp add: demo_api_def demo_net_def assms(1) split: prod.split)
  show ?thesis
    unfolding speaks_def
    by (rule exI [of _ 0], rule exI [of _ "response_text ''HTTP/1.1'' (resp_status (fst (handle demo_serde (wire_request meth p body) db))) ''x'' []
         (demo_tag (wire_request meth p body) db)"], rule exI [of _ "''x''"], rule exI [of _ "[]"],
        rule exI [of _ "demo_tag (wire_request meth p body) db"])
      (simp add: net demo_response_ascii assms(2) demo_body_def [symmetric])
qed

lemma demo_requests:
  "demo_request (request_text addr (method_text Post) ''/jobs'' ''post'') = wire_request Post ''/jobs'' ''post''"
  "demo_request (request_text addr (method_text Get) (ask_path 3) []) = wire_request Get (ask_path 3) []"
  "demo_request (request_text addr ''GET'' ''/health'' []) = wire_request Get ''/health'' []"
  by (simp_all add: demo_request_def request_text_def demo_post_def demo_get_def ask_path_eq)

lemma demo_ready: "ready_to_post (demo_host demo_api acts) demo_serde demo_args 7 ''hi'' (sample_db None [])"
proof -
  have "speaks demo_api demo_serde addr Post ''/jobs'' ''post'' (sample_db None [])" for addr
    by (rule demo_speaks [OF demo_requests(1)])
      (simp add: demo_api_def demo_tag_def demo_post_def, simp add: wire_request_def)
  moreover have "api_print (host_api (demo_host demo_api acts)) j = ''post''" "host_api (demo_host demo_api acts) = demo_api" for j
    by (simp_all add: demo_host_def demo_api_def)
  ultimately show ?thesis
    by (simp add: ready_to_post_def text_max_def int_max_def max_body_bytes_def demo_serde_def)
qed

lemma demo_up: "\<exists>s1. ensure_runner (demo_host demo_api acts) a addr s = (Inr (), s1) \<and> shared_state s1 = shared_state s"
proof -
  have "handle demo_serde (wire_request Get ''/health'' []) db = (\<lparr>resp_status = 200, resp_body = [(''status'', JString ''ok'')]\<rparr>, db)" for db
    by (simp add: handle_def route_def wire_request_def json_response_def)
  then have "api_request demo_api addr ''GET'' ''/health'' None db = ((0, Inr (200, demo_tag (wire_request Get ''/health'' []) db)), db)" for db
    by (simp add: api_request_def demo_api_def demo_net_def demo_requests demo_response_ascii parse_response_text u16_max_def)
  then show ?thesis
    by (simp add: ensure_runner_def api_healthy_def demo_host_def shared_state_def)
qed

lemma demo_posted_db:
  "after_post (demo_host demo_api acts) demo_serde 7 ''hi'' (sample_db None []) = posted_db"
  "db_wf posted_db" "faults posted_db = []" "next_message_id posted_db \<le> int_max"
  "\<exists>m. message_at posted_db 3 = Some m \<and> is_unclaimed m \<and> msg_payload m = None"
proof -
  show "after_post (demo_host demo_api acts) demo_serde 7 ''hi'' (sample_db None []) = posted_db"
    by (simp add: after_post_def posted_db_def demo_post_def demo_host_def demo_api_def)
  have req: "req_method demo_post = Post" "req_path demo_post = ''/jobs''"
    by (simp_all add: demo_post_def wire_request_def)
  have "in_i64 7" by (simp add: i64_defs)
  then have body: "read_json demo_serde create_job_of demo_post = Inr \<lparr>create_chat_id = ChatId 7, create_content = ''hi''\<rparr>"
    by (simp add: read_json_def demo_post_def wire_request_def demo_serde_def max_body_bytes_def create_job_body_read)
  obtain db' m where run: "handle demo_serde demo_post (sample_db None []) =
      (\<lparr>resp_status = 201, resp_body = view_fields (stored_view db' m New)\<rparr>, db')"
    and m: "message_at db' (int (next_message_id (sample_db None []))) = Some m" "is_job_row m" "msg_status m = to_db New"
      "msg_payload m = None" "faults db' = []" "db_wf db'" "next_message_id db' = Suc (next_message_id (sample_db None []))"
    by (rule post_handled [OF sample_db_wf _ req body demo_trim(4), of None "[]"])
      (simp_all add: text_max_def int_max_def)
  have "posted_db = db'" by (simp add: posted_db_def run)
  then show "db_wf posted_db" "faults posted_db = []" "next_message_id posted_db \<le> int_max"
    "\<exists>m. message_at posted_db 3 = Some m \<and> is_unclaimed m \<and> msg_payload m = None"
    using m by (simp_all add: int_max_def is_unclaimed_def)
qed

lemma demo_answered_db:
  "faults answered_db = []" "status_at answered_db 3 = Some (Some ''done'')"
  "finishes_in_pause (\<lambda>k. if k = 0 then posted_db else answered_db) 3 ''42'' 0"
proof -
  obtain m1 where m1: "message_at posted_db 3 = Some m1" "is_unclaimed m1" "msg_payload m1 = None"
    using demo_posted_db(5) by blast
  obtain m2 db2 db3 where run: "try_claim (MessageId 3) posted_db = (Inr True, db2)" "keeps_star posted_db db2"
    "finish (MessageId 3) (Success ''42'') db2 = (Inr (), db3)" "faults db3 = []"
    "status_at db3 3 = Some (Some ''done'')" "message_at db2 3 = Some m2" "document_payload m2"
    by (rule demo_claimed [OF demo_posted_db(2-4) m1])
  have same: "answered_db = db3" using run(1,3) by (simp add: answered_db_def)
  then show "faults answered_db = []" "status_at answered_db 3 = Some (Some ''done'')" using run(4,5) by simp_all
  show "finishes_in_pause (\<lambda>k. if k = 0 then posted_db else answered_db) 3 ''42'' 0"
    unfolding finishes_in_pause_def using run(2,3,6,7)
    by (intro conjI exI [of _ db2] exI [of _ db3]) (simp_all add: same)
qed

theorem ask_prints_the_answer_witness:
  "\<exists>s'. cmd_ask (demo_host demo_api ask_answer) demo_line (demo_state (sample_db None [])) = Some (Inr code_success, s') \<and>
     shown_text s' = ''42'' @ [newline]"
proof -
  let ?host = "demo_host demo_api ask_answer"
  let ?s = "demo_state (sample_db None [])"
  have args: "read_args [''--chat''] [''--stop'', ''--no-start''] demo_line = Inr demo_args"
    by (simp add: read_args_def demo_parse)
  have chat: "ask_chat ?host demo_args = Inr 7"
    by (simp add: ask_chat_def parse_i64_num_def parse_num_def demo_trim parse_i64_def is_ascii_digit_def byte_def i64_defs)
  have poll: "ask_poll ?host = Inr two_seconds"
    by (simp add: ask_poll_def demo_host_def from_secs_f64_def valid_seconds_def two_seconds_def f64_negative_def
        f64_magnitude_def)
  have prompt: "text_or_stdin ?host (positional demo_args) ''Prompt (end with Ctrl-D):'' ?s = (Inr ''hi'', ?s)"
    by (simp add: text_or_stdin_def and_then_def demo_trim)
  obtain s1 where up: "ensure_runner ?host demo_args (ask_addr ?host) ?s = (Inr (), s1)"
    and s1: "shared_state s1 = shared_state ?s" using demo_up by blast
  then have tables: "outside s1 = sample_db None []" "chat_tables s1 = sample_store"
    by (simp_all add: shared_state_def demo_state_def)
  define hist where "hist = (\<lambda>k. acted (\<lambda>n. others ?host (PollPause two_seconds n)) k
      (chat_tables s1, after_post ?host demo_serde 7 ''hi'' (outside s1)))"
  have acts: "others ?host = ask_answer" by (simp add: demo_host_def)
  have h: "snd (hist k) = (if k = 0 then posted_db else answered_db)" for k
  proof (induction k)
    case 0
    show ?case by (simp add: hist_def tables demo_posted_db(1))
  next
    case (Suc k)
    have "hist (Suc k) = ask_answer (PollPause two_seconds k) (hist k)" by (simp add: hist_def acts)
    then show ?case using Suc by (cases k) (simp_all add: ask_answer_def answered_db_def)
  qed
  have new: "status_at posted_db 3 = Some None"
    using demo_posted_db(5) by (auto simp: status_at_def is_unclaimed_def)
  have wire: "faults (snd (hist k)) = [] \<and> speaks (host_api ?host) demo_serde (ask_addr ?host) Get (ask_path 3) [] (snd (hist k))" for k
  proof -
    have "speaks demo_api demo_serde addr Get (ask_path 3) [] (snd (hist k))" for addr
      by (rule demo_speaks [OF demo_requests(2)])
        (simp add: demo_api_def demo_tag_def wire_request_def h new demo_answered_db(2) demo_get_def)
    moreover have "host_api ?host = demo_api" by (simp add: demo_host_def)
    ultimately show ?thesis by (simp add: h demo_posted_db(3) demo_answered_db(1))
  qed
  have runner: "finishes_in_pause (\<lambda>k. snd (hist k)) 3 ''42'' 0"
    using demo_answered_db(3) by (simp add: h)
  have ready: "ready_to_post ?host demo_serde demo_args 7 ''hi'' (outside s1)" using demo_ready by (simp add: tables)
  have i: "3 = int (next_message_id (outside s1))" by (simp add: tables)
  have all: "\<forall>k. faults (snd (hist k)) = [] \<and> speaks (host_api ?host) demo_serde (ask_addr ?host) Get (ask_path 3) [] (snd (hist k))"
    using wire by blast
  from ask_prints_the_answer [OF args _ chat poll prompt up ready i hist_def all runner]
  show ?thesis by (simp add: demo_state_def shown_text_def)
qed

end
