(* ===== verification/JobctlExits.thy ===== *)
theory JobctlExits
  imports JobctlCliProps
begin

text \<open>
  How \<open>jobctl\<close> ends: with status 0 or 1, or with a panic, and the latter only because of an
  argument that is not Unicode or a poll interval that is no duration. \<open>gives P\<close> says of a step that it does not panic and that its
  results satisfy \<open>P\<close>; it is closed under the ways in which steps are put together.
\<close>

definition gives :: "('a \<Rightarrow> bool) \<Rightarrow> ('w, 'a) cli_step \<Rightarrow> bool" where
  "gives P m \<longleftrightarrow> (\<forall>s. case fst (m s) of Inl e \<Rightarrow> e \<noteq> Panic | Inr x \<Rightarrow> P x)"

abbreviation fine :: "('w, 'a) cli_step \<Rightarrow> bool" where
  "fine \<equiv> gives (\<lambda>_. True)"

definition exit_ok :: "nat \<Rightarrow> bool" where
  "exit_ok code \<longleftrightarrow> code = code_success \<or> code = code_failure"

lemma gives_and_then:
  assumes "fine m" and "\<And>x. gives P (f x)"
  shows "gives P (and_then m f)"
  unfolding gives_def
proof
  fix s
  obtain r s1 where m: "m s = (r, s1)" by (cases "m s")
  show "case fst (and_then m f s) of Inl e \<Rightarrow> e \<noteq> Panic | Inr x \<Rightarrow> P x"
  proof (cases r)
    case (Inl e)
    then have "e \<noteq> Panic" using assms(1) m by (auto simp: gives_def dest: spec [of _ s])
    then show ?thesis by (simp add: and_then_def m Inl)
  next
    case (Inr x)
    have "case fst (f x s1) of Inl e \<Rightarrow> e \<noteq> Panic | Inr x \<Rightarrow> P x" using assms(2) by (simp add: gives_def)
    then show ?thesis by (simp add: and_then_def m Inr)
  qed
qed

lemma gives_result: "(\<And>e. r = Inl e \<Longrightarrow> e \<noteq> Panic) \<Longrightarrow> (\<And>x. r = Inr x \<Longrightarrow> P x) \<Longrightarrow> gives P (result r)"
  by (simp add: gives_def split: sum.split)

lemma gives_returns: "P x \<Longrightarrow> gives P (\<lambda>s. (Inr x, f s))"
  by (simp add: gives_def)

lemma fine_on_store: "fine (on_store f)"
  by (auto simp: gives_def on_store_def split: prod.split sum.split)

lemma fine_on_world: "fine (on_world f)"
  by (auto simp: gives_def on_world_def split: prod.split sum.split)

lemma fine_text_or_stdin: "fine (text_or_stdin host ws hint)"
  by (auto simp: gives_def text_or_stdin_def and_then_def split: prod.split sum.split)

lemma map_err_not_panic: "map_err f r = Inl e \<Longrightarrow> (\<And>x. f x \<noteq> Panic) \<Longrightarrow> e \<noteq> Panic"
  by auto

lemma open_connection_not_panic: "open_connection host a \<noteq> Inl Panic"
  by (auto simp: open_connection_def bind_result_Inr_iff split: option.splits)
    (cases "connect_target (host_env host) a"; auto split: option.splits)

lemma parse_not_panic: "read_args vs fs raw \<noteq> Inl Panic" "num_i64 host a name \<noteq> Inl Panic"
  "parse_i64_num host name t \<noteq> Inl Panic" "num_f64 host a name \<noteq> Inl Panic"
  by (simp_all add: read_args_def num_i64_def parse_i64_num_def num_f64_def)

lemmas not_panic = open_connection_not_panic parse_not_panic

lemma fine_results:
  "fine (result (read_args vs fs raw))" "fine (result (num_i64 host a name))"
  "fine (result (parse_i64_num host name t))" "fine (result (open_connection host a))"
  "fine (result (ok_or v (Failure t)))"
  by (auto intro!: gives_result simp: ok_or_def not_panic split: option.splits)

lemmas gives_rules = gives_and_then fine_on_store fine_on_world fine_text_or_stdin fine_results gives_returns

lemma cmd_sql_exits: "gives exit_ok (cmd_sql host raw)"
  unfolding cmd_sql_def by (intro gives_rules) (simp add: exit_ok_def)

lemma cmd_retrieve_exits: "gives exit_ok (cmd_retrieve host raw)"
proof -
  have chat: "fine (result (case positional a of [t] \<Rightarrow> parse_i64_num host n t | _ \<Rightarrow> Inl (Failure u)))" for a n u
    by (auto intro!: gives_result simp: not_panic split: list.splits)
  have "gives exit_ok (\<lambda>s. if b then (Inr code_success, f s) else (let s1 = g s; s2 = h s1 in (Inr code_success, k s2)))"
    for b f g h k by (simp add: gives_def exit_ok_def Let_def)
  then show ?thesis unfolding cmd_retrieve_def by (intro gives_rules chat)
qed

lemma watch_done_exits: "gives exit_ok (watch_done host m)"
  unfolding watch_done_def by (intro gives_rules) (simp add: exit_ok_def)

lemma gives_run: "gives P m \<Longrightarrow> m s = (r, s') \<Longrightarrow> r \<noteq> Inl Panic \<and> (\<forall>x. r = Inr x \<longrightarrow> P x)"
  by (cases r) (auto simp: gives_def dest: spec [of _ s])

text \<open>What a loop or a command that may not return can end with.\<close>

definition ends_ok :: "failure + nat \<Rightarrow> bool" where
  "ends_ok r \<longleftrightarrow> r \<noteq> Inl Panic \<and> (\<forall>code. r = Inr code \<longrightarrow> exit_ok code)"

lemma gives_ends: "gives exit_ok m \<Longrightarrow> ends_ok (fst (m s))"
  using gives_run [of exit_ok m s] by (cases "m s") (simp add: ends_ok_def)

lemma watch_failed_exits: "gives exit_ok (watch_failed host m)"
  by (simp add: gives_def watch_failed_def Let_def exit_ok_def)

lemma on_store_error: "on_store f s = (Inl e, s1) \<Longrightarrow> e \<noteq> Panic"
  by (auto simp: on_store_def split: prod.splits)

lemma watch_once_ends:
  assumes run: "watch_once host i n l s = (Inl r, s')"
  shows "ends_ok r"
proof -
  obtain x s1 where read: "on_store (chats_message (host_clock host) i) s = (x, s1)"
    by (cases "on_store (chats_message (host_clock host) i) s")
  show ?thesis
  proof (cases x)
    case (Inl e)
    then show ?thesis using run read on_store_error [of _ s e s1] by (auto simp: watch_once_def ends_ok_def)
  next
    case (Inr found)
    show ?thesis
    proof (cases "agentic_user found")
      case None
      then show ?thesis using run read Inr by (auto simp: watch_once_def ends_ok_def)
    next
      case (Some m)
      let ?s2 = "watch_status host n l m s1"
      have "r = fst (watch_done host m ?s2) \<or> r = fst (watch_failed host m ?s2)"
        using run read Inr Some by (auto simp: watch_once_def Let_def map_prod_def split: if_splits prod.splits)
      then show ?thesis using gives_ends [OF watch_done_exits] gives_ends [OF watch_failed_exits] by metis
    qed
  qed
qed

lemma ask_once_ends:
  assumes run: "ask_once host addr i n l s = (Inl r, s')"
  shows "ends_ok r"
proof -
  obtain x s1 where read: "on_world (api_job (host_api host) addr i) s = (x, s1)"
    by (cases "on_world (api_job (host_api host) addr i) s")
  show ?thesis
  proof (cases x)
    case (Inl e)
    have "e \<noteq> Panic" using gives_run [OF fine_on_world read] Inl by simp
    then show ?thesis using run read Inl by (auto simp: ask_once_def ends_ok_def)
  next
    case (Inr j)
    then have "r = Inr code_success \<or> r = Inr code_failure"
      using run read by (auto simp: ask_once_def Let_def split: if_splits)
    then show ?thesis by (auto simp: ends_ok_def exit_ok_def)
  qed
qed

lemma loops_end:
  "watch_row host poll i s = Some (r, s') \<Longrightarrow> ends_ok r"
  "ask_loop host addr poll i s = Some (r, s') \<Longrightarrow> ends_ok r"
  unfolding watch_row_def ask_loop_def
  by (drule poll_loop_result, elim exE, drule watch_once_ends ask_once_ends, simp)+

section \<open>Poll intervals\<close>

text \<open>The interval given to \<open>enqueue\<close> or \<open>ask\<close> is a number that is no duration.\<close>

definition bad_interval :: "'w cli_host \<Rightarrow> string list \<Rightarrow> bool" where
  "bad_interval host argv \<longleftrightarrow>
     (\<exists>raw a x. argv = ''enqueue'' # raw \<and> read_args enqueue_values [''--no-wait''] raw = Inr a \<and>
        num_f64 host a ''--poll-secs'' = Inr (Some x) \<and> \<not> valid_seconds x) \<or>
     (\<exists>raw t x. argv = ''ask'' # raw \<and> dotenv_var host ''ASK_POLL_SECS'' = Some t \<and>
        host_float host (trim t) = Some x \<and> \<not> valid_seconds x)"

lemma valid_two_seconds: "valid_seconds two_seconds"
  by (simp add: valid_seconds_def two_seconds_def f64_negative_def f64_magnitude_def)

lemma from_secs_panics: "from_secs_f64 x = Inl e \<longleftrightarrow> e = Panic \<and> \<not> valid_seconds x"
  by (auto simp: from_secs_f64_def)

lemma enqueue_args_panics:
  assumes "enqueue_args host raw = Inl Panic"
  shows "bad_interval host (''enqueue'' # raw)"
proof -
  obtain a secs where "read_args enqueue_values [''--no-wait''] raw = Inr a"
    "num_f64 host a ''--poll-secs'' = Inr secs" "\<not> valid_seconds (unwrap_or two_seconds secs)"
    using assms by (auto simp: enqueue_args_def bind_result_Inl_iff not_panic from_secs_panics)
  then show ?thesis using valid_two_seconds by (cases secs) (auto simp: bad_interval_def)
qed

lemma ask_poll_panics:
  assumes "ask_poll host = Inl Panic"
  shows "bad_interval host (''ask'' # raw)"
  using assms valid_two_seconds
  by (auto simp: ask_poll_def bind_result_Inl_iff from_secs_panics parse_num_def ok_or_def bad_interval_def
      split: option.splits)

lemma fine_enqueue_message: "fine (enqueue_message host a)"
proof -
  have given: "fine (result (Inr c))" for c :: int by (simp add: gives_def)
  have "fine (case given of Some c \<Rightarrow> result (Inr c) | None \<Rightarrow>
      and_then (result (num_i64 host a ''--user'')) (\<lambda>u.
        (let user = (case u of None \<Rightarrow> 1 | Some n \<Rightarrow> n) in
         and_then (on_store (create_chat user (first_line (trim prompt)))) (\<lambda>c s.
           (Inr c, log_line (''created chat '' @ show_int c @ '' for user '' @ show_int user) s)))))" for given prompt
    by (cases given) (auto simp: Let_def given intro!: gives_rules)
  then have chat: "fine (enqueue_chat host a prompt)" for prompt
    unfolding enqueue_chat_def by (intro gives_and_then fine_results)
  show ?thesis unfolding enqueue_message_def by (intro gives_rules chat) simp
qed

lemma fine_wait_healthy: "fst (wait_healthy host addr n k s) \<noteq> Inl Panic"
  by (induction k arbitrary: n s) (auto split: prod.split bool.split sum.split)

lemma fine_ensure_runner: "fine (ensure_runner host a addr)"
proof -
  have steps: "fine (spawn_step host bin addr)" "fine (write_pid_file host pid)" "fine (wait_healthy host addr n k)"
    "fine (\<lambda>s. (case open_log host of None \<Rightarrow> Inr () | Some e \<Rightarrow> Inl (Failure e), f s))"
    "fine (result (if b then Inr () else Inl (Failure t)))" "fine (result (map_err Failure r))"
    for bin pid n k b t f and r :: "string + bytes"
    using fine_wait_healthy [of host addr n k]
    by (auto simp: gives_def spawn_step_def write_pid_file_def split: prod.split sum.split option.split)
  have "fine (start_runner host addr)"
    unfolding start_runner_def Let_def by (intro gives_and_then steps)
  then show ?thesis
    by (auto simp: gives_def ensure_runner_def split: prod.split bool.split)
qed

lemma fine_ask_post: "fine (ask_post host addr c prompt)"
  unfolding ask_post_def by (intro gives_rules) simp

lemma ask_start_panics:
  assumes "ask_start host a s = (Inl Panic, s')"
  shows "ask_poll host = Inl Panic"
proof (rule ccontr)
  assume "ask_poll host \<noteq> Inl Panic"
  then have poll: "fine (result (ask_poll host))" by (auto intro: gives_result)
  have chat: "fine (result (ask_chat host a))"
    by (intro gives_result) (auto simp: ask_chat_def not_panic split: option.splits)
  have "fine (ask_start host a)"
    unfolding ask_start_def Let_def
    by (intro gives_and_then chat poll fine_text_or_stdin fine_ensure_runner fine_ask_post gives_returns) simp
  from gives_run [OF this assms] show False by simp
qed

lemma stop_runner_exits: "gives exit_ok (stop_runner host)"
  by (auto simp: gives_def stop_runner_def Let_def exit_ok_def split: option.split prod.split sum.split)

lemma before_loop_Some:
  assumes "before_loop m f s = Some (r, s')"
  obtains (early) e where "m s = (Inl e, s')" "r = Inl e"
    | (loop) x s1 where "m s = (Inr x, s1)" "f x s1 = Some (r, s')"
  using assms by (auto simp: before_loop_def split: prod.splits sum.splits)

lemma enqueue_ends:
  assumes "cmd_enqueue host raw s = Some (r, s')"
  shows "ends_ok r \<or> r = Inl Panic \<and> bad_interval host (''enqueue'' # raw)"
  using assms unfolding cmd_enqueue_def
proof (cases rule: before_loop_Some)
  case (early e)
  then show ?thesis using enqueue_args_panics [of host raw] by (auto simp: ends_ok_def)
next
  case (loop p s1)
  obtain a poll shown where p: "p = (a, poll, shown)" by (cases p)
  show ?thesis
  proof (cases shown)
    case (Some i)
    then show ?thesis using loop(2) p by (auto dest: loops_end(1))
  next
    case None
    then have "before_loop (enqueue_message host a) (\<lambda>(c, i).
             if arg_flag a ''--no-wait''
             then (\<lambda>s. Some (Inr code_success, print_line (api_print (host_api host) (enqueued_json c i)) s))
             else watch_row host poll i) s1 = Some (r, s')"
      using loop(2) p by simp
    then show ?thesis
    proof (cases rule: before_loop_Some)
      case (early e)
      then show ?thesis using gives_run [OF fine_enqueue_message early(1)] by (auto simp: ends_ok_def)
    next
      case (loop q s2)
      then show ?thesis
        by (cases q) (auto dest: loops_end(1) simp: ends_ok_def exit_ok_def split: if_splits)
    qed
  qed
qed

lemma ask_ends:
  assumes "cmd_ask host raw s = Some (r, s')"
  shows "ends_ok r \<or> r = Inl Panic \<and> bad_interval host (''ask'' # raw)"
  using assms unfolding cmd_ask_def
proof (cases rule: before_loop_Some)
  case (early e)
  then show ?thesis by (auto simp: ends_ok_def not_panic)
next
  case (loop a s1)
  show ?thesis
  proof (cases "arg_flag a ''--stop''")
    case True
    then show ?thesis using loop(2) gives_ends [OF stop_runner_exits, of host s1] by simp
  next
    case False
    then have "before_loop (ask_start host a) (\<lambda>(addr, poll, i). ask_loop host addr poll i) s1 = Some (r, s')"
      using loop(2) by simp
    then show ?thesis
    proof (cases rule: before_loop_Some)
      case (early e)
      then show ?thesis using ask_start_panics [of host a s1 s'] ask_poll_panics [of host raw]
        by (cases "e = Panic") (auto simp: ends_ok_def)
    next
      case (loop q s2)
      obtain addr poll i where "q = (addr, poll, i)" by (cases q)
      with loop(2) show ?thesis by (auto dest: loops_end(2))
    qed
  qed
qed

lemma dispatch_ends:
  assumes "cli_dispatch host argv s = Some (r, s')"
  shows "ends_ok r \<or> r = Inl Panic \<and> bad_interval host argv"
proof (cases argv)
  case Nil
  then show ?thesis using assms by (auto simp: cli_dispatch_def ends_ok_def)
next
  case (Cons c rest)
  consider "c = ''sql''" | "c = ''retrieve''" | "c = ''enqueue''" | "c = ''ask''"
    | "c \<notin> {''sql'', ''retrieve'', ''enqueue'', ''ask''}" by blast
  then show ?thesis
  proof cases
    case 5
    then show ?thesis using assms
      by (auto simp: cli_dispatch_def Cons ends_ok_def exit_ok_def split: if_splits)
  qed (use assms enqueue_ends ask_ends gives_ends [OF cmd_sql_exits, of host rest s]
      gives_ends [OF cmd_retrieve_exits, of host rest s] in \<open>simp_all add: cli_dispatch_def Cons\<close>)
qed

text \<open>
  C11: a command of \<open>jobctl\<close> that ends has the status 0 or 1, or it panics, with status 101; it
  panics only over a poll interval that reads as a number and is no duration (negative, not a
  number, or too large) or over an argument that is not Unicode. \<open>enqueue\<close> over such an interval
  and any command over such an argument always panic, having done nothing. Writing to the
  terminal is taken to succeed, and the runtime to start.
\<close>
theorem only_bad_input_panics:
  "(cli_main host argv s = Some (code, s') \<longrightarrow>
      code = 0 \<or> code = 1 \<or>
      code = 101 \<and> (bad_interval host (drop 1 argv) \<or> (\<exists>arg \<in> set argv. to_str arg = None))) \<and>
   ((\<exists>arg \<in> set argv. to_str arg = None) \<longrightarrow> cli_main host argv s = Some (101, s)) \<and>
   (bad_interval host (''enqueue'' # raw) \<longrightarrow> cli_main host (prog # ''enqueue'' # raw) s = Some (101, s))"
proof (intro conjI impI)
  assume ends: "cli_main host argv s = Some (code, s')"
  show "code = 0 \<or> code = 1 \<or>
      code = 101 \<and> (bad_interval host (drop 1 argv) \<or> (\<exists>arg \<in> set argv. to_str arg = None))"
  proof (cases "\<exists>arg \<in> set argv. to_str arg = None")
    case True
    then show ?thesis using ends by (simp add: cli_main_def code_panic_def)
  next
    case False
    then obtain r s1 where run: "cli_dispatch host (drop 1 argv) s = Some (r, s1)"
      and code: "(case r of Inr code \<Rightarrow> (code, s1) | Inl (Failure e) \<Rightarrow> (code_failure, eprint_line (''jobctl: '' @ e) s1)
        | Inl Panic \<Rightarrow> (code_panic, s1)) = (code, s')"
      using ends unfolding cli_main_def if_not_P [OF False] by auto
    show ?thesis
      using dispatch_ends [OF run] code by (auto simp: ends_ok_def exit_ok_def code_success_def code_failure_def code_panic_def
          split: sum.splits failure.splits)
  qed
next
  assume "\<exists>arg \<in> set argv. to_str arg = None"
  then show "cli_main host argv s = Some (101, s)" by (simp add: cli_main_def code_panic_def)
next
  assume "bad_interval host (''enqueue'' # raw)"
  then obtain a x where "read_args enqueue_values [''--no-wait''] raw = Inr a"
    "num_f64 host a ''--poll-secs'' = Inr (Some x)" "\<not> valid_seconds x"
    by (auto simp: bad_interval_def)
  then have "enqueue_args host raw = Inl Panic" by (simp add: enqueue_args_def from_secs_f64_def)
  then show "cli_main host (prog # ''enqueue'' # raw) s = Some (101, s)"
    by (simp add: cli_main_def cli_dispatch_def cmd_enqueue_def before_loop_def code_panic_def)
qed

text \<open>\<open>--poll-secs -1\<close>, and a prompt that is no Unicode.\<close>

definition minus_one :: f64 where "minus_one = 0xBFF0000000000000"

theorem only_bad_input_panics_witness:
  "cli_main ((demo_host silent_api demo_answer)\<lparr>host_float := (\<lambda>t. if t = ''-1'' then Some minus_one else None)\<rparr>)
     [''jobctl'', ''enqueue'', ''--poll-secs'', ''-1'', ''hi''] (demo_state ()) = Some (101, demo_state ()) \<and>
   cli_main (demo_host silent_api demo_answer) [''jobctl'', ''sql'', [CHR 0xFF]] (demo_state ()) = Some (101, demo_state ())"
proof -
  let ?host = "(demo_host silent_api demo_answer)\<lparr>host_float := (\<lambda>t. if t = ''-1'' then Some minus_one else None)\<rparr>"
  let ?a = "\<lparr>arg_values = [''--poll-secs'' \<mapsto> ''-1''], arg_flags = {}, positional = [''hi'']\<rparr>"
  have "read_args enqueue_values [''--no-wait''] [''--poll-secs'', ''-1'', ''hi''] = Inr ?a"
    by (simp add: read_args_def args_parse_def args_loop.simps(2) option_name_def no_args_def put_value_def
        push_word_def enqueue_values_def)
  moreover have "trim ''-1'' = ''-1''" by (simp add: trim_graph is_graph_def byte_def)
  then have "num_f64 ?host ?a ''--poll-secs'' = Inr (Some minus_one)"
    by (simp add: num_f64_def arg_num_def arg_value_def parse_num_def)
  moreover have "\<not> valid_seconds minus_one"
    by (simp add: valid_seconds_def minus_one_def f64_negative_def f64_is_zero_def f64_magnitude_def bit_numeral_rec)
  ultimately have bad: "bad_interval ?host (''enqueue'' # [''--poll-secs'', ''-1'', ''hi''])"
    unfolding bad_interval_def by blast
  have junk: "\<exists>arg \<in> set [''jobctl'', ''sql'', [CHR 0xFF]]. to_str arg = None"
    by (simp add: to_str_def utf8_valid_def utf8_step_def byte_at_def byte_def)
  show ?thesis
    using only_bad_input_panics [of ?host "[]" "demo_state ()" 0 "demo_state ()"] bad
      only_bad_input_panics [of "demo_host silent_api demo_answer" "[''jobctl'', ''sql'', [CHR 0xFF]]" "demo_state ()" 0 "demo_state ()"] junk
    by blast
qed

end
